(* ===== verification/Prelude.thy ===== *)
theory Prelude
  imports Complex_Main "HOL-Library.AList" "HOL-Library.Char_ord" "HOL-Library.Sublist"
begin

text \<open>
  Generic material shared by every component theory: results with errors as values, the
  fragment of the JavaScript standard library the sources use (strings, number
  conversion, insertion-ordered \<open>Map\<close> and \<open>Set\<close>, rounding), and the lemmas about them.

  A JavaScript string is modelled as a list of code units below 256 (\<open>char\<close>). A
  JavaScript number that the code treats as an integer (a count, an id, a time in
  milliseconds) is an \<open>int\<close> or a \<open>nat\<close>; a fractional one is a \<open>real\<close>, without the
  rounding of binary64. An exception is the left summand of \<open>'e + 'a\<close>.
\<close>

named_theorems js_defs "definitions of the modelled standard library"

section \<open>Results\<close>

type_synonym ('e, 'a) result = "'e + 'a"

definition and_then :: "('e, 'a) result \<Rightarrow> ('a \<Rightarrow> ('e, 'b) result) \<Rightarrow> ('e, 'b) result" where
  "and_then m f = (case m of Inl e \<Rightarrow> Inl e | Inr x \<Rightarrow> f x)"

declare and_then_def [code_unfold]

lemma and_then_simps [simp]:
  "and_then (Inl e) f = Inl e"
  "and_then (Inr x) f = f x"
  by (simp_all add: and_then_def)

lemma and_then_assoc: "and_then (and_then m f) g = and_then m (\<lambda>x. and_then (f x) g)"
  by (cases m) simp_all

lemma and_then_Inr_iff: "and_then m f = Inr y \<longleftrightarrow> (\<exists>x. m = Inr x \<and> f x = Inr y)"
  by (cases m) simp_all

lemma and_then_Inl_iff: "and_then m f = Inl e \<longleftrightarrow> m = Inl e \<or> (\<exists>x. m = Inr x \<and> f x = Inl e)"
  by (cases m) simp_all

lemma result_caseD: "(case m of Inl e \<Rightarrow> False | Inr x \<Rightarrow> P x) \<Longrightarrow> \<exists>x. m = Inr x \<and> P x"
  by (cases m) simp_all

text \<open>\<open>Array.prototype.map\<close> with a callback that may throw: left to right, stopping at the
  first exception.\<close>

fun map_r :: "('a \<Rightarrow> ('e, 'b) result) \<Rightarrow> 'a list \<Rightarrow> ('e, 'b list) result" where
  "map_r f [] = Inr []"
| "map_r f (x # xs) = and_then (f x) (\<lambda>y. and_then (map_r f xs) (\<lambda>ys. Inr (y # ys)))"

fun fold_r :: "('s \<Rightarrow> 'a \<Rightarrow> ('e, 's) result) \<Rightarrow> 's \<Rightarrow> 'a list \<Rightarrow> ('e, 's) result" where
  "fold_r f s [] = Inr s"
| "fold_r f s (x # xs) = and_then (f s x) (\<lambda>s'. fold_r f s' xs)"

fun filter_r :: "('a \<Rightarrow> ('e, bool) result) \<Rightarrow> 'a list \<Rightarrow> ('e, 'a list) result" where
  "filter_r p [] = Inr []"
| "filter_r p (x # xs) =
     and_then (p x) (\<lambda>b. and_then (filter_r p xs) (\<lambda>ys. Inr (if b then x # ys else ys)))"

lemma map_r_Inr: "(\<And>x. x \<in> set xs \<Longrightarrow> f x = Inr (g x)) \<Longrightarrow> map_r f xs = Inr (map g xs)"
  by (induction xs) simp_all

lemma filter_r_Inr: "(\<And>x. x \<in> set xs \<Longrightarrow> p x = Inr (q x)) \<Longrightarrow> filter_r p xs = Inr (filter q xs)"
  by (induction xs) simp_all

lemma fold_r_append: "fold_r f s (xs @ ys) = and_then (fold_r f s xs) (\<lambda>s'. fold_r f s' ys)"
  by (induction xs arbitrary: s) (simp_all add: and_then_assoc)

lemma map_r_Inr_length: "map_r f xs = Inr ys \<Longrightarrow> length ys = length xs"
  by (induction xs arbitrary: ys) (auto simp: and_then_Inr_iff)

lemma filter_r_Inr_D: "filter_r p xs = Inr ys \<Longrightarrow> ys = filter (\<lambda>x. p x = Inr True) xs \<and> (\<forall>x\<in>set xs. \<exists>b. p x = Inr b)"
  by (induction xs arbitrary: ys) (auto simp: and_then_Inr_iff)

lemma map_r_Inr_D: "map_r f xs = Inr ys \<Longrightarrow> \<forall>x\<in>set xs. \<exists>y. f x = Inr y"
  by (induction xs arbitrary: ys) (auto simp: and_then_Inr_iff)

section \<open>Characters and decimal digits\<close>

definition code :: "char \<Rightarrow> nat" where
  "code c = of_char c"

definition is_digit :: "char \<Rightarrow> bool" where
  "is_digit c \<longleftrightarrow> 48 \<le> code c \<and> code c \<le> 57"

definition digit_val :: "char \<Rightarrow> nat" where
  "digit_val c = code c - 48"

definition digit_char :: "nat \<Rightarrow> char" where
  "digit_char d = char_of (48 + d)"

text \<open>White space and line terminators, as removed by \<open>String.prototype.trim\<close>.\<close>

definition is_space :: "char \<Rightarrow> bool" where
  "is_space c \<longleftrightarrow> (9 \<le> code c \<and> code c \<le> 13) \<or> code c = 32 \<or> code c = 160"

definition trim :: "string \<Rightarrow> string" where
  "trim s = rev (dropWhile is_space (rev (dropWhile is_space s)))"

lemma code_digit_char: "d < 10 \<Longrightarrow> code (digit_char d) = 48 + d"
  by (simp add: code_def digit_char_def)

lemma is_digit_digit_char [simp]: "d < 10 \<Longrightarrow> is_digit (digit_char d)"
  by (simp add: is_digit_def code_digit_char)

lemma digit_val_digit_char [simp]: "d < 10 \<Longrightarrow> digit_val (digit_char d) = d"
  by (simp add: digit_val_def code_digit_char)

lemma digit_val_less: "is_digit c \<Longrightarrow> digit_val c < 10"
  by (auto simp: is_digit_def digit_val_def)

lemma digit_char_digit_val: "is_digit c \<Longrightarrow> digit_char (digit_val c) = c"
  by (simp add: is_digit_def digit_val_def digit_char_def code_def)

lemma is_digit_not_space [simp]: "is_digit c \<Longrightarrow> \<not> is_space c"
  by (auto simp: is_digit_def is_space_def)

lemma trim_id: "s \<noteq> [] \<Longrightarrow> \<not> is_space (hd s) \<Longrightarrow> \<not> is_space (last s) \<Longrightarrow> trim s = s"
proof -
  assume "s \<noteq> []" "\<not> is_space (hd s)" "\<not> is_space (last s)"
  then have "dropWhile is_space s = s" "dropWhile is_space (rev s) = rev s"
    by (simp_all add: dropWhile_eq_self_iff hd_rev)
  then show ?thesis by (simp add: trim_def)
qed

lemma trim_Nil [simp]: "trim [] = []"
  by (simp add: trim_def)

lemma trim_idem [simp]: "trim (trim s) = trim s"
proof (cases "trim s = []")
  case True
  then show ?thesis by simp
next
  case False
  let ?u = "dropWhile is_space s"
  have rt: "trim s = rev (dropWhile is_space (rev ?u))" by (simp add: trim_def)
  have last: "\<not> is_space (last (trim s))"
    using False hd_dropWhile [of is_space "rev ?u"] by (simp add: rt last_rev)
  have "prefix (trim s) ?u"
    unfolding rt using suffix_dropWhile [of is_space "rev ?u"] by (simp add: suffix_to_prefix)
  then obtain zs where "?u = trim s @ zs" by (auto simp: prefix_def)
  with False have "hd (trim s) = hd ?u" "?u \<noteq> []" by simp_all
  then have "\<not> is_space (hd (trim s))" using hd_dropWhile [of is_space s] by simp
  with False last show ?thesis by (simp add: trim_id)
qed

text \<open>\<open>BigInt\<close> of a digit string, and \<open>String\<close> of a non-negative integer.\<close>

definition nat_of_digits :: "string \<Rightarrow> nat" where
  "nat_of_digits s = foldl (\<lambda>n c. 10 * n + digit_val c) 0 s"

fun string_of_nat :: "nat \<Rightarrow> string" where
  "string_of_nat n =
     (if n < 10 then [digit_char n] else string_of_nat (n div 10) @ [digit_char (n mod 10)])"

declare string_of_nat.simps [simp del]

definition string_of_int :: "int \<Rightarrow> string" where
  "string_of_int i = (if i < 0 then CHR ''-'' # string_of_nat (nat (- i)) else string_of_nat (nat i))"

lemma nat_of_digits_simps [simp]:
  "nat_of_digits [] = 0"
  "nat_of_digits (s @ [c]) = 10 * nat_of_digits s + digit_val c"
  by (simp_all add: nat_of_digits_def)

lemma nat_of_digits_append:
  "nat_of_digits (s @ t) = nat_of_digits s * 10 ^ length t + nat_of_digits t"
  by (induction t rule: rev_induct) (simp_all add: append_assoc [symmetric] algebra_simps del: append_assoc)

lemma nat_of_digits_bound: "list_all is_digit s \<Longrightarrow> nat_of_digits s < 10 ^ length s"
proof (induction s rule: rev_induct)
  case (snoc c s)
  then have "nat_of_digits s < 10 ^ length s" "digit_val c < 10"
    by (simp_all add: digit_val_less)
  then show ?case by simp
qed simp

lemma string_of_nat_digits: "list_all is_digit (string_of_nat n)"
proof (induction n rule: string_of_nat.induct)
  case (1 n)
  then show ?case by (cases "n < 10") (simp_all add: string_of_nat.simps [of n])
qed

lemma string_of_nat_nonempty [simp]: "string_of_nat n \<noteq> []"
  by (simp add: string_of_nat.simps [of n])

lemma nat_of_digits_string_of_nat [simp]: "nat_of_digits (string_of_nat n) = n"
proof (induction n rule: string_of_nat.induct)
  case (1 n)
  show ?case
  proof (cases "n < 10")
    case True
    then show ?thesis by (simp add: string_of_nat.simps [of n] nat_of_digits_def)
  next
    case False
    with 1 show ?thesis by (simp add: string_of_nat.simps [of n])
  qed
qed

lemma string_of_nat_inject [simp]: "string_of_nat m = string_of_nat n \<longleftrightarrow> m = n"
  by (metis nat_of_digits_string_of_nat)

lemma length_string_of_nat: "n < 10 ^ k \<Longrightarrow> 0 < k \<Longrightarrow> length (string_of_nat n) \<le> k"
proof (induction n arbitrary: k rule: string_of_nat.induct)
  case (1 n)
  show ?case
  proof (cases "n < 10")
    case True
    with 1 show ?thesis by (simp add: string_of_nat.simps [of n])
  next
    case False
    with 1 obtain j where k: "k = Suc j" "0 < j"
      by (cases k; cases "k - 1") auto
    with 1 False have "n div 10 < 10 ^ j" by (simp add: less_mult_imp_div_less mult.commute)
    with 1 False k show ?thesis by (simp add: string_of_nat.simps [of n])
  qed
qed

text \<open>\<open>padStart(n, "0")\<close> and \<open>padEnd(n, "0")\<close>.\<close>

definition pad_start :: "nat \<Rightarrow> string \<Rightarrow> string" where
  "pad_start n s = replicate (n - length s) (CHR ''0'') @ s"

definition pad_end :: "nat \<Rightarrow> string \<Rightarrow> string" where
  "pad_end n s = s @ replicate (n - length s) (CHR ''0'')"

lemma zero_digit [simp]: "is_digit (CHR ''0'')" "digit_val (CHR ''0'') = 0"
  by (simp_all add: is_digit_def digit_val_def code_def)

lemma nat_of_digits_zeros [simp]: "nat_of_digits (replicate n (CHR ''0'')) = 0"
  by (induction n) (simp_all add: nat_of_digits_def)

lemma nat_of_digits_pad_start [simp]: "nat_of_digits (pad_start n s) = nat_of_digits s"
  by (simp add: pad_start_def nat_of_digits_append)

lemma nat_of_digits_pad_end:
  "nat_of_digits (pad_end n s) = nat_of_digits s * 10 ^ (n - length s)"
  by (simp add: pad_end_def nat_of_digits_append)

lemma length_pad_start [simp]: "length (pad_start n s) = max n (length s)"
  by (simp add: pad_start_def)

lemma list_all_pad_start: "list_all is_digit s \<Longrightarrow> list_all is_digit (pad_start n s)"
  by (simp add: pad_start_def list_all_length nth_append)

text \<open>\<open>Array.prototype.join\<close>.\<close>

fun join_with :: "string \<Rightarrow> string list \<Rightarrow> string" where
  "join_with sep [] = []"
| "join_with sep [s] = s"
| "join_with sep (s # t # ss) = s @ sep @ join_with sep (t # ss)"

text \<open>\<open>s.split(c)\<close> for a separator of one character.\<close>

fun split_on :: "char \<Rightarrow> string \<Rightarrow> string list" where
  "split_on c [] = [[]]"
| "split_on c (x # xs) =
     (if x = c then [] # split_on c xs
      else (case split_on c xs of [] \<Rightarrow> [[x]] | s # ss \<Rightarrow> (x # s) # ss))"

lemma split_on_nonempty [simp]: "split_on c s \<noteq> []"
  by (induction s) (auto split: list.splits)

section \<open>Insertion-ordered sets and maps\<close>

text \<open>\<open>[...new Set(xs)]\<close>: the first occurrence of every element, in order.\<close>

fun uniq_from :: "'a list \<Rightarrow> 'a list \<Rightarrow> 'a list" where
  "uniq_from seen [] = []"
| "uniq_from seen (x # xs) =
     (if x \<in> set seen then uniq_from seen xs else x # uniq_from (x # seen) xs)"

definition uniq :: "'a list \<Rightarrow> 'a list" where
  "uniq xs = uniq_from [] xs"

lemma set_uniq_from: "set (uniq_from seen xs) = set xs - set seen"
  by (induction seen xs rule: uniq_from.induct) auto

lemma distinct_uniq_from: "distinct (uniq_from seen xs)"
  by (induction seen xs rule: uniq_from.induct) (simp_all add: set_uniq_from)

lemma set_uniq [simp]: "set (uniq xs) = set xs"
  by (simp add: uniq_def set_uniq_from)

lemma distinct_uniq [simp]: "distinct (uniq xs)"
  by (simp add: uniq_def distinct_uniq_from)

lemma uniq_from_distinct:
  "distinct xs \<Longrightarrow> set xs \<inter> set seen = {} \<Longrightarrow> uniq_from seen xs = xs"
  by (induction seen xs rule: uniq_from.induct) auto

lemma uniq_distinct [simp]: "distinct xs \<Longrightarrow> uniq xs = xs"
  by (simp add: uniq_def uniq_from_distinct)

text \<open>A \<open>Map\<close> is an association list: \<open>set\<close> overwrites in place or appends
  (\<open>AList.update\<close>), \<open>get\<close> is \<open>map_of\<close>.\<close>

lemma keys_update: "map fst (AList.update k v m) =
    (if k \<in> fst ` set m then map fst m else map fst m @ [k])"
  by (induction m) (auto split: if_splits)

lemma distinct_keys_update: "distinct (map fst m) \<Longrightarrow> distinct (map fst (AList.update k v m))"
  by (rule distinct_update)

section \<open>Numbers\<close>

lemma le_div_int_iff: "0 < (b::int) \<Longrightarrow> a \<le> x div b \<longleftrightarrow> a * b \<le> x"
proof
  assume b: "0 < b" and "a \<le> x div b"
  then have "a * b \<le> x div b * b" by simp
  also have "\<dots> \<le> x" using b by (simp add: minus_mod_eq_div_mult [symmetric])
  finally show "a * b \<le> x" .
next
  assume b: "0 < b" and "a * b \<le> x"
  then have "a * b div b \<le> x div b" by (intro zdiv_mono1)
  with b show "a \<le> x div b" by simp
qed

lemma div_bounds: "0 < (k::int) \<Longrightarrow> k * (z div k) \<le> z \<and> z < k * (z div k) + k"
  using mult_div_mod_eq [of k z] pos_mod_sign [of k z] pos_mod_bound [of k z] by linarith

text \<open>\<open>Math.ceil\<close> and \<open>Math.floor\<close> are \<open>ceiling\<close> and \<open>floor\<close>; \<open>Math.min\<close> and \<open>Math.max\<close> are
  \<open>min\<close> and \<open>max\<close>. An arithmetic result that may be not finite is a value of \<open>js_num\<close>.\<close>

datatype js_num = NaN | Pos_Inf | Neg_Inf | Fin real

fun is_finite :: "js_num \<Rightarrow> bool" where
  "is_finite (Fin x) = True"
| "is_finite _ = False"

text \<open>\<open>Number(s)\<close> on a string: the grammar of string numeric literals, without hexadecimal,
  octal and binary ones being signed. The exact value is kept (binary64 rounds it); a
  magnitude that rounds to infinity is infinite.\<close>

definition number_limit :: real where
  "number_limit = 2 ^ 1024 - 2 ^ 970"

definition clip_number :: "real \<Rightarrow> js_num" where
  "clip_number x = (if number_limit \<le> x then Pos_Inf else if x \<le> - number_limit then Neg_Inf else Fin x)"

definition split_digits :: "string \<Rightarrow> string \<times> string" where
  "split_digits s = (takeWhile is_digit s, dropWhile is_digit s)"

definition parse_exponent :: "string \<Rightarrow> int option" where
  "parse_exponent s =
     (case s of [] \<Rightarrow> Some 0
      | c # r \<Rightarrow>
         if c \<noteq> CHR ''e'' \<and> c \<noteq> CHR ''E'' then None
         else let neg = (r \<noteq> [] \<and> hd r = CHR ''-'');
                  ds = (if r \<noteq> [] \<and> (hd r = CHR ''-'' \<or> hd r = CHR ''+'') then tl r else r)
              in if ds = [] \<or> \<not> list_all is_digit ds then None
                 else Some (if neg then - int (nat_of_digits ds) else int (nat_of_digits ds)))"

definition parse_unsigned_decimal :: "string \<Rightarrow> real option" where
  "parse_unsigned_decimal s =
     (let (w, r) = split_digits s;
          (f, r') = (case r of [] \<Rightarrow> ([], []) | c # q \<Rightarrow> if c = CHR ''.'' then split_digits q else ([], r))
      in if w = [] \<and> f = [] then None
         else map_option (\<lambda>e. real (nat_of_digits (w @ f)) * 10 powi (e - int (length f))) (parse_exponent r'))"

definition hex_val :: "char \<Rightarrow> nat option" where
  "hex_val c = (if is_digit c then Some (digit_val c)
     else if 97 \<le> code c \<and> code c \<le> 102 then Some (code c - 87)
     else if 65 \<le> code c \<and> code c \<le> 70 then Some (code c - 55) else None)"

definition parse_radix :: "nat \<Rightarrow> string \<Rightarrow> nat option" where
  "parse_radix b s = (if s = [] then None
     else foldl (\<lambda>n c. case (n, hex_val c) of (Some m, Some d) \<Rightarrow> if d < b then Some (b * m + d) else None
                       | _ \<Rightarrow> None) (Some 0) s)"

definition js_number :: "string \<Rightarrow> js_num" where
  "js_number s0 =
     (let s = trim s0;
          pre = take 2 s;
          radix = (if pre = ''0x'' \<or> pre = ''0X'' then 16 else if pre = ''0o'' \<or> pre = ''0O'' then 8
                   else if pre = ''0b'' \<or> pre = ''0B'' then 2 else 0);
          neg = (s \<noteq> [] \<and> hd s = CHR ''-'');
          body = (if s \<noteq> [] \<and> (hd s = CHR ''-'' \<or> hd s = CHR ''+'') then tl s else s)
      in if s = [] then Fin 0
         else if radix \<noteq> 0 then (case parse_radix radix (drop 2 s) of None \<Rightarrow> NaN | Some n \<Rightarrow> clip_number (real n))
         else if body = ''Infinity'' then (if neg then Neg_Inf else Pos_Inf)
         else case parse_unsigned_decimal body of None \<Rightarrow> NaN
              | Some x \<Rightarrow> clip_number (if neg then - x else x))"

end
