(* ===== verification/Exact_Decimal.thy ===== *)
theory Exact_Decimal
  imports Prelude
begin

text \<open>
  \<open>packages/canonical-schema/src/decimal.ts\<close>: the class \<open>Decimal4\<close>, the exact fixed-scale
  decimal behind every money and quantity value. A \<open>bigint\<close> is an \<open>int\<close>; the argument type
  \<open>string | bigint | Decimal4\<close> is \<open>dec_input\<close>; both exceptions of the class are the
  constructors of \<open>decimal_error\<close>.
\<close>

section \<open>The type and its parser\<close>

datatype decimal4 = Decimal4 (scaled: int)

datatype dec_input = Str string | Big int | Dec decimal4

datatype decimal_error =
    Invalid_exact_decimal string
  | Cannot_divide_by_zero
  | Invalid_currency string

definition SCALE :: int where
  "SCALE = 10000"

text \<open>The regular expression \<open>^(-?)(\d+)(?:\.(\d{1,m}))?$\<close>: sign, whole digits, fraction.\<close>

definition match_unsigned :: "nat \<Rightarrow> string \<Rightarrow> (string \<times> string) option" where
  "match_unsigned m body =
     (let (whole, r) = split_digits body
      in if whole = [] then None
         else case r of
             [] \<Rightarrow> Some (whole, [])
           | c # f \<Rightarrow> if c = CHR ''.'' \<and> f \<noteq> [] \<and> length f \<le> m \<and> list_all is_digit f
                      then Some (whole, f) else None)"

definition match_decimal :: "nat \<Rightarrow> string \<Rightarrow> (bool \<times> string \<times> string) option" where
  "match_decimal m s =
     (let neg = (s \<noteq> [] \<and> hd s = CHR ''-'')
      in map_option (\<lambda>(w, f). (neg, w, f)) (match_unsigned m (if neg then tl s else s)))"

definition dec_zero :: decimal4 where
  "dec_zero = Decimal4 0"

definition dec_from_scaled :: "int \<Rightarrow> decimal4" where
  "dec_from_scaled n = Decimal4 n"

fun dec_from :: "dec_input \<Rightarrow> (decimal_error, decimal4) result" where
  "dec_from (Dec d) = Inr d"
| "dec_from (Big n) = Inr (Decimal4 (n * SCALE))"
| "dec_from (Str value) =
     (case match_decimal 4 (trim value) of
        None \<Rightarrow> Inl (Invalid_exact_decimal value)
      | Some (neg, whole, fraction) \<Rightarrow>
          let s = int (nat_of_digits whole) * SCALE + int (nat_of_digits (pad_end 4 fraction))
          in Inr (Decimal4 (if neg then - s else s)))"

definition divide_rounded :: "int \<Rightarrow> int \<Rightarrow> int" where
  "divide_rounded dividend divisor =
     (let negative = ((dividend < 0) \<noteq> (divisor < 0));
          absolute_dividend = (if dividend < 0 then - dividend else dividend);
          absolute_divisor = (if divisor < 0 then - divisor else divisor);
          quotient = absolute_dividend div absolute_divisor;
          remainder = absolute_dividend mod absolute_divisor;
          rounded = (if remainder * 2 \<ge> absolute_divisor then quotient + 1 else quotient)
      in if negative then - rounded else rounded)"

fun dec_from_rounded :: "dec_input \<Rightarrow> (decimal_error, decimal4) result" where
  "dec_from_rounded (Dec d) = Inr d"
| "dec_from_rounded (Big n) = Inr (Decimal4 (n * SCALE))"
| "dec_from_rounded (Str value) =
     (let normalized = trim value in
      case match_decimal 40 normalized of
        None \<Rightarrow> Inl (Invalid_exact_decimal value)
      | Some (neg, whole, fraction) \<Rightarrow>
          if length fraction \<le> 4 then dec_from (Str normalized)
          else let divisor = 10 ^ length fraction;
                   exact = int (nat_of_digits whole) * divisor + int (nat_of_digits fraction);
                   s = divide_rounded (exact * SCALE) divisor
               in Inr (Decimal4 (if neg then - s else s)))"

section \<open>Operations\<close>

definition dec_add :: "decimal4 \<Rightarrow> dec_input \<Rightarrow> (decimal_error, decimal4) result" where
  "dec_add d x = and_then (dec_from x) (\<lambda>y. Inr (Decimal4 (scaled d + scaled y)))"

definition dec_subtract :: "decimal4 \<Rightarrow> dec_input \<Rightarrow> (decimal_error, decimal4) result" where
  "dec_subtract d x = and_then (dec_from x) (\<lambda>y. Inr (Decimal4 (scaled d - scaled y)))"

definition dec_multiply :: "decimal4 \<Rightarrow> dec_input \<Rightarrow> (decimal_error, decimal4) result" where
  "dec_multiply d x =
     and_then (dec_from x) (\<lambda>y. Inr (Decimal4 (divide_rounded (scaled d * scaled y) SCALE)))"

definition dec_divide :: "decimal4 \<Rightarrow> dec_input \<Rightarrow> (decimal_error, decimal4) result" where
  "dec_divide d x =
     and_then (dec_from x) (\<lambda>y.
       if scaled y = 0 then Inl Cannot_divide_by_zero
       else Inr (Decimal4 (divide_rounded (scaled d * SCALE) (scaled y))))"

definition dec_abs :: "decimal4 \<Rightarrow> decimal4" where
  "dec_abs d = (if scaled d < 0 then Decimal4 (- scaled d) else d)"

definition dec_equals :: "decimal4 \<Rightarrow> dec_input \<Rightarrow> (decimal_error, bool) result" where
  "dec_equals d x = and_then (dec_from x) (\<lambda>y. Inr (scaled d = scaled y))"

definition dec_compare :: "decimal4 \<Rightarrow> dec_input \<Rightarrow> (decimal_error, int) result" where
  "dec_compare d x =
     and_then (dec_from x) (\<lambda>y. Inr (if scaled d < scaled y then -1 else if scaled d > scaled y then 1 else 0))"

definition dec_to_string :: "decimal4 \<Rightarrow> string" where
  "dec_to_string d =
     (let negative = (scaled d < 0);
          absolute = (if negative then - scaled d else scaled d);
          whole = absolute div SCALE;
          fraction = pad_start 4 (string_of_int (absolute mod SCALE))
      in (if negative then ''-'' else []) @ string_of_int whole @ ''.'' @ fraction)"

definition dec_to_json :: "decimal4 \<Rightarrow> string" where
  "dec_to_json d = dec_to_string d"

definition sum_decimal4 :: "dec_input list \<Rightarrow> (decimal_error, decimal4) result" where
  "sum_decimal4 values = fold_r (\<lambda>sum v. dec_add sum v) dec_zero values"

text \<open>\<open>toUpperCase\<close> on code units below 256. The German sharp s becomes two letters; the other
  letters outside ASCII never become ASCII letters, so they stay as they are here.\<close>

definition upper_char :: "char \<Rightarrow> string" where
  "upper_char c =
     (if 97 \<le> code c \<and> code c \<le> 122 then [char_of (code c - 32)]
      else if code c = 223 then ''SS'' else [c])"

definition to_upper :: "string \<Rightarrow> string" where
  "to_upper s = concat (map upper_char s)"

definition is_upper_ascii :: "char \<Rightarrow> bool" where
  "is_upper_ascii c \<longleftrightarrow> 65 \<le> code c \<and> code c \<le> 90"

definition assert_currency :: "string \<Rightarrow> (decimal_error, string) result" where
  "assert_currency currency =
     (let normalized = to_upper (trim currency)
      in if length normalized = 3 \<and> list_all is_upper_ascii normalized
         then Inr normalized else Inl (Invalid_currency currency))"

section \<open>Total orders\<close>

text \<open>\<open>compare\<close> is the order of the scaled integers, so \<open>decimal4\<close> is a linear order.\<close>

instantiation decimal4 :: linorder
begin

definition less_eq_decimal4 :: "decimal4 \<Rightarrow> decimal4 \<Rightarrow> bool" where
  "less_eq_decimal4 a b \<longleftrightarrow> scaled a \<le> scaled b"

definition less_decimal4 :: "decimal4 \<Rightarrow> decimal4 \<Rightarrow> bool" where
  "less_decimal4 a b \<longleftrightarrow> scaled a < scaled b"

instance
  by standard (auto simp: less_eq_decimal4_def less_decimal4_def decimal4.expand)

end

lemmas decimal_op_defs = dec_add_def dec_subtract_def dec_multiply_def dec_divide_def
  dec_equals_def dec_compare_def

lemma dec_compare_order:
  "dec_compare d (Dec e) = Inr (if d < e then -1 else if e < d then 1 else 0)"
  by (simp add: dec_compare_def less_decimal4_def)

section \<open>Rounding\<close>

text \<open>The reference: round half away from zero, on the exact quotient.\<close>

definition round_half_away :: "real \<Rightarrow> int" where
  "round_half_away x = (if x < 0 then - \<lfloor>- x + 1/2\<rfloor> else \<lfloor>x + 1/2\<rfloor>)"

lemma floor_half_div:
  assumes "0 \<le> a" "0 < (b::int)"
  shows "\<lfloor>real_of_int a / real_of_int b + 1/2\<rfloor> = (if (a mod b) * 2 \<ge> b then a div b + 1 else a div b)"
proof -
  let ?q = "a div b" and ?r = "a mod b"
  have r: "0 \<le> ?r" "?r < b" using assms by simp_all
  have "real_of_int a = real_of_int ?q * real_of_int b + real_of_int ?r"
    by (metis of_int_add of_int_mult div_mult_mod_eq)
  then have eq: "real_of_int a / real_of_int b = real_of_int ?q + real_of_int ?r / real_of_int b"
    using assms by (simp add: field_simps)
  define t where "t = real_of_int ?r / real_of_int b"
  have "0 \<le> t" "t < 1" using r assms by (simp_all add: t_def divide_less_eq)
  moreover have "1/2 \<le> t \<longleftrightarrow> ?r * 2 \<ge> b"
    unfolding t_def using assms by (simp only: le_divide_eq of_int_0_less_iff if_True) linarith
  ultimately have "\<lfloor>real_of_int ?q + t + 1/2\<rfloor> = (if ?r * 2 \<ge> b then ?q + 1 else ?q)"
    by (auto intro!: floor_unique)
  then show ?thesis by (simp only: eq t_def)
qed

lemma divide_rounded_round_half_away:
  assumes "b \<noteq> 0"
  shows "divide_rounded a b = round_half_away (real_of_int a / real_of_int b)"
proof -
  have abs: "\<lfloor>real_of_int \<bar>a\<bar> / real_of_int \<bar>b\<bar> + 1/2\<rfloor> =
      (if (\<bar>a\<bar> mod \<bar>b\<bar>) * 2 \<ge> \<bar>b\<bar> then \<bar>a\<bar> div \<bar>b\<bar> + 1 else \<bar>a\<bar> div \<bar>b\<bar>)"
    using assms by (intro floor_half_div) simp_all
  have lhs: "divide_rounded a b = (if (a < 0) \<noteq> (b < 0) then - \<lfloor>real_of_int \<bar>a\<bar> / real_of_int \<bar>b\<bar> + 1/2\<rfloor>
      else \<lfloor>real_of_int \<bar>a\<bar> / real_of_int \<bar>b\<bar> + 1/2\<rfloor>)"
    unfolding abs divide_rounded_def Let_def by (simp add: abs_if)
  show ?thesis
  proof (cases "a = 0")
    case True
    with assms show ?thesis by (simp add: divide_rounded_def round_half_away_def)
  next
    case False
    then show ?thesis unfolding lhs round_half_away_def
      using assms by (auto simp: abs_if divide_less_0_iff)
  qed
qed

lemma round_half_away_of_int [simp]: "round_half_away (of_int n) = n"
  by (auto simp: round_half_away_def floor_eq_iff)

lemma divide_rounded_exact: "b \<noteq> 0 \<Longrightarrow> divide_rounded (a * b) b = a"
  by (simp add: divide_rounded_round_half_away)

lemma round_half_away_error: "\<bar>of_int (round_half_away x) - x\<bar> \<le> 1/2"
proof -
  define n m where "n = \<lfloor>- x + 1/2\<rfloor>" and "m = \<lfloor>x + 1/2\<rfloor>"
  have "of_int n \<le> - x + 1/2" "- x + 1/2 < of_int n + 1" "of_int m \<le> x + 1/2" "x + 1/2 < of_int m + 1"
    unfolding n_def m_def by linarith+
  then have "\<bar>of_int (- n) - x\<bar> \<le> 1/2" "\<bar>of_int m - x\<bar> \<le> 1/2"
    unfolding abs_le_iff by simp_all
  then show ?thesis by (simp add: round_half_away_def n_def m_def)
qed

lemma round_half_away_minus: "round_half_away (- x) = - round_half_away x"
  by (cases "x = 0") (auto simp: round_half_away_def)


section \<open>Printing and parsing\<close>

lemma split_digits_append:
  "list_all is_digit w \<Longrightarrow> (r = [] \<or> \<not> is_digit (hd r)) \<Longrightarrow> split_digits (w @ r) = (w, r)"
  by (induction w) (auto simp: split_digits_def takeWhile_eq_Nil_iff dropWhile_eq_self_iff)

lemma dot_minus [simp]: "\<not> is_digit (CHR ''.'')" "\<not> is_digit (CHR ''-'')" "\<not> is_space (CHR ''-'')"
  by (simp_all add: is_digit_def is_space_def code_def)

lemma digit_not_minus: "is_digit c \<Longrightarrow> c \<noteq> CHR ''-''"
  by auto

lemma match_decimal_parts:
  assumes "list_all is_digit w" "w \<noteq> []" "list_all is_digit f" "f \<noteq> []" "length f \<le> m"
  shows "match_decimal m ((if neg then ''-'' else []) @ w @ ''.'' @ f) = Some (neg, w, f)"
proof -
  have "hd w \<noteq> CHR ''-''" using assms by (cases w) (auto dest: digit_not_minus)
  then show ?thesis
    using assms
    by (simp add: match_decimal_def match_unsigned_def split_digits_append [where r = "CHR ''.'' # f"])
qed

lemma trim_decimal:
  assumes "list_all is_digit w" "w \<noteq> []" "list_all is_digit f" "f \<noteq> []"
  shows "trim ((if neg then ''-'' else []) @ w @ ''.'' @ f) = (if neg then ''-'' else []) @ w @ ''.'' @ f"
proof (rule trim_id)
  have "is_digit (last f)" "is_digit (hd w)"
    using assms by (simp_all add: list_all_iff)
  then show "\<not> is_space (last ((if neg then ''-'' else []) @ w @ ''.'' @ f))"
    "\<not> is_space (hd ((if neg then ''-'' else []) @ w @ ''.'' @ f))"
    using assms by simp_all
qed simp

lemma dec_from_parts:
  assumes "list_all is_digit w" "w \<noteq> []" "list_all is_digit f" "length f = 4"
  shows "dec_from (Str ((if neg then ''-'' else []) @ w @ ''.'' @ f)) =
    Inr (Decimal4 ((if neg then -1 else 1) * (int (nat_of_digits w) * SCALE + int (nat_of_digits f))))"
proof -
  have "f \<noteq> []" using assms by auto
  then show ?thesis
    using assms by (simp add: trim_decimal match_decimal_parts nat_of_digits_pad_end Let_def
        del: append_Cons append_assoc)
qed

lemma digits_of_fraction:
  assumes "0 \<le> r" "r < SCALE"
  shows "length (pad_start 4 (string_of_int r)) = 4"
    and "list_all is_digit (pad_start 4 (string_of_int r))"
    and "int (nat_of_digits (pad_start 4 (string_of_int r))) = r"
  using assms length_string_of_nat [of "nat r" 4]
  by (simp_all add: string_of_int_def SCALE_def string_of_nat_digits list_all_pad_start)

lemma dec_from_to_string: "dec_from (Str (dec_to_string d)) = Inr d"
proof -
  let ?neg = "scaled d < 0" and ?a = "\<bar>scaled d\<bar>"
  let ?w = "string_of_int (?a div SCALE)" and ?f = "pad_start 4 (string_of_int (?a mod SCALE))"
  have str: "dec_to_string d = (if ?neg then ''-'' else []) @ ?w @ ''.'' @ ?f"
    by (simp add: dec_to_string_def abs_if Let_def)
  have r: "0 \<le> ?a mod SCALE" "?a mod SCALE < SCALE" "0 \<le> ?a div SCALE"
    by (simp_all add: SCALE_def)
  have w: "list_all is_digit ?w" "?w \<noteq> []" "int (nat_of_digits ?w) = ?a div SCALE"
    using r(3) by (simp_all add: string_of_int_def string_of_nat_digits)
  have "dec_from (Str (dec_to_string d)) =
      Inr (Decimal4 ((if ?neg then -1 else 1) * (?a div SCALE * SCALE + ?a mod SCALE)))"
    unfolding str
    using dec_from_parts [OF w(1,2) digits_of_fraction(2,1) [OF r(1,2)], of ?neg]
    by (simp only: w(3) digits_of_fraction(3) [OF r(1,2)])
  then show ?thesis by (cases d) (simp add: abs_if)
qed

text \<open>A string that the four-digit parser accepts is accepted by the rounding one, with the
  same value.\<close>

lemma match_unsigned_mono: "match_unsigned m b = Some (w, f) \<Longrightarrow> m \<le> n \<Longrightarrow> match_unsigned n b = Some (w, f)"
  by (cases "split_digits b") (auto simp: match_unsigned_def split: list.splits if_splits)

lemma match_unsigned_length: "match_unsigned m b = Some (w, f) \<Longrightarrow> length f \<le> m"
  by (cases "split_digits b") (auto simp: match_unsigned_def split: list.splits if_splits)

lemma match_decimal_mono: "match_decimal m s = Some (neg, w, f) \<Longrightarrow> m \<le> n \<Longrightarrow> match_decimal n s = Some (neg, w, f)"
  by (auto simp: match_decimal_def Let_def dest: match_unsigned_mono)

lemma match_decimal_length: "match_decimal m s = Some (neg, w, f) \<Longrightarrow> length f \<le> m"
  by (auto simp: match_decimal_def Let_def dest: match_unsigned_length)

lemma match_unsigned_shrink: "match_unsigned m b = Some (w, f) \<Longrightarrow> length f \<le> n \<Longrightarrow> match_unsigned n b = Some (w, f)"
  by (cases "split_digits b") (auto simp: match_unsigned_def split: list.splits if_splits)

lemma match_decimal_shrink: "match_decimal m s = Some (neg, w, f) \<Longrightarrow> length f \<le> n \<Longrightarrow> match_decimal n s = Some (neg, w, f)"
  by (auto simp: match_decimal_def Let_def dest: match_unsigned_shrink)

lemma dec_from_rounded_extends: "dec_from x = Inr d \<Longrightarrow> dec_from_rounded x = Inr d"
proof (cases x)
  case (Str s)
  assume "dec_from x = Inr d"
  then obtain neg w f where m: "match_decimal 4 (trim s) = Some (neg, w, f)"
    unfolding Str by (auto split: option.splits)
  from match_decimal_mono [OF m, of 40] match_decimal_length [OF m] m \<open>dec_from x = Inr d\<close>
  show ?thesis unfolding Str by (simp add: Let_def)
qed simp_all

text \<open>The real number a digit string with a fraction denotes.\<close>

definition decimal_value :: "bool \<Rightarrow> string \<Rightarrow> string \<Rightarrow> real" where
  "decimal_value neg w f =
     (if neg then -1 else 1) * (real (nat_of_digits w) + real (nat_of_digits f) / 10 ^ length f)"

definition dec_value :: "decimal4 \<Rightarrow> real" where
  "dec_value d = real_of_int (scaled d) / 10000"

lemma dec_from_exact:
  assumes "match_decimal 4 (trim s) = Some (neg, w, f)"
  shows "\<exists>d. dec_from (Str s) = Inr d \<and> dec_value d = decimal_value neg w f"
proof -
  have len: "length f \<le> 4" using match_decimal_length [OF assms] .
  have "(10::real) ^ 4 = 10 ^ (4 - length f) * 10 ^ length f"
    using len by (simp add: power_add [symmetric])
  then have "real (nat_of_digits (pad_end 4 f)) / 10000 = real (nat_of_digits f) / 10 ^ length f"
    by (simp add: nat_of_digits_pad_end field_simps)
  with assms show ?thesis
    by (simp add: dec_value_def decimal_value_def Let_def SCALE_def add_divide_distrib)
qed

lemma dec_from_rounded_value:
  assumes "match_decimal 40 (trim s) = Some (neg, w, f)" "4 < length f"
  shows "dec_from_rounded (Str s) = Inr (Decimal4 (round_half_away (decimal_value neg w f * 10000)))"
proof -
  let ?D = "10 ^ length f :: int"
  let ?e = "int (nat_of_digits w) * ?D + int (nat_of_digits f)"
  have "divide_rounded (?e * SCALE) ?D = round_half_away (real_of_int (?e * SCALE) / real_of_int ?D)"
    by (rule divide_rounded_round_half_away) simp
  also have "real_of_int (?e * SCALE) / real_of_int ?D = decimal_value False w f * 10000"
    by (simp add: decimal_value_def SCALE_def field_simps)
  finally have d: "divide_rounded (?e * SCALE) ?D = round_half_away (decimal_value False w f * 10000)" .
  have neg: "decimal_value neg w f * 10000 = (if neg then - (decimal_value False w f * 10000) else decimal_value False w f * 10000)"
    by (simp add: decimal_value_def)
  show ?thesis using assms
    by (simp add: Let_def d neg round_half_away_minus)
qed

section \<open>Sums\<close>

lemma sum_decimal4_decimals: "sum_decimal4 (map Dec ds) = Inr (Decimal4 (\<Sum>d\<leftarrow>ds. scaled d))"
proof -
  have "fold_r (\<lambda>sum v. dec_add sum v) (Decimal4 n) (map Dec ds) = Inr (Decimal4 (n + (\<Sum>d\<leftarrow>ds. scaled d)))" for n
    by (induction ds arbitrary: n) (simp_all add: dec_add_def add.assoc)
  then show ?thesis by (simp add: sum_decimal4_def dec_zero_def)
qed

lemma sum_decimal4_from:
  "map_r dec_from xs = Inr ds \<Longrightarrow> sum_decimal4 xs = Inr (Decimal4 (\<Sum>d\<leftarrow>ds. scaled d))"
proof -
  have "map_r dec_from xs = Inr ds \<Longrightarrow>
      fold_r (\<lambda>sum v. dec_add sum v) (Decimal4 n) xs = Inr (Decimal4 (n + (\<Sum>d\<leftarrow>ds. scaled d)))" for n
    by (induction xs arbitrary: n ds) (auto simp: dec_add_def and_then_Inr_iff add.assoc)
  then show "map_r dec_from xs = Inr ds \<Longrightarrow> ?thesis" by (simp add: sum_decimal4_def dec_zero_def)
qed

lemma sum_decimal4_error:
  "map_r dec_from xs = Inl e \<Longrightarrow> sum_decimal4 xs = Inl e"
proof -
  have "map_r dec_from xs = Inl e \<Longrightarrow> fold_r (\<lambda>sum v. dec_add sum v) s xs = Inl e" for s
    by (induction xs arbitrary: s) (auto simp: dec_add_def and_then_Inl_iff)
  then show "map_r dec_from xs = Inl e \<Longrightarrow> ?thesis" by (simp add: sum_decimal4_def)
qed

text \<open>From here on a string is parsed only through the lemmas above.\<close>

declare dec_from.simps(3) [simp del] and dec_from_rounded.simps(3) [simp del]

section \<open>Properties\<close>

text \<open>C40. \<open>Decimal4.from(d.toString())\<close> gives back \<open>d\<close>, for every decimal: printing always
  yields four fraction digits that the parser reads exactly.\<close>

theorem decimal_print_parse: "dec_from (Str (dec_to_string d)) = Inr d"
  by (rule dec_from_to_string)

text \<open>\<open>Decimal4.fromRounded\<close> on a string of at most forty fraction digits returns the scaled
  value rounded half away from zero (exactly the value when four digits are enough), so the
  result is within half of the last place.\<close>

theorem rounded_parse_half_away:
  assumes "match_decimal 40 (trim s) = Some (neg, w, f)"
  shows "\<exists>d. dec_from_rounded (Str s) = Inr d \<and>
     scaled d = round_half_away (decimal_value neg w f * 10000) \<and>
     \<bar>dec_value d - decimal_value neg w f\<bar> \<le> 1 / 20000"
proof -
  obtain d where d: "dec_from_rounded (Str s) = Inr d" "scaled d = round_half_away (decimal_value neg w f * 10000)"
  proof (cases "length f \<le> 4")
    case False
    with dec_from_rounded_value [OF assms] that show ?thesis by simp
  next
    case True
    with assms have "match_decimal 4 (trim s) = Some (neg, w, f)" by (rule match_decimal_shrink)
    from dec_from_exact [OF this] obtain d where d: "dec_from (Str s) = Inr d" "dec_value d = decimal_value neg w f"
      by blast
    have "scaled d = round_half_away (decimal_value neg w f * 10000)"
      by (simp add: d(2) [symmetric] dec_value_def)
    with dec_from_rounded_extends [OF d(1)] that show ?thesis by blast
  qed
  have "\<bar>real_of_int (scaled d) - decimal_value neg w f * 10000\<bar> \<le> 1 / 2"
    using round_half_away_error [of "decimal_value neg w f * 10000"] by (simp add: d(2))
  then have "\<bar>dec_value d - decimal_value neg w f\<bar> \<le> 1 / 20000"
    by (simp add: dec_value_def abs_le_iff field_simps)
  with d show ?thesis by blast
qed

theorem rounded_parse_half_away_witness:
  "\<exists>d. dec_from_rounded (Str '' -12.000050000 '') = Inr d \<and>
     scaled d = round_half_away (decimal_value True ''12'' ''000050000'' * 10000) \<and>
     \<bar>dec_value d - decimal_value True ''12'' ''000050000''\<bar> \<le> 1 / 20000"
proof -
  have "match_decimal 40 (trim '' -12.000050000 '') = Some (True, ''12'', ''000050000'')" by code_simp
  from rounded_parse_half_away [OF this] show ?thesis .
qed

text \<open>\<open>multiply\<close> and \<open>divide\<close> on decimals: the exact product and quotient rounded half away
  from zero to four places; division fails exactly when the divisor is zero.\<close>

theorem decimal_product_quotient:
  "dec_multiply d (Dec e) = Inr (Decimal4 (round_half_away (dec_value d * dec_value e * 10000))) \<and>
   dec_divide d (Dec e) = (if dec_value e = 0 then Inl Cannot_divide_by_zero
      else Inr (Decimal4 (round_half_away (dec_value d / dec_value e * 10000))))"
  by (auto simp: decimal_op_defs divide_rounded_round_half_away dec_value_def SCALE_def)

end
