(* ===== verification/Quality_Checks.thy ===== *)
theory Quality_Checks
  imports Exact_Decimal
begin

text \<open>
  \<open>packages/canonical-schema/src/quality.ts\<close>: the five reconciliation checks over canonical
  amounts. They parse every amount with \<open>Decimal4.from\<close> and accumulate per key in a \<open>Map\<close>;
  an amount that does not parse aborts the check with the parser's exception.

  The checks rely on decimals only through addition, subtraction, absolute value and order.
  The locale \<open>exact_amounts\<close> states what they need, and the per-key totals of the two
  ledger checks are proved once inside it.
\<close>

section \<open>The interface to exact amounts\<close>

text \<open>A ledger loop: \<open>m.set(k, (m.get(k) ?? zero).add(v))\<close> over a list of entries.\<close>

definition ledger_step :: "'d \<Rightarrow> ('d \<Rightarrow> 'd \<Rightarrow> 'd) \<Rightarrow> ('k \<times> 'd) list \<Rightarrow> 'k \<times> 'd \<Rightarrow> ('k \<times> 'd) list" where
  "ledger_step start accrue m kv =
     AList.update (fst kv) (accrue (case map_of m (fst kv) of None \<Rightarrow> start | Some t \<Rightarrow> t) (snd kv)) m"

locale exact_amounts =
  fixes start :: 'd
    and accrue :: "'d \<Rightarrow> 'd \<Rightarrow> 'd"
    and amount :: "'d \<Rightarrow> 'v::comm_monoid_add"
  assumes amount_zero: "amount start = 0"
    and amount_plus: "amount (accrue a b) = amount a + amount b"
begin

definition ledger :: "('k \<times> 'd) list \<Rightarrow> ('k \<times> 'd) list \<Rightarrow> ('k \<times> 'd) list" where
  "ledger m xs = foldl (ledger_step start accrue) m xs"

definition entry :: "('k \<times> 'd) list \<Rightarrow> 'k \<Rightarrow> 'v" where
  "entry m k = (case map_of m k of None \<Rightarrow> 0 | Some t \<Rightarrow> amount t)"

lemma entry_step: "entry (ledger_step start accrue m kv) k = entry m k + (if fst kv = k then amount (snd kv) else 0)"
  by (auto simp: entry_def ledger_step_def update_conv' amount_plus amount_zero split: option.splits)

lemma entry_ledger: "entry (ledger m xs) k = entry m k + (\<Sum>x\<leftarrow>filter (\<lambda>x. fst x = k) xs. amount (snd x))"
  by (induction xs arbitrary: m) (simp_all add: ledger_def entry_step add.assoc)

lemma keys_ledger: "distinct (map fst m) \<Longrightarrow>
    distinct (map fst (ledger m xs)) \<and> fst ` set (ledger m xs) = fst ` set m \<union> fst ` set xs"
proof (induction xs arbitrary: m)
  case Nil
  then show ?case by (simp add: ledger_def)
next
  case (Cons x xs)
  have "distinct (map fst (ledger_step start accrue m x))"
    using Cons.prems by (simp add: ledger_step_def distinct_keys_update)
  moreover have "fst ` set (ledger_step start accrue m x) = insert (fst x) (fst ` set m)"
    using keys_update [of "fst x" _ m] by (auto simp: ledger_step_def simp flip: set_map split: if_splits)
  ultimately show ?case using Cons.IH [of "ledger_step start accrue m x"] by (auto simp: ledger_def)
qed

lemma ledger_total:
  "k \<in> fst ` set xs \<Longrightarrow> \<exists>t. map_of (ledger [] xs) k = Some t \<and> amount t = (\<Sum>x\<leftarrow>filter (\<lambda>x. fst x = k) xs. amount (snd x))"
proof -
  assume "k \<in> fst ` set xs"
  then have "k \<in> fst ` set (ledger [] xs)" using keys_ledger [of "[]" xs] by simp
  then obtain t where t: "map_of (ledger [] xs) k = Some t" by (metis map_of_eq_None_iff option.exhaust)
  with entry_ledger [of "[]" xs k] show ?thesis by (simp add: entry_def)
qed

end

text \<open>Both instances the checks use: one decimal per key, and a debit and a credit per key.\<close>

definition dec_plus :: "decimal4 \<Rightarrow> decimal4 \<Rightarrow> decimal4" where
  "dec_plus a b = Decimal4 (scaled a + scaled b)"

definition pair_plus :: "decimal4 \<times> decimal4 \<Rightarrow> decimal4 \<times> decimal4 \<Rightarrow> decimal4 \<times> decimal4" where
  "pair_plus a b = (dec_plus (fst a) (fst b), dec_plus (snd a) (snd b))"

definition pair_amount :: "decimal4 \<times> decimal4 \<Rightarrow> int" where
  "pair_amount p = scaled (fst p) - scaled (snd p)"

interpretation tender: exact_amounts dec_zero dec_plus scaled
  by unfold_locales (simp_all add: dec_zero_def dec_plus_def)

interpretation journal: exact_amounts "(dec_zero, dec_zero)" pair_plus pair_amount
  by unfold_locales (simp_all add: dec_zero_def dec_plus_def pair_plus_def pair_amount_def)

lemma dec_add_parsed: "dec_from x = Inr y \<Longrightarrow> dec_add d x = Inr (dec_plus d y)"
  by (simp add: dec_add_def dec_plus_def)

section \<open>Data and results\<close>

record commerce_line_math =
  line_id :: string
  gross_amount :: string
  discount_amount :: string
  net_amount_inc_tax :: string
  tax_amount :: string
  net_amount_ex_tax :: string

record tender_order =
  order_id :: string
  order_net :: string

datatype payment_status = Captured | Refunded | Voided

record tender_payment =
  payment_order :: string
  payment_amount :: string
  payment_status :: payment_status

record journal_line =
  journal_id :: string
  debit_amount :: string
  credit_amount :: string

datatype quality_status = Passed | Warning | Failed | Blocked

record quality_check_result =
  check_id :: string
  status :: quality_status
  observed :: string
  threshold :: string
  details :: "(string \<times> string list) list"

definition ratio :: "nat \<Rightarrow> nat \<Rightarrow> string \<Rightarrow> string" where
  "ratio a b what = string_of_nat a @ ''/'' @ string_of_nat b @ '' '' @ what"

section \<open>The checks\<close>

definition over_limit :: "decimal4 \<Rightarrow> decimal4 \<Rightarrow> (decimal_error, bool) result" where
  "over_limit limit d = and_then (dec_compare (dec_abs d) (Dec limit)) (\<lambda>c. Inr (c > 0))"

definition line_invalid :: "decimal4 \<Rightarrow> commerce_line_math \<Rightarrow> (decimal_error, bool) result" where
  "line_invalid limit l =
     and_then (dec_from (Str (gross_amount l))) (\<lambda>g.
     and_then (dec_subtract g (Str (discount_amount l))) (\<lambda>gross_less_discount.
     and_then (dec_from (Str (net_amount_ex_tax l))) (\<lambda>x.
     and_then (dec_add x (Str (tax_amount l))) (\<lambda>ex_tax_plus_tax.
     and_then (dec_subtract gross_less_discount (Str (net_amount_inc_tax l))) (\<lambda>a.
     and_then (over_limit limit a) (\<lambda>bad. if bad then Inr True else
     and_then (dec_subtract ex_tax_plus_tax (Str (net_amount_inc_tax l))) (\<lambda>b.
       over_limit limit b)))))))"

definition check_line_math :: "commerce_line_math list \<Rightarrow> string \<Rightarrow> (decimal_error, quality_check_result) result" where
  "check_line_math ls tolerance =
     and_then (dec_from (Str tolerance)) (\<lambda>limit.
     and_then (filter_r (line_invalid limit) ls) (\<lambda>failures.
       Inr \<lparr>check_id = ''line_maths'',
            status = (if length failures = 0 then Passed else Failed),
            observed = ratio (length failures) (length ls) ''invalid lines'',
            threshold = tolerance,
            details = [(''failingIds'', map line_id failures)]\<rparr>))"

definition pay_step :: "(string \<times> decimal4) list \<Rightarrow> tender_payment \<Rightarrow> (decimal_error, (string \<times> decimal4) list) result" where
  "pay_step m p =
     (if payment_status p = Voided then Inr m
      else and_then (dec_from (Str (payment_amount p))) (\<lambda>signed.
           and_then (dec_add (case map_of m (payment_order p) of None \<Rightarrow> dec_zero | Some t \<Rightarrow> t) (Dec signed)) (\<lambda>t.
             Inr (AList.update (payment_order p) t m))))"

definition check_tender_reconciliation ::
    "tender_order list \<Rightarrow> tender_payment list \<Rightarrow> string \<Rightarrow> (decimal_error, quality_check_result) result" where
  "check_tender_reconciliation orders payments tolerance =
     and_then (fold_r pay_step [] payments) (\<lambda>m.
     and_then (dec_from (Str tolerance)) (\<lambda>limit.
     and_then (filter_r (\<lambda>ord.
         and_then (dec_from (Str (order_net ord))) (\<lambda>net.
         and_then (dec_subtract net (Dec (case map_of m (order_id ord) of None \<Rightarrow> dec_zero | Some t \<Rightarrow> t))) (\<lambda>diff.
           over_limit limit diff))) orders) (\<lambda>failing.
       Inr \<lparr>check_id = ''tender_reconciles'',
            status = (if length failing = 0 then Passed else Failed),
            observed = ratio (length failing) (length orders) ''unreconciled orders'',
            threshold = tolerance,
            details = [(''failingOrderIds'', map order_id failing)]\<rparr>)))"

definition journal_step ::
    "(string \<times> decimal4 \<times> decimal4) list \<Rightarrow> journal_line \<Rightarrow> (decimal_error, (string \<times> decimal4 \<times> decimal4) list) result" where
  "journal_step m l =
     (let current = (case map_of m (journal_id l) of None \<Rightarrow> (dec_zero, dec_zero) | Some t \<Rightarrow> t) in
      and_then (dec_add (fst current) (Str (debit_amount l))) (\<lambda>debit.
      and_then (dec_add (snd current) (Str (credit_amount l))) (\<lambda>credit.
        Inr (AList.update (journal_id l) (debit, credit) m))))"

definition check_journal_balance :: "journal_line list \<Rightarrow> string \<Rightarrow> (decimal_error, quality_check_result) result" where
  "check_journal_balance ls tolerance =
     and_then (fold_r journal_step [] ls) (\<lambda>totals.
     and_then (dec_from (Str tolerance)) (\<lambda>limit.
     and_then (filter_r (\<lambda>(_, debit, credit).
         and_then (dec_subtract debit (Dec credit)) (over_limit limit)) totals) (\<lambda>failing.
       Inr \<lparr>check_id = ''journal_balances'',
            status = (if length failing = 0 then Passed else Failed),
            observed = ratio (length failing) (length totals) ''unbalanced journals'',
            threshold = tolerance,
            details = [(''failingJournalIds'', map fst failing)]\<rparr>)))"

definition check_observation_coverage ::
    "string list \<Rightarrow> string list \<Rightarrow> string \<Rightarrow> (decimal_error, quality_check_result) result" where
  "check_observation_coverage canonical seen minimum_coverage =
     (let missing = filter (\<lambda>i. i \<notin> set seen) canonical in
      and_then (if length canonical = 0 then dec_from (Str ''1'')
                else Inr (dec_from_scaled (int (length canonical - length missing) * 10000 div int (length canonical)))) (\<lambda>coverage.
      and_then (dec_compare coverage (Str minimum_coverage)) (\<lambda>c.
        Inr \<lparr>check_id = ''observation_coverage'',
             status = (if c \<ge> 0 then Passed else Failed),
             observed = dec_to_string coverage,
             threshold = minimum_coverage,
             details = [(''missingIds'', missing)]\<rparr>)))"

definition check_pos_ledger_tolerance ::
    "string list \<Rightarrow> string list \<Rightarrow> string \<Rightarrow> (decimal_error, quality_check_result) result" where
  "check_pos_ledger_tolerance pos_amounts ledger_amounts tolerance =
     and_then (sum_decimal4 (map Str pos_amounts)) (\<lambda>p.
     and_then (sum_decimal4 (map Str ledger_amounts)) (\<lambda>l.
     and_then (dec_subtract p (Dec l)) (\<lambda>d.
     let difference = dec_abs d in
     and_then (dec_compare difference (Str tolerance)) (\<lambda>c.
       Inr \<lparr>check_id = ''pos_ledger_tolerance'',
            status = (if c \<le> 0 then Passed else Warning),
            observed = dec_to_string difference,
            threshold = tolerance,
            details = []\<rparr>))))"

section \<open>Lemmas\<close>

lemma over_limit_eq: "over_limit limit d = Inr (\<bar>scaled d\<bar> > scaled limit)"
  by (auto simp: over_limit_def dec_compare_def dec_abs_def)

text \<open>The value of an amount that parses.\<close>

definition parses :: "string \<Rightarrow> bool" where
  "parses s \<longleftrightarrow> (case dec_from (Str s) of Inl _ \<Rightarrow> False | Inr _ \<Rightarrow> True)"

definition amt :: "string \<Rightarrow> int" where
  "amt s = (case dec_from (Str s) of Inl _ \<Rightarrow> 0 | Inr d \<Rightarrow> scaled d)"

lemma parses_amt: "parses s \<Longrightarrow> dec_from (Str s) = Inr (Decimal4 (amt s))"
  by (auto simp: parses_def amt_def split: sum.splits)

lemma parses_to_string [simp]: "parses (dec_to_string d)" "amt (dec_to_string d) = scaled d"
  by (simp_all add: parses_def amt_def dec_from_to_string)

text \<open>The pure reading of a line, a tender and a journal.\<close>

definition line_ok :: "int \<Rightarrow> commerce_line_math \<Rightarrow> bool" where
  "line_ok limit l \<longleftrightarrow>
     \<bar>amt (gross_amount l) - amt (discount_amount l) - amt (net_amount_inc_tax l)\<bar> \<le> limit \<and>
     \<bar>amt (net_amount_ex_tax l) + amt (tax_amount l) - amt (net_amount_inc_tax l)\<bar> \<le> limit"

definition line_parses :: "commerce_line_math \<Rightarrow> bool" where
  "line_parses l \<longleftrightarrow> parses (gross_amount l) \<and> parses (discount_amount l) \<and>
     parses (net_amount_inc_tax l) \<and> parses (tax_amount l) \<and> parses (net_amount_ex_tax l)"

lemma line_invalid_eq: "line_parses l \<Longrightarrow> line_invalid limit l = Inr (\<not> line_ok (scaled limit) l)"
  by (auto simp: line_parses_def line_invalid_def line_ok_def parses_amt over_limit_eq dec_subtract_def dec_add_def)

lemma check_line_math_eq:
  assumes "list_all line_parses ls" "parses tol"
  shows "check_line_math ls tol = Inr \<lparr>check_id = ''line_maths'',
      status = (if list_all (line_ok (amt tol)) ls then Passed else Failed),
      observed = ratio (length (filter (\<lambda>l. \<not> line_ok (amt tol) l) ls)) (length ls) ''invalid lines'',
      threshold = tol,
      details = [(''failingIds'', map line_id (filter (\<lambda>l. \<not> line_ok (amt tol) l) ls))]\<rparr>"
proof -
  have "filter_r (line_invalid (Decimal4 (amt tol))) ls = Inr (filter (\<lambda>l. \<not> line_ok (amt tol) l) ls)"
    using assms(1) by (intro filter_r_Inr) (simp add: list_all_iff line_invalid_eq)
  then show ?thesis
    by (simp add: check_line_math_def parses_amt [OF assms(2)] list_all_iff filter_empty_conv)
qed

lemma pay_fold:
  assumes "list_all (\<lambda>p. payment_status p \<noteq> Voided \<longrightarrow> parses (payment_amount p)) ps"
  shows "fold_r pay_step m ps = Inr (tender.ledger m
      (map (\<lambda>p. (payment_order p, Decimal4 (amt (payment_amount p)))) (filter (\<lambda>p. payment_status p \<noteq> Voided) ps)))"
  using assms
proof (induction ps arbitrary: m)
  case Nil
  then show ?case by (simp add: tender.ledger_def)
next
  case (Cons p ps)
  then show ?case
    by (cases "payment_status p = Voided")
      (simp_all add: pay_step_def parses_amt dec_add_parsed tender.ledger_def ledger_step_def)
qed

definition paid :: "tender_payment list \<Rightarrow> string \<Rightarrow> int" where
  "paid ps k = (\<Sum>p\<leftarrow>filter (\<lambda>p. payment_status p \<noteq> Voided \<and> payment_order p = k) ps. amt (payment_amount p))"

lemma paid_entry:
  "tender.entry (tender.ledger [] (map (\<lambda>p. (payment_order p, Decimal4 (amt (payment_amount p))))
     (filter (\<lambda>p. payment_status p \<noteq> Voided) ps))) k = paid ps k"
  unfolding tender.entry_ledger
  by (simp add: paid_def tender.entry_def filter_map comp_def conj_commute)

lemma check_tender_eq:
  assumes "list_all (\<lambda>p. payment_status p \<noteq> Voided \<longrightarrow> parses (payment_amount p)) ps"
    and "list_all (\<lambda>ord. parses (order_net ord)) orders" and "parses tol"
  shows "check_tender_reconciliation orders ps tol = Inr \<lparr>check_id = ''tender_reconciles'',
      status = (if list_all (\<lambda>ord. \<bar>amt (order_net ord) - paid ps (order_id ord)\<bar> \<le> amt tol) orders then Passed else Failed),
      observed = ratio (length (filter (\<lambda>ord. \<bar>amt (order_net ord) - paid ps (order_id ord)\<bar> > amt tol) orders))
        (length orders) ''unreconciled orders'',
      threshold = tol,
      details = [(''failingOrderIds'',
        map order_id (filter (\<lambda>ord. \<bar>amt (order_net ord) - paid ps (order_id ord)\<bar> > amt tol) orders))]\<rparr>"
proof -
  let ?m = "tender.ledger [] (map (\<lambda>p. (payment_order p, Decimal4 (amt (payment_amount p))))
     (filter (\<lambda>p. payment_status p \<noteq> Voided) ps))"
  have sc: "scaled (case map_of ?m k of None \<Rightarrow> dec_zero | Some t \<Rightarrow> t) = paid ps k" for k
    using paid_entry [of ps k] by (simp add: tender.entry_def dec_zero_def split: option.splits)
  have "filter_r (\<lambda>ord. and_then (dec_from (Str (order_net ord))) (\<lambda>net.
         and_then (dec_subtract net (Dec (case map_of ?m (order_id ord) of None \<Rightarrow> dec_zero | Some t \<Rightarrow> t)))
           (over_limit (Decimal4 (amt tol))))) orders =
      Inr (filter (\<lambda>ord. \<bar>amt (order_net ord) - paid ps (order_id ord)\<bar> > amt tol) orders)"
    using assms(2) by (intro filter_r_Inr) (simp add: list_all_iff parses_amt dec_subtract_def over_limit_eq sc)
  then show ?thesis
    by (simp add: check_tender_reconciliation_def pay_fold [OF assms(1)] parses_amt [OF assms(3)]
        list_all_iff filter_empty_conv not_less)
qed

lemma journal_step_parsed:
  "parses (debit_amount l) \<Longrightarrow> parses (credit_amount l) \<Longrightarrow> journal_step m l = Inr (ledger_step (dec_zero, dec_zero) pair_plus m
     (journal_id l, Decimal4 (amt (debit_amount l)), Decimal4 (amt (credit_amount l))))"
  by (simp add: journal_step_def parses_amt dec_add_parsed ledger_step_def pair_plus_def Let_def)

lemma journal_fold:
  assumes "list_all (\<lambda>l. parses (debit_amount l) \<and> parses (credit_amount l)) ls"
  shows "fold_r journal_step m ls = Inr (journal.ledger m
      (map (\<lambda>l. (journal_id l, Decimal4 (amt (debit_amount l)), Decimal4 (amt (credit_amount l)))) ls))"
  using assms
proof (induction ls arbitrary: m)
  case Nil
  then show ?case by (simp add: journal.ledger_def)
next
  case (Cons l ls)
  then show ?case
    by (simp add: journal_step_parsed journal.ledger_def)
qed

definition journal_difference :: "journal_line list \<Rightarrow> string \<Rightarrow> int" where
  "journal_difference ls j = (\<Sum>l\<leftarrow>filter (\<lambda>l. journal_id l = j) ls. amt (debit_amount l) - amt (credit_amount l))"

lemma check_journal_status:
  assumes "list_all (\<lambda>l. parses (debit_amount l) \<and> parses (credit_amount l)) ls" and "parses tol"
  shows "\<exists>r. check_journal_balance ls tol = Inr r \<and>
     set (snd (hd (details r))) = {j. j \<in> journal_id ` set ls \<and> \<bar>journal_difference ls j\<bar> > amt tol} \<and>
     (status r = Passed \<longleftrightarrow> (\<forall>j \<in> journal_id ` set ls. \<bar>journal_difference ls j\<bar> \<le> amt tol))"
proof -
  let ?xs = "map (\<lambda>l. (journal_id l, Decimal4 (amt (debit_amount l)), Decimal4 (amt (credit_amount l)))) ls"
  let ?m = "journal.ledger [] ?xs"
  have keys: "distinct (map fst ?m)" "fst ` set ?m = journal_id ` set ls"
    using journal.keys_ledger [of "[]" ?xs] by (simp_all add: image_comp comp_def)
  have total: "pair_amount t = journal_difference ls j" if "(j, t) \<in> set ?m" for j t
  proof -
    have "map_of ?m j = Some t" using that keys(1) by simp
    with journal.entry_ledger [of "[]" ?xs j] show ?thesis
      by (simp add: journal.entry_def journal_difference_def filter_map comp_def pair_amount_def)
  qed
  let ?bad = "\<lambda>(_, debit, credit). \<bar>scaled debit - scaled credit\<bar> > amt tol"
  have filt: "filter_r (\<lambda>(_, debit, credit). and_then (dec_subtract debit (Dec credit)) (over_limit (Decimal4 (amt tol)))) ?m
      = Inr (filter ?bad ?m)"
    by (intro filter_r_Inr) (auto simp: dec_subtract_def over_limit_eq)
  have bad: "scaled d - scaled c = journal_difference ls j" if "(j, d, c) \<in> set ?m" for j d c
    using total [OF that] by (simp add: pair_amount_def)
  have ids: "fst ` set (filter ?bad ?m) = {j. j \<in> journal_id ` set ls \<and> \<bar>journal_difference ls j\<bar> > amt tol}"
    unfolding keys(2) [symmetric] by (force simp: bad image_iff)
  have empty: "filter ?bad ?m = [] \<longleftrightarrow> (\<forall>j \<in> journal_id ` set ls. \<bar>journal_difference ls j\<bar> \<le> amt tol)"
  proof -
    have "filter ?bad ?m = [] \<longleftrightarrow> fst ` set (filter ?bad ?m) = {}" by (simp only: image_is_empty set_empty)
    then show ?thesis unfolding ids by (auto simp: not_less)
  qed
  show ?thesis
    by (simp add: check_journal_balance_def journal_fold [OF assms(1)] parses_amt [OF assms(2)] filt ids empty
        del: set_filter)
qed

lemma coverage_missing:
  "length (filter (\<lambda>i. i \<notin> set seen) c) + length (filter (\<lambda>i. i \<in> set seen) c) = length c"
  using sum_length_filter_compl [of "\<lambda>i. i \<in> set seen" c] by simp

section \<open>Properties\<close>

text \<open>\<open>checkJournalBalance\<close>: when every amount and the tolerance parse, the check
  returns, its failing ids are exactly the journals whose summed debits and credits differ
  by more than the tolerance, and it passes exactly when there is none.\<close>

theorem journal_check_exact:
  assumes "list_all (\<lambda>l. parses (debit_amount l) \<and> parses (credit_amount l)) ls" and "parses tol"
  shows "\<exists>r. check_journal_balance ls tol = Inr r \<and>
     set (snd (hd (details r))) = {j. j \<in> journal_id ` set ls \<and> \<bar>journal_difference ls j\<bar> > amt tol} \<and>
     (status r = Passed \<longleftrightarrow> (\<forall>j \<in> journal_id ` set ls. \<bar>journal_difference ls j\<bar> \<le> amt tol))"
  using assms by (rule check_journal_status)

definition sample_journal :: "journal_line list" where
  "sample_journal =
     [\<lparr>journal_id = ''J1'', debit_amount = ''10.5'', credit_amount = ''0''\<rparr>,
      \<lparr>journal_id = ''J2'', debit_amount = ''3'', credit_amount = ''0''\<rparr>,
      \<lparr>journal_id = ''J1'', debit_amount = ''0'', credit_amount = ''10.5000''\<rparr>]"

lemma sample_journal_parses:
  "list_all (\<lambda>l. parses (debit_amount l) \<and> parses (credit_amount l)) sample_journal" "parses ''0.0100''"
  by (simp_all add: sample_journal_def, code_simp+)

theorem journal_check_exact_witness:
  "\<exists>r. check_journal_balance sample_journal ''0.0100'' = Inr r \<and>
     set (snd (hd (details r))) = {j. j \<in> journal_id ` set sample_journal \<and> \<bar>journal_difference sample_journal j\<bar> > amt ''0.0100''}"
  using journal_check_exact [OF sample_journal_parses] by blast

text \<open>\<open>checkTenderReconciliation\<close>: when the amounts parse, the failing order ids are, in
  the order of the orders, those whose net amount differs from the sum of their payments
  that are not voided by more than the tolerance; a voided payment is never parsed or counted.\<close>

theorem tender_check_exact:
  assumes "list_all (\<lambda>p. payment_status p \<noteq> Voided \<longrightarrow> parses (payment_amount p)) ps"
    and "list_all (\<lambda>ord. parses (order_net ord)) orders" and "parses tol"
  shows "map_sum id details (check_tender_reconciliation orders ps tol) = Inr [(''failingOrderIds'',
      map order_id (filter (\<lambda>ord. \<bar>amt (order_net ord) - paid ps (order_id ord)\<bar> > amt tol) orders))]"
  by (simp add: check_tender_eq [OF assms])

definition sample_payments :: "tender_payment list" where
  "sample_payments =
     [\<lparr>payment_order = ''A'', payment_amount = ''7.25'', payment_status = Captured\<rparr>,
      \<lparr>payment_order = ''A'', payment_amount = ''not a number'', payment_status = Voided\<rparr>,
      \<lparr>payment_order = ''A'', payment_amount = ''-2.25'', payment_status = Refunded\<rparr>]"

definition sample_orders :: "tender_order list" where
  "sample_orders = [\<lparr>order_id = ''A'', order_net = ''5''\<rparr>, \<lparr>order_id = ''B'', order_net = ''1''\<rparr>]"

lemma sample_tender_parses:
  "list_all (\<lambda>p. payment_status p \<noteq> Voided \<longrightarrow> parses (payment_amount p)) sample_payments"
  "list_all (\<lambda>ord. parses (order_net ord)) sample_orders"
  by (simp_all add: sample_payments_def sample_orders_def, code_simp+)

theorem tender_check_exact_witness:
  "map_sum id details (check_tender_reconciliation sample_orders sample_payments ''0.0100'') =
     Inr [(''failingOrderIds'', [''B''])]"
  unfolding tender_check_exact [OF sample_tender_parses sample_journal_parses(2)]
  by code_simp

text \<open>\<open>checkObservationCoverage\<close> with its default threshold 0.9900: the truncating integer
  division never turns a failing ratio into a passing one or the reverse; the check passes
  exactly when at most one in a hundred canonical ids is unobserved.\<close>

theorem coverage_check_one_percent:
  "map_sum id status (check_observation_coverage c seen ''0.9900'') =
     Inr (if 100 * length (filter (\<lambda>i. i \<notin> set seen) c) \<le> length c then Passed else Failed)"
proof -
  let ?m = "length (filter (\<lambda>i. i \<notin> set seen) c)" and ?n = "length c"
  have p: "dec_from (Str ''0.9900'') = Inr (Decimal4 9900)" "dec_from (Str ''1'') = Inr (Decimal4 10000)"
    by code_simp+
  show ?thesis
  proof (cases "c = []")
    case True
    then show ?thesis by (simp add: check_observation_coverage_def p dec_compare_def)
  next
    case False
    then have n: "0 < int ?n" by simp
    have le: "?m \<le> ?n" by simp
    have "9900 \<le> int (?n - ?m) * 10000 div int ?n \<longleftrightarrow> 9900 * int ?n \<le> int (?n - ?m) * 10000"
      using n by (simp only: le_div_int_iff)
    also have "\<dots> \<longleftrightarrow> 100 * ?m \<le> ?n" using le by (simp add: of_nat_diff) linarith
    finally have iff: "9900 \<le> int (?n - ?m) * 10000 div int ?n \<longleftrightarrow> 100 * ?m \<le> ?n" .
    with False show ?thesis
      by (auto simp: check_observation_coverage_def p dec_compare_def dec_from_scaled_def Let_def)
  qed
qed

end
