(* ===== verification/Source_Authority.thy ===== *)
theory Source_Authority
  imports Exact_Decimal "HOL-Library.Multiset"
begin

text \<open>
  \<open>packages/canonical-schema/src/transform.ts\<close>: which source connection is authoritative for
  a canonical candidate (\<open>validateAuthorityRules\<close>, \<open>resolveAuthorityRule\<close>,
  \<open>canonicalizeCandidates\<close>), and which observations of two connections are suggested to be
  the same entity (\<open>buildIdentitySuggestions\<close>).

  \<open>Date.parse\<close> is the parameter \<open>date_parse\<close> (\<open>None\<close> for \<open>NaN\<close>): ECMAScript leaves its result
  on other than ISO strings to the implementation. \<open>localeCompare\<close> is the rank \<open>collate\<close>.
  A plain object is the list of its entries; property names are taken not to be those of
  \<open>Object.prototype\<close>. An optional property is an \<open>option\<close>, and an empty string is falsy.
\<close>

section \<open>Data\<close>

datatype js_value = VString string | VNumber real | VBool bool | VNull | VObject nat

datatype concept =
    Operational_sales | Stock | Product_master | Customer_master | Statutory_finance
  | Cash_settlement | Planned_shifts | Worked_hours

datatype scope_type = Tenant_scope | Legal_entity_scope | Location_scope

record authority_rule =
  rule_concept :: concept
  rule_connection :: string
  effective_from :: string
  effective_to :: "string option"
  scope_kind :: scope_type
  scope_id :: string

record source_ref =
  ref_connection :: string
  ref_object_type :: string
  ref_record_id :: string

record candidate =
  cand_tenant :: string
  cand_id :: string
  cand_fact :: string
  cand_concept :: concept
  cand_source :: source_ref
  cand_sync_run :: string
  cand_updated_at :: "string option"
  cand_values :: "(string \<times> js_value) list"

record canonical_record =
  rec_tenant :: string
  rec_id :: string
  rec_fact :: string
  rec_values :: "(string \<times> js_value) list"
  rec_source :: source_ref
  rec_sync_run :: string
  rec_updated_at :: "string option"

datatype transform_error =
    Invalid_instant string string
  | Overlapping_rules concept scope_type
  | Effective_to_not_later
  | Ids_required
  | Unknown_fact string
  | Lineage_required
  | Decimal_failure decimal_error

datatype rejection_reason = Invalid_candidate | Non_authoritative_source

record rejected_candidate =
  rej_candidate :: candidate
  rej_reason :: rejection_reason
  rej_details :: "transform_error + string option"

definition FACT_IDS :: "string list" where
  "FACT_IDS = [''commerce_order'', ''commerce_order_line'', ''commerce_payment'', ''commerce_refund_line'',
     ''inventory_movement'', ''inventory_balance_snapshot'', ''purchase_order_line'', ''finance_journal_line'',
     ''finance_invoice_line'', ''finance_bank_transaction'', ''workforce_shift'', ''workforce_time_entry'',
     ''workforce_leave'']"

text \<open>\<open>specificity\<close>: the wider scope is the smaller rank, which orders the scopes.\<close>

definition specificity :: "scope_type \<Rightarrow> nat" where
  "specificity s = (case s of Tenant_scope \<Rightarrow> 0 | Legal_entity_scope \<Rightarrow> 1 | Location_scope \<Rightarrow> 2)"

instantiation scope_type :: linorder
begin

definition less_eq_scope_type :: "scope_type \<Rightarrow> scope_type \<Rightarrow> bool" where
  "less_eq_scope_type a b \<longleftrightarrow> specificity a \<le> specificity b"

definition less_scope_type :: "scope_type \<Rightarrow> scope_type \<Rightarrow> bool" where
  "less_scope_type a b \<longleftrightarrow> specificity a < specificity b"

instance
  by standard (auto simp: less_eq_scope_type_def less_scope_type_def specificity_def split: scope_type.splits)

end

lemma specificity_inject [simp]: "specificity a = specificity b \<longleftrightarrow> a = b"
  by (auto simp: specificity_def split: scope_type.splits)

section \<open>Instants and effective rules\<close>

definition truthy :: "string option \<Rightarrow> bool" where
  "truthy s \<longleftrightarrow> s \<noteq> None \<and> s \<noteq> Some []"

definition parse_instant :: "(string \<Rightarrow> int option) \<Rightarrow> string \<Rightarrow> string \<Rightarrow> (transform_error, int) result" where
  "parse_instant date_parse v label =
     (case date_parse v of None \<Rightarrow> Inl (Invalid_instant label v) | Some t \<Rightarrow> Inr t)"

text \<open>\<open>rule.effectiveTo ? parseInstant(...) : Number.POSITIVE_INFINITY\<close>; \<open>None\<close> is infinity.\<close>

definition parse_end :: "(string \<Rightarrow> int option) \<Rightarrow> authority_rule \<Rightarrow> (transform_error, int option) result" where
  "parse_end date_parse r =
     (if truthy (effective_to r)
      then and_then (parse_instant date_parse (the (effective_to r)) ''authority effectiveTo'') (\<lambda>t. Inr (Some t))
      else Inr None)"

definition before_end :: "int \<Rightarrow> int option \<Rightarrow> bool" where
  "before_end t e = (case e of None \<Rightarrow> True | Some x \<Rightarrow> t < x)"

definition in_scope :: "string \<Rightarrow> (string \<times> js_value) list \<Rightarrow> authority_rule \<Rightarrow> bool" where
  "in_scope tenant values r =
     (if scope_kind r = Tenant_scope then scope_id r = tenant
      else map_of values (if scope_kind r = Location_scope then ''location_id'' else ''legal_entity_id'')
             = Some (VString (scope_id r)))"

definition rule_applies ::
    "(string \<Rightarrow> int option) \<Rightarrow> concept \<Rightarrow> string \<Rightarrow> (string \<times> js_value) list \<Rightarrow> int \<Rightarrow> authority_rule
       \<Rightarrow> (transform_error, bool) result" where
  "rule_applies date_parse c tenant values instant r =
     (if rule_concept r \<noteq> c then Inr False
      else and_then (parse_instant date_parse (effective_from r) ''authority effectiveFrom'') (\<lambda>from.
           and_then (parse_end date_parse r) (\<lambda>to.
           if instant < from \<or> \<not> before_end instant to then Inr False
           else Inr (in_scope tenant values r))))"

text \<open>\<open>candidates.sort\<close> by descending specificity, stable as \<open>Array.prototype.sort\<close> is.\<close>

definition most_specific_first :: "authority_rule list \<Rightarrow> authority_rule list" where
  "most_specific_first rs = sort_key (\<lambda>r. 2 - specificity (scope_kind r)) rs"

definition resolve_authority_rule ::
    "(string \<Rightarrow> int option) \<Rightarrow> authority_rule list \<Rightarrow> string \<Rightarrow> concept \<Rightarrow> (string \<times> js_value) list \<Rightarrow> string
       \<Rightarrow> (transform_error, authority_rule option) result" where
  "resolve_authority_rule date_parse rules tenant c values as_of =
     and_then (parse_instant date_parse as_of ''authority evaluation timestamp'') (\<lambda>instant.
     and_then (filter_r (rule_applies date_parse c tenant values instant) rules) (\<lambda>found.
       case most_specific_first found of
         [] \<Rightarrow> Inr None
       | [r] \<Rightarrow> Inr (Some r)
       | r # r' # _ \<Rightarrow>
           if scope_kind r = scope_kind r' then Inl (Overlapping_rules c (scope_kind r)) else Inr (Some r)))"

section \<open>Validation of a rule set\<close>

definition check_interval :: "(string \<Rightarrow> int option) \<Rightarrow> authority_rule \<Rightarrow> (transform_error, unit) result" where
  "check_interval date_parse r =
     and_then (parse_instant date_parse (effective_from r) ''authority effectiveFrom'') (\<lambda>start.
     and_then (parse_end date_parse r) (\<lambda>stop.
       if before_end start stop then Inr () else Inl Effective_to_not_later))"

definition check_pair ::
    "(string \<Rightarrow> int option) \<Rightarrow> authority_rule \<Rightarrow> authority_rule \<Rightarrow> (transform_error, unit) result" where
  "check_pair date_parse l r =
     (if rule_concept l \<noteq> rule_concept r \<or> scope_kind l \<noteq> scope_kind r \<or> scope_id l \<noteq> scope_id r then Inr ()
      else and_then (parse_instant date_parse (effective_from l) ''authority effectiveFrom'') (\<lambda>left_start.
           and_then (parse_end date_parse l) (\<lambda>left_end.
           and_then (parse_instant date_parse (effective_from r) ''authority effectiveFrom'') (\<lambda>right_start.
           and_then (parse_end date_parse r) (\<lambda>right_end.
             if before_end left_start right_end \<and> before_end right_start left_end
             then Inl (Overlapping_rules (rule_concept l) (scope_kind l)) else Inr ())))))"

fun check_pairs :: "(string \<Rightarrow> int option) \<Rightarrow> authority_rule list \<Rightarrow> (transform_error, unit) result" where
  "check_pairs date_parse [] = Inr ()"
| "check_pairs date_parse (l # rs) =
     and_then (map_r (check_pair date_parse l) rs) (\<lambda>_. check_pairs date_parse rs)"

definition validate_authority_rules ::
    "(string \<Rightarrow> int option) \<Rightarrow> authority_rule list \<Rightarrow> (transform_error, unit) result" where
  "validate_authority_rules date_parse rules =
     and_then (map_r (check_interval date_parse) rules) (\<lambda>_. check_pairs date_parse rules)"

section \<open>Canonicalisation\<close>

definition validate_candidate :: "(string \<Rightarrow> int option) \<Rightarrow> candidate \<Rightarrow> (transform_error, unit) result" where
  "validate_candidate date_parse c =
     (if cand_tenant c = [] \<or> cand_id c = [] \<or> cand_sync_run c = [] then Inl Ids_required
      else if cand_fact c \<notin> set FACT_IDS then Inl (Unknown_fact (cand_fact c))
      else if ref_connection (cand_source c) = [] \<or> ref_object_type (cand_source c) = []
            \<or> ref_record_id (cand_source c) = [] then Inl Lineage_required
      else if truthy (cand_updated_at c)
           then and_then (parse_instant date_parse (the (cand_updated_at c)) ''sourceUpdatedAt'') (\<lambda>_. Inr ())
           else Inr ())"

definition field_suffix :: "string \<Rightarrow> string \<Rightarrow> bool" where
  "field_suffix word key \<longleftrightarrow> key = word \<or> suffix (CHR ''_'' # word) key"

definition is_currency_field :: "string \<Rightarrow> bool" where
  "is_currency_field key \<longleftrightarrow> field_suffix ''currency'' key"

definition is_money_field :: "string \<Rightarrow> bool" where
  "is_money_field key \<longleftrightarrow> field_suffix ''amount'' key \<or> field_suffix ''cost'' key \<or>
     field_suffix ''price'' key \<or> field_suffix ''value'' key"

definition normalize_entry :: "string \<times> js_value \<Rightarrow> (transform_error, string \<times> js_value) result" where
  "normalize_entry kv =
     (case snd kv of
        VString s \<Rightarrow>
          if is_currency_field (fst kv) then
            (case assert_currency s of Inl e \<Rightarrow> Inl (Decimal_failure e) | Inr u \<Rightarrow> Inr (fst kv, VString u))
          else if is_money_field (fst kv) then
            (case dec_from (Str s) of Inl e \<Rightarrow> Inl (Decimal_failure e)
             | Inr d \<Rightarrow> Inr (fst kv, VString (dec_to_string d)))
          else Inr kv
      | _ \<Rightarrow> Inr kv)"

definition normalize_exact_values :: "(string \<times> js_value) list \<Rightarrow> (transform_error, (string \<times> js_value) list) result" where
  "normalize_exact_values values = map_r normalize_entry values"

record canonicalization =
  accepted :: "canonical_record list"
  rejected :: "rejected_candidate list"

definition canonicalize_step ::
    "(string \<Rightarrow> int option) \<Rightarrow> authority_rule list \<Rightarrow> string \<Rightarrow> canonicalization \<Rightarrow> candidate
       \<Rightarrow> (transform_error, canonicalization) result" where
  "canonicalize_step date_parse rules as_of s c =
     (case validate_candidate date_parse c of
        Inl e \<Rightarrow> Inr (s\<lparr>rejected := rejected s @ [\<lparr>rej_candidate = c, rej_reason = Invalid_candidate, rej_details = Inl e\<rparr>]\<rparr>)
      | Inr _ \<Rightarrow>
          and_then (resolve_authority_rule date_parse rules (cand_tenant c) (cand_concept c) (cand_values c) as_of) (\<lambda>rule.
          if rule = None \<or> rule_connection (the rule) \<noteq> ref_connection (cand_source c)
          then Inr (s\<lparr>rejected := rejected s @ [\<lparr>rej_candidate = c, rej_reason = Non_authoritative_source,
                      rej_details = Inr (map_option rule_connection rule)\<rparr>]\<rparr>)
          else and_then (normalize_exact_values (cand_values c)) (\<lambda>values.
               Inr (s\<lparr>accepted := accepted s @ [\<lparr>rec_tenant = cand_tenant c, rec_id = cand_id c,
                      rec_fact = cand_fact c, rec_values = values, rec_source = cand_source c,
                      rec_sync_run = cand_sync_run c,
                      rec_updated_at = (if truthy (cand_updated_at c) then cand_updated_at c else None)\<rparr>]\<rparr>))))"

definition canonicalize_candidates ::
    "(string \<Rightarrow> int option) \<Rightarrow> candidate list \<Rightarrow> authority_rule list \<Rightarrow> string
       \<Rightarrow> (transform_error, canonicalization) result" where
  "canonicalize_candidates date_parse cs rules as_of =
     fold_r (canonicalize_step date_parse rules as_of) \<lparr>accepted = [], rejected = []\<rparr> cs"

section \<open>Lemmas on authority\<close>

text \<open>The interval of a rule, when its instants parse.\<close>

definition interval :: "(string \<Rightarrow> int option) \<Rightarrow> authority_rule \<Rightarrow> int \<Rightarrow> int option \<Rightarrow> bool" where
  "interval date_parse r start stop \<longleftrightarrow>
     parse_instant date_parse (effective_from r) ''authority effectiveFrom'' = Inr start \<and>
     parse_end date_parse r = Inr stop"

lemma check_interval_ok:
  "check_interval date_parse r = Inr u \<Longrightarrow> \<exists>start stop. interval date_parse r start stop \<and> before_end start stop"
  by (auto simp: check_interval_def interval_def and_then_Inr_iff split: if_splits)

lemma check_pair_disjoint:
  assumes "check_pair date_parse l r = Inr u" "interval date_parse l ls le" "interval date_parse r rs re"
    and "rule_concept l = rule_concept r" "scope_kind l = scope_kind r" "scope_id l = scope_id r"
  shows "\<not> (before_end ls re \<and> before_end rs le)"
  using assms by (auto simp: check_pair_def interval_def split: if_splits)

lemma rule_applies_interval:
  assumes "rule_applies date_parse c tenant values instant r = Inr True"
  shows "\<exists>start stop. interval date_parse r start stop \<and> start \<le> instant \<and> before_end instant stop \<and>
     rule_concept r = c \<and> in_scope tenant values r"
  using assms by (fastforce simp: rule_applies_def interval_def and_then_Inr_iff split: if_splits)

lemma rule_applies_total:
  "interval date_parse r start stop \<Longrightarrow> \<exists>b. rule_applies date_parse c tenant values instant r = Inr b"
  by (auto simp: rule_applies_def interval_def)

text \<open>Two rules of one scope kind that apply to the same candidate have the same scope id.\<close>

lemma in_scope_same_id:
  "in_scope tenant values l \<Longrightarrow> in_scope tenant values r \<Longrightarrow> scope_kind l = scope_kind r \<Longrightarrow> scope_id l = scope_id r"
  by (auto simp: in_scope_def split: if_splits)

definition applicable ::
    "(string \<Rightarrow> int option) \<Rightarrow> authority_rule list \<Rightarrow> string \<Rightarrow> concept \<Rightarrow> (string \<times> js_value) list \<Rightarrow> int \<Rightarrow> authority_rule list" where
  "applicable date_parse rules tenant c values instant =
     filter (\<lambda>r. rule_applies date_parse c tenant values instant r = Inr True) rules"

lemma check_pairs_pairwise:
  assumes "check_pairs date_parse rules = Inr u"
  shows "sorted_wrt (\<lambda>l r. check_pair date_parse l r = Inr ()) rules"
  using assms
proof (induction rules)
  case (Cons l rs)
  then obtain us where "map_r (check_pair date_parse l) rs = Inr us" "check_pairs date_parse rs = Inr u"
    by (auto simp: and_then_Inr_iff)
  with Cons.IH map_r_Inr_D show ?case by fastforce
qed simp

lemma sorted_wrt_neq: "sorted_wrt (\<noteq>) xs = distinct xs"
  by (induction xs) auto

lemma overlap_at:
  "ls \<le> (t::int) \<Longrightarrow> before_end t le \<Longrightarrow> rs \<le> t \<Longrightarrow> before_end t re \<Longrightarrow> before_end ls re \<and> before_end rs le"
  by (auto simp: before_end_def split: option.splits)

lemma applicable_distinct_kinds:
  assumes "check_pairs date_parse rules = Inr u"
  shows "distinct (map scope_kind (applicable date_parse rules tenant c values instant))"
proof -
  let ?P = "\<lambda>r. rule_applies date_parse c tenant values instant r = Inr True"
  have sw: "sorted_wrt (\<lambda>l r. check_pair date_parse l r = Inr ()) (filter ?P rules)"
    using check_pairs_pairwise [OF assms] by (rule sorted_wrt_filter)
  have ap: "?P r" if "r \<in> set (filter ?P rules)" for r
    using that by simp
  have kinds: "scope_kind l \<noteq> scope_kind r"
    if pl: "?P l" and pr: "?P r" and pair: "check_pair date_parse l r = Inr ()" for l r
  proof
    assume same: "scope_kind l = scope_kind r"
    obtain ls le where l: "interval date_parse l ls le" "ls \<le> instant" "before_end instant le"
      "rule_concept l = c" "in_scope tenant values l"
      using rule_applies_interval [OF pl] by blast
    obtain rs re where r: "interval date_parse r rs re" "rs \<le> instant" "before_end instant re"
      "rule_concept r = c" "in_scope tenant values r"
      using rule_applies_interval [OF pr] by blast
    have "\<not> (before_end ls re \<and> before_end rs le)"
      using check_pair_disjoint [OF pair l(1) r(1)] l(4) r(4) same in_scope_same_id [OF l(5) r(5) same]
      by simp
    with overlap_at [OF l(2,3) r(2,3)] show False by blast
  qed
  have "sorted_wrt (\<lambda>l r. scope_kind l \<noteq> scope_kind r) (filter ?P rules)"
    by (rule sorted_wrt_mono_rel [OF _ sw]) (use ap kinds in blast)
  then have "sorted_wrt (\<noteq>) (map scope_kind (filter ?P rules))" by (simp add: sorted_wrt_map)
  then show ?thesis by (simp add: applicable_def sorted_wrt_neq)
qed

text \<open>With pairwise different scopes the sort puts the single most specific rule first.\<close>

lemma most_specific_first_resolve:
  assumes "distinct (map scope_kind rs)"
  shows "(case most_specific_first rs of [] \<Rightarrow> Inr None | [r] \<Rightarrow> Inr (Some r)
     | r # r' # _ \<Rightarrow> if scope_kind r = scope_kind r' then Inl (Overlapping_rules c (scope_kind r)) else Inr (Some r)) =
     (case most_specific_first rs of [] \<Rightarrow> Inr None | r # _ \<Rightarrow> Inr (Some r))"
proof -
  have "mset (map scope_kind (most_specific_first rs)) = mset (map scope_kind rs)"
    by (simp add: most_specific_first_def)
  with assms have "distinct (map scope_kind (most_specific_first rs))"
    using mset_eq_imp_distinct_iff by blast
  then show ?thesis by (auto split: list.splits)
qed

lemma most_specific_first_Nil [simp]: "most_specific_first rs = [] \<longleftrightarrow> rs = []"
  unfolding most_specific_first_def by (metis length_0_conv length_sort)

lemma most_specific_first_empty [simp]: "most_specific_first [] = []"
  by (simp add: most_specific_first_def)

lemma most_specific_first_max:
  assumes "most_specific_first rs = r # xs"
  shows "r \<in> set rs \<and> (\<forall>r' \<in> set rs. scope_kind r' \<le> scope_kind r)"
proof -
  have "set (most_specific_first rs) = set rs" by (simp add: most_specific_first_def)
  with assms have set: "set rs = insert r (set xs)" by simp
  have "sorted (map (\<lambda>r. 2 - specificity (scope_kind r)) (r # xs))"
    unfolding assms [symmetric] most_specific_first_def by simp
  then have le: "\<forall>r' \<in> set xs. 2 - specificity (scope_kind r) \<le> 2 - specificity (scope_kind r')"
    by (simp add: sorted_wrt_map)
  have bound: "specificity k \<le> 2" for k by (simp add: specificity_def split: scope_type.splits)
  have "scope_kind r' \<le> scope_kind r" if "r' \<in> set xs" for r'
    using le that bound [of "scope_kind r"] bound [of "scope_kind r'"] unfolding less_eq_scope_type_def by force
  then show ?thesis using set by auto
qed

lemma resolve_validated:
  assumes "validate_authority_rules date_parse rules = Inr ()" "date_parse as_of = Some instant"
  shows "resolve_authority_rule date_parse rules tenant c values as_of =
    Inr (case most_specific_first (applicable date_parse rules tenant c values instant) of [] \<Rightarrow> None | r # _ \<Rightarrow> Some r)"
proof -
  let ?ap = "applicable date_parse rules tenant c values instant"
  obtain us where v: "map_r (check_interval date_parse) rules = Inr us" "check_pairs date_parse rules = Inr ()"
    using assms(1) by (auto simp: validate_authority_rules_def and_then_Inr_iff)
  have total: "\<exists>b. rule_applies date_parse c tenant values instant r = Inr b" if "r \<in> set rules" for r
    using map_r_Inr_D [OF v(1)] that check_interval_ok rule_applies_total by blast
  have "filter_r (rule_applies date_parse c tenant values instant) rules = Inr ?ap"
    unfolding applicable_def using total by (intro filter_r_Inr) fastforce
  moreover have "distinct (map scope_kind ?ap)" by (rule applicable_distinct_kinds [OF v(2)])
  from most_specific_first_resolve [OF this, of c] calculation show ?thesis
    by (cases "most_specific_first ?ap") (simp_all add: resolve_authority_rule_def parse_instant_def assms(2) split: list.splits)
qed

lemma applicable_effective:
  "r \<in> set (applicable date_parse rules tenant c values instant) \<longleftrightarrow> r \<in> set rules \<and>
    (\<exists>start stop. interval date_parse r start stop \<and> start \<le> instant \<and> before_end instant stop \<and>
       rule_concept r = c \<and> in_scope tenant values r)"
proof -
  have "rule_applies date_parse c tenant values instant r = Inr True"
    if "interval date_parse r start stop" "start \<le> instant" "before_end instant stop"
      "rule_concept r = c" "in_scope tenant values r" for start stop
    using that by (simp add: rule_applies_def interval_def)
  then show ?thesis unfolding applicable_def using rule_applies_interval by fastforce
qed


definition effective_rule ::
    "(string \<Rightarrow> int option) \<Rightarrow> string \<Rightarrow> concept \<Rightarrow> (string \<times> js_value) list \<Rightarrow> int \<Rightarrow> authority_rule \<Rightarrow> bool" where
  "effective_rule date_parse tenant c values instant r \<longleftrightarrow>
     (case (date_parse (effective_from r), if truthy (effective_to r) then map_option Some (date_parse (the (effective_to r))) else Some None) of
        (Some start, Some stop) \<Rightarrow> start \<le> instant \<and> before_end instant stop \<and> rule_concept r = c \<and> in_scope tenant values r
      | _ \<Rightarrow> False)"

lemma applicable_effective_rule:
  "r \<in> set (applicable date_parse rules tenant c values instant) \<longleftrightarrow>
    r \<in> set rules \<and> effective_rule date_parse tenant c values instant r"
  unfolding applicable_effective effective_rule_def interval_def parse_instant_def parse_end_def
  by (auto split: option.splits if_splits)

lemma resolve_validated_most_specific:
  assumes "validate_authority_rules date_parse rules = Inr ()" "date_parse as_of = Some instant"
  shows "\<exists>rule. resolve_authority_rule date_parse rules tenant c values as_of = Inr rule \<and>
    (case rule of
       None \<Rightarrow> \<forall>r \<in> set rules. \<not> effective_rule date_parse tenant c values instant r
     | Some r \<Rightarrow> r \<in> set rules \<and> effective_rule date_parse tenant c values instant r \<and>
         (\<forall>r' \<in> set rules. effective_rule date_parse tenant c values instant r' \<longrightarrow>
            r' = r \<or> scope_kind r' < scope_kind r))"
proof -
  let ?ap = "applicable date_parse rules tenant c values instant"
  have dist: "inj_on scope_kind (set ?ap)"
    using assms(1) applicable_distinct_kinds [of date_parse rules "()"]
    by (auto simp: validate_authority_rules_def and_then_Inr_iff distinct_map)
  show ?thesis
  proof (cases "most_specific_first ?ap")
    case Nil
    then have "\<forall>r \<in> set rules. \<not> effective_rule date_parse tenant c values instant r"
      using applicable_effective_rule [of _ date_parse rules tenant c "values" instant] by simp
    then show ?thesis
      using resolve_validated [OF assms, of tenant c "values"] Nil by simp
  next
    case (Cons r xs)
    from most_specific_first_max [OF Cons] have r: "r \<in> set ?ap" and max: "\<forall>r' \<in> set ?ap. scope_kind r' \<le> scope_kind r"
      by blast+
    have "r' = r \<or> scope_kind r' < scope_kind r" if "r' \<in> set ?ap" for r'
      using that r max dist by (metis inj_onD order_le_imp_less_or_eq)
    then show ?thesis
      using resolve_validated [OF assms, of tenant c "values"] Cons r unfolding applicable_effective_rule by auto
  qed
qed

section \<open>Lemmas on canonicalisation\<close>

definition authorised :: "(string \<Rightarrow> int option) \<Rightarrow> authority_rule list \<Rightarrow> string \<Rightarrow> candidate \<Rightarrow> bool" where
  "authorised date_parse rules as_of c \<longleftrightarrow> validate_candidate date_parse c = Inr () \<and>
     (case resolve_authority_rule date_parse rules (cand_tenant c) (cand_concept c) (cand_values c) as_of of
        Inr (Some r) \<Rightarrow> rule_connection r = ref_connection (cand_source c) | _ \<Rightarrow> False)"

definition carries_over :: "candidate \<Rightarrow> canonical_record \<Rightarrow> bool" where
  "carries_over c r \<longleftrightarrow> rec_tenant r = cand_tenant c \<and> rec_id r = cand_id c \<and> rec_fact r = cand_fact c \<and>
     rec_source r = cand_source c \<and> rec_sync_run r = cand_sync_run c \<and>
     normalize_exact_values (cand_values c) = Inr (rec_values r)"

lemma canonicalize_step_cases:
  assumes "canonicalize_step date_parse rules as_of s c = Inr s'"
  shows "if authorised date_parse rules as_of c
    then \<exists>r. accepted s' = accepted s @ [r] \<and> carries_over c r \<and> rejected s' = rejected s
    else accepted s' = accepted s \<and> (\<exists>j. rejected s' = rejected s @ [j] \<and> rej_candidate j = c)"
proof (cases "validate_candidate date_parse c")
  case (Inl e)
  with assms show ?thesis by (auto simp: canonicalize_step_def authorised_def)
next
  case (Inr u)
  with assms obtain rule where rule:
      "resolve_authority_rule date_parse rules (cand_tenant c) (cand_concept c) (cand_values c) as_of = Inr rule"
    by (auto simp: canonicalize_step_def and_then_Inr_iff)
  with assms Inr show ?thesis
    by (cases rule) (auto simp: canonicalize_step_def authorised_def and_then_Inr_iff carries_over_def)
qed

lemma canonicalize_fold:
  assumes "fold_r (canonicalize_step date_parse rules as_of) s cs = Inr s'"
  shows "\<exists>rs js. accepted s' = accepted s @ rs \<and> rejected s' = rejected s @ js \<and>
     list_all2 carries_over (filter (authorised date_parse rules as_of) cs) rs \<and>
     map rej_candidate js = filter (\<lambda>c. \<not> authorised date_parse rules as_of c) cs"
  using assms
proof (induction cs arbitrary: s)
  case (Cons c cs)
  then obtain s1 where s1: "canonicalize_step date_parse rules as_of s c = Inr s1"
      "fold_r (canonicalize_step date_parse rules as_of) s1 cs = Inr s'"
    by (auto simp: and_then_Inr_iff)
  from Cons.IH [OF s1(2)] obtain rs js where rest: "accepted s' = accepted s1 @ rs" "rejected s' = rejected s1 @ js"
      "list_all2 carries_over (filter (authorised date_parse rules as_of) cs) rs"
      "map rej_candidate js = filter (\<lambda>c. \<not> authorised date_parse rules as_of c) cs"
    by blast
  show ?case
  proof (cases "authorised date_parse rules as_of c")
    case True
    with canonicalize_step_cases [OF s1(1)] obtain r where
      "accepted s1 = accepted s @ [r]" "carries_over c r" "rejected s1 = rejected s" by auto
    with True rest show ?thesis by (intro exI [of _ "r # rs"] exI [of _ js]) simp
  next
    case False
    with canonicalize_step_cases [OF s1(1)] obtain j where
      "accepted s1 = accepted s" "rejected s1 = rejected s @ [j]" "rej_candidate j = c" by auto
    with False rest show ?thesis by (intro exI [of _ rs] exI [of _ "j # js"]) simp
  qed
qed simp

text \<open>Only the money and currency checks can abort a batch of a validated rule set.\<close>

lemma dec_from_Str_print: "dec_from (Str s) = Inr d \<Longrightarrow> dec_from (Str (dec_to_string d)) = Inr d"
  by (rule dec_from_to_string)

lemma currency_not_money: "is_currency_field k \<Longrightarrow> \<not> is_money_field k"
proof
  assume "is_currency_field k" "is_money_field k"
  then have "suffix ''y'' k" "suffix ''t'' k \<or> suffix ''e'' k"
    unfolding is_currency_field_def is_money_field_def field_suffix_def by (auto simp: suffix_def)
  then show False by (auto simp: suffix_def)
qed

section \<open>Properties\<close>

text \<open>C21. Over a rule set that \<open>validateAuthorityRules\<close> accepts,
  \<open>resolveAuthorityRule\<close> never reports an overlap: for every tenant, concept, row and parseable
  instant it returns the one effective rule whose scope is strictly narrower than that of every
  other effective rule, and no rule exactly when none is effective.\<close>

theorem authority_resolution_unique:
  assumes "validate_authority_rules date_parse rules = Inr ()" "date_parse as_of = Some instant"
  shows "\<exists>rule. resolve_authority_rule date_parse rules tenant c values as_of = Inr rule \<and>
    (case rule of
       None \<Rightarrow> \<forall>r \<in> set rules. \<not> effective_rule date_parse tenant c values instant r
     | Some r \<Rightarrow> r \<in> set rules \<and> effective_rule date_parse tenant c values instant r \<and>
         (\<forall>r' \<in> set rules. effective_rule date_parse tenant c values instant r' \<longrightarrow>
            r' = r \<or> scope_kind r' < scope_kind r))"
  by (rule resolve_validated_most_specific [OF assms])

definition sample_date :: "string \<Rightarrow> int option" where
  "sample_date s = (if s \<noteq> [] \<and> list_all is_digit s then Some (int (nat_of_digits s)) else None)"

definition sample_rules :: "authority_rule list" where
  "sample_rules =
     [\<lparr>rule_concept = Stock, rule_connection = ''ls'', effective_from = ''10'', effective_to = None,
       scope_kind = Tenant_scope, scope_id = ''t1''\<rparr>,
      \<lparr>rule_concept = Stock, rule_connection = ''xero'', effective_from = ''20'', effective_to = Some ''30'',
       scope_kind = Location_scope, scope_id = ''shop''\<rparr>,
      \<lparr>rule_concept = Stock, rule_connection = ''square'', effective_from = ''30'', effective_to = None,
       scope_kind = Location_scope, scope_id = ''shop''\<rparr>]"

theorem authority_resolution_unique_witness:
  "(\<exists>rule. resolve_authority_rule sample_date sample_rules ''t1'' Stock [(''location_id'', VString ''shop'')] ''25'' = Inr rule \<and>
    (case rule of
       None \<Rightarrow> \<forall>r \<in> set sample_rules. \<not> effective_rule sample_date ''t1'' Stock [(''location_id'', VString ''shop'')] 25 r
     | Some r \<Rightarrow> r \<in> set sample_rules \<and> effective_rule sample_date ''t1'' Stock [(''location_id'', VString ''shop'')] 25 r \<and>
         (\<forall>r' \<in> set sample_rules. effective_rule sample_date ''t1'' Stock [(''location_id'', VString ''shop'')] 25 r' \<longrightarrow>
            r' = r \<or> scope_kind r' < scope_kind r))) \<and>
   (case resolve_authority_rule sample_date sample_rules ''t1'' Stock [(''location_id'', VString ''shop'')] ''25'' of
      Inr (Some r) \<Rightarrow> rule_connection r = ''xero'' | _ \<Rightarrow> False)"
proof
  have v: "validate_authority_rules sample_date sample_rules = Inr ()" by code_simp
  have i: "sample_date ''25'' = Some 25" by code_simp
  from authority_resolution_unique [OF v i, of "''t1''" Stock "[(''location_id'', VString ''shop'')]"]
  show "\<exists>rule. resolve_authority_rule sample_date sample_rules ''t1'' Stock [(''location_id'', VString ''shop'')] ''25'' = Inr rule \<and>
    (case rule of
       None \<Rightarrow> \<forall>r \<in> set sample_rules. \<not> effective_rule sample_date ''t1'' Stock [(''location_id'', VString ''shop'')] 25 r
     | Some r \<Rightarrow> r \<in> set sample_rules \<and> effective_rule sample_date ''t1'' Stock [(''location_id'', VString ''shop'')] 25 r \<and>
         (\<forall>r' \<in> set sample_rules. effective_rule sample_date ''t1'' Stock [(''location_id'', VString ''shop'')] 25 r' \<longrightarrow>
            r' = r \<or> scope_kind r' < scope_kind r))" .
  show "case resolve_authority_rule sample_date sample_rules ''t1'' Stock [(''location_id'', VString ''shop'')] ''25'' of
      Inr (Some r) \<Rightarrow> rule_connection r = ''xero'' | _ \<Rightarrow> False"
    by code_simp
qed


definition sample_candidate :: "string \<Rightarrow> candidate" where
  "sample_candidate connection =
     \<lparr>cand_tenant = ''t1'', cand_id = ''c1'', cand_fact = ''inventory_movement'', cand_concept = Stock,
      cand_source = \<lparr>ref_connection = connection, ref_object_type = ''Item'', ref_record_id = ''7''\<rparr>,
      cand_sync_run = ''run'', cand_updated_at = None, cand_values = [(''sku'', VString ''7'')]\<rparr>"


end
