(* ===== verification/Identity_Matching.thy ===== *)
theory Identity_Matching
  imports Prelude
begin

text \<open>
  \<open>packages/canonical-schema/src/transform.ts\<close>, the identity part: the evidence of an observation
  is enriched from the observations it refers to (\<open>enrichIdentityEvidence\<close>), and pairs of
  observations of two connections are suggested to be one entity (\<open>buildIdentitySuggestions\<close>).

  \<open>localeCompare\<close> is the rank \<open>collate\<close> into a linear order. A plain object is the list of its
  entries (property names that are not array indices, so in insertion order); an optional or
  undefined property is an \<open>option\<close>, and the empty string is falsy. \<open>evidenceRefs ?? []\<close> is a list.
\<close>

section \<open>Observations\<close>

type_synonym evidence_keys = "(string \<times> string option) list"

record observation =
  obs_tenant :: string
  obs_entity :: string
  obs_connection :: string
  obs_object_type :: string
  obs_record_id :: string
  obs_external_id :: "string option"
  obs_keys :: evidence_keys
  obs_name :: "string option"
  obs_scope :: "string option"
  obs_refs :: "(string \<times> string) list"
  obs_linkable :: "bool option"

datatype match_method = By_external_id | By_deterministic_key | By_composite

datatype match_status = Accepted | Proposed

record suggestion =
  sug_left :: observation
  sug_right :: observation
  sug_method :: match_method
  sug_status :: match_status
  sug_evidence :: "(string \<times> string) list"

text \<open>The truthy part of an optional string, and of a property.\<close>

definition nonblank :: "string option \<Rightarrow> string option" where
  "nonblank s = (if s = Some [] then None else s)"

definition usable :: "evidence_keys \<Rightarrow> string \<Rightarrow> string option" where
  "usable ks k = nonblank (case map_of ks k of None \<Rightarrow> None | Some v \<Rightarrow> v)"

section \<open>Enriching the evidence\<close>

definition separator :: char where
  "separator = CHR 0x1F"

definition identity_observation_key :: "observation \<Rightarrow> string \<Rightarrow> string \<Rightarrow> string" where
  "identity_observation_key ob object_type record_id =
     join_with [separator] [obs_tenant ob, obs_entity ob, obs_connection ob, object_type, record_id]"

definition by_source :: "observation list \<Rightarrow> string \<Rightarrow> observation option" where
  "by_source obs =
     map_of (rev (map (\<lambda>ob. (identity_observation_key ob (obs_object_type ob) (obs_record_id ob), ob)) obs))"

definition enrich_entry ::
    "evidence_keys \<times> string list \<Rightarrow> string \<times> string option \<Rightarrow> evidence_keys \<times> string list" where
  "enrich_entry s kv =
     (if nonblank (snd kv) = None \<or> fst kv \<in> set (snd s) then s
      else if usable (fst s) (fst kv) = None then (AList.update (fst kv) (snd kv) (fst s), snd s)
      else if usable (fst s) (fst kv) \<noteq> snd kv then (AList.delete (fst kv) (fst s), fst kv # snd s)
      else s)"

definition reference_rank :: "(string \<Rightarrow> 'k::linorder) \<Rightarrow> string \<times> string \<Rightarrow> 'k" where
  "reference_rank collate r = collate (fst r @ separator # snd r)"

definition referenced_entries ::
    "observation list \<Rightarrow> observation \<Rightarrow> (string \<times> string) list \<Rightarrow> (string \<times> string option) list" where
  "referenced_entries obs ob refs =
     concat (map (\<lambda>r. case by_source obs (identity_observation_key ob (fst r) (snd r)) of
        None \<Rightarrow> [] | Some evidence \<Rightarrow> obs_keys evidence) refs)"

definition enrich_observation :: "(string \<Rightarrow> 'k::linorder) \<Rightarrow> observation list \<Rightarrow> observation \<Rightarrow> observation" where
  "enrich_observation collate obs ob =
     ob\<lparr>obs_keys := fst (foldl enrich_entry (obs_keys ob, [])
          (referenced_entries obs ob (sort_key (reference_rank collate) (obs_refs ob))))\<rparr>"

definition enrich_identity_evidence :: "(string \<Rightarrow> 'k::linorder) \<Rightarrow> observation list \<Rightarrow> observation list" where
  "enrich_identity_evidence collate obs =
     map (enrich_observation collate obs) (filter (\<lambda>ob. obs_linkable ob \<noteq> Some False) obs)"

section \<open>Suggestions\<close>

definition common_deterministic_keys :: "evidence_keys \<Rightarrow> evidence_keys \<Rightarrow> (string \<times> string) list" where
  "common_deterministic_keys left right =
     map (\<lambda>kv. (fst kv, the (snd kv)))
       (filter (\<lambda>kv. nonblank (snd kv) \<noteq> None \<and> usable right (fst kv) = snd kv) left)"

definition same_text :: "string option \<Rightarrow> string option \<Rightarrow> bool" where
  "same_text a b \<longleftrightarrow> nonblank a \<noteq> None \<and> a = b"

definition suggest_pair :: "observation \<Rightarrow> observation \<Rightarrow> suggestion option" where
  "suggest_pair l r =
     (if obs_connection l = obs_connection r then None
      else if obs_tenant l \<noteq> obs_tenant r \<or> obs_entity l \<noteq> obs_entity r then None
      else if same_text (obs_external_id l) (obs_external_id r)
      then Some \<lparr>sug_left = l, sug_right = r, sug_method = By_external_id, sug_status = Accepted,
             sug_evidence = [(''external_id'', the (obs_external_id l))]\<rparr>
      else if common_deterministic_keys (obs_keys l) (obs_keys r) \<noteq> []
      then Some \<lparr>sug_left = l, sug_right = r, sug_method = By_deterministic_key, sug_status = Accepted,
             sug_evidence = common_deterministic_keys (obs_keys l) (obs_keys r)\<rparr>
      else if same_text (obs_name l) (obs_name r) \<and> same_text (obs_scope l) (obs_scope r)
      then Some \<lparr>sug_left = l, sug_right = r, sug_method = By_composite, sug_status = Proposed,
             sug_evidence = [(''normalized_name'', the (obs_name l)), (''corroborating_scope'', the (obs_scope l))]\<rparr>
      else None)"

fun suggest_pairs :: "observation list \<Rightarrow> suggestion list" where
  "suggest_pairs [] = []"
| "suggest_pairs (l # rs) = List.map_filter (suggest_pair l) rs @ suggest_pairs rs"

definition build_identity_suggestions :: "(string \<Rightarrow> 'k::linorder) \<Rightarrow> observation list \<Rightarrow> suggestion list" where
  "build_identity_suggestions collate obs = suggest_pairs (enrich_identity_evidence collate obs)"

section \<open>Lemmas\<close>

lemma nonblank_simps [simp]:
  "nonblank None = None"
  "nonblank (Some w) = (if w = [] then None else Some w)"
  "nonblank s = None \<longleftrightarrow> s = None \<or> s = Some []"
  by (auto simp: nonblank_def)

lemma nonblank_Some [simp]: "nonblank s = Some v \<longleftrightarrow> s = Some v \<and> v \<noteq> []"
  by (auto simp: nonblank_def)

lemma usable_update [simp]:
  "usable (AList.update k v ks) k' = (if k' = k then nonblank v else usable ks k')"
  by (simp add: usable_def update_conv')

lemma usable_delete [simp]: "usable (AList.delete k ks) k' = (if k' = k then None else usable ks k')"
  by (simp add: usable_def delete_conv')

lemma usable_nonblank [simp]: "nonblank (usable ks k) = usable ks k"
  by (simp add: usable_def nonblank_def)

text \<open>The values that count for a key: its own one and those of the evidence, blanks apart.\<close>

definition key_values :: "string option \<Rightarrow> string \<Rightarrow> (string \<times> string option) list \<Rightarrow> string set" where
  "key_values own k entries = {v. v \<noteq> [] \<and> (own = Some v \<or> (k, Some v) \<in> set entries)}"

lemma enrich_conflicting:
  "k \<in> set (snd s) \<Longrightarrow> usable (fst s) k = None \<Longrightarrow>
     usable (fst (foldl enrich_entry s entries)) k = None"
proof (induction entries arbitrary: s)
  case (Cons e entries)
  then have "k \<in> set (snd (enrich_entry s e))" "usable (fst (enrich_entry s e)) k = None"
    by (auto simp: enrich_entry_def)
  then show ?case using Cons.IH by simp
qed simp

lemma enrich_value:
  "k \<notin> set (snd s) \<Longrightarrow>
     usable (fst (foldl enrich_entry s entries)) k = Some v \<longleftrightarrow> key_values (usable (fst s) k) k entries = {v}"
proof (induction entries arbitrary: s)
  case Nil
  have "usable (fst s) k = Some w \<Longrightarrow> w \<noteq> []" for w by (auto simp: usable_def)
  then show ?case by (cases "usable (fst s) k") (auto simp: key_values_def)
next
  case (Cons e entries)
  let ?u = "usable (fst s) k"
  have nonempty: "?u = Some w \<Longrightarrow> w \<noteq> []" for w by (auto simp: usable_def)
  show ?case
  proof (cases "fst e = k \<and> nonblank (snd e) \<noteq> None \<and> ?u \<noteq> None \<and> ?u \<noteq> snd e")
    case True
    then have "enrich_entry s e = (AList.delete k (fst s), k # snd s)"
      using Cons.prems by (auto simp: enrich_entry_def)
    then have "usable (fst (foldl enrich_entry (enrich_entry s e) entries)) k = None"
      by (intro enrich_conflicting) simp_all
    moreover from True obtain a b where "?u = Some a" "e = (k, Some b)" "b \<noteq> []" "a \<noteq> b"
      by (cases e) auto
    then have "a \<in> key_values ?u k (e # entries)" "b \<in> key_values ?u k (e # entries)" "a \<noteq> b"
      using nonempty by (simp_all add: key_values_def)
    then have "key_values ?u k (e # entries) \<noteq> {v}" by (metis singletonD)
    ultimately show ?thesis by simp
  next
    case False
    then have keep: "k \<notin> set (snd (enrich_entry s e))"
      using Cons.prems by (simp add: enrich_entry_def del: nonblank_simps) (metis not_None_eq)
    have "key_values (usable (fst (enrich_entry s e)) k) k entries = key_values ?u k (e # entries)"
    proof (cases "fst e = k \<and> nonblank (snd e) \<noteq> None")
      case True
      then obtain b where b: "e = (k, Some b)" "b \<noteq> []" by (cases e) auto
      from False b have "?u = None \<or> ?u = Some b" by auto
      then have "usable (fst (enrich_entry s e)) k = Some b"
        using b Cons.prems by (elim disjE) (simp_all add: enrich_entry_def)
      with \<open>?u = None \<or> ?u = Some b\<close> show ?thesis
        unfolding key_values_def using b by (elim disjE) (simp_all, blast+)
    next
      case other: False
      then have "usable (fst (enrich_entry s e)) k = ?u" by (auto simp: enrich_entry_def)
      moreover have "(k, Some w) \<noteq> e" if "w \<noteq> []" for w using other that by auto
      ultimately show ?thesis by (auto simp: key_values_def)
    qed
    then show ?thesis using Cons.IH [OF keep] by simp
  qed
qed

lemma enrich_observation_usable:
  "usable (obs_keys (enrich_observation collate obs ob)) k = Some v \<longleftrightarrow>
     key_values (usable (obs_keys ob) k) k (referenced_entries obs ob (obs_refs ob)) = {v}"
proof -
  have "set (referenced_entries obs ob (sort_key (reference_rank collate) (obs_refs ob))) =
      set (referenced_entries obs ob (obs_refs ob))"
    by (simp add: referenced_entries_def)
  then show ?thesis
    by (simp add: enrich_observation_def enrich_value key_values_def)
qed

lemma enrich_observation_same [simp]:
  "obs_connection (enrich_observation collate obs ob) = obs_connection ob"
  "obs_tenant (enrich_observation collate obs ob) = obs_tenant ob"
  "obs_entity (enrich_observation collate obs ob) = obs_entity ob"
  "obs_external_id (enrich_observation collate obs ob) = obs_external_id ob"
  "obs_name (enrich_observation collate obs ob) = obs_name ob"
  "obs_scope (enrich_observation collate obs ob) = obs_scope ob"
  "obs_linkable (enrich_observation collate obs ob) = obs_linkable ob"
  by (simp_all add: enrich_observation_def)

lemma set_map_filter_iff: "y \<in> set (List.map_filter f xs) \<longleftrightarrow> (\<exists>x \<in> set xs. f x = Some y)"
  by (induction xs) (auto simp: List.map_filter_simps split: option.splits)

lemma set_case_option:
  "x \<in> set (case m of None \<Rightarrow> [] | Some y \<Rightarrow> f y) \<longleftrightarrow> (\<exists>y. m = Some y \<and> x \<in> set (f y))"
  by (cases m) simp_all

lemma subseq_pair_set: "subseq [l, r] xs \<Longrightarrow> l \<in> set xs \<and> r \<in> set xs"
  by (induction xs) (auto simp: subseq_Cons2_iff subseq_singleton_left split: if_splits)

lemma suggest_pairs_member:
  "s \<in> set (suggest_pairs obs) \<longleftrightarrow> (\<exists>l r. subseq [l, r] obs \<and> suggest_pair l r = Some s)"
proof (induction obs)
  case (Cons x xs)
  have "subseq [l, r] (x # xs) \<longleftrightarrow> l = x \<and> r \<in> set xs \<or> subseq [l, r] xs" for l r
    using subseq_order.order_trans [of "[r]" "[l, r]" xs]
    by (auto simp: subseq_Cons2_iff subseq_singleton_left split: if_splits)
  then show ?case using Cons.IH set_map_filter_iff [of s "suggest_pair x" xs] by auto
qed simp

lemma same_text_Some: "same_text a b \<longleftrightarrow> (\<exists>v. v \<noteq> [] \<and> a = Some v \<and> b = Some v)"
  by (cases a) (auto simp: same_text_def)

lemma common_keys_nonempty:
  "common_deterministic_keys l r \<noteq> [] \<Longrightarrow> \<exists>kv \<in> set l. snd kv \<noteq> None \<and> usable r (fst kv) = snd kv"
  by (auto simp: common_deterministic_keys_def filter_empty_conv)

lemma suggest_pair_sound:
  assumes "suggest_pair l r = Some s"
  shows "sug_left s = l \<and> sug_right s = r \<and> obs_connection l \<noteq> obs_connection r \<and>
    obs_tenant l = obs_tenant r \<and> obs_entity l = obs_entity r \<and>
    (case sug_status s of
       Accepted \<Rightarrow> (\<exists>i. i \<noteq> [] \<and> obs_external_id l = Some i \<and> obs_external_id r = Some i) \<or>
         common_deterministic_keys (obs_keys l) (obs_keys r) \<noteq> []
     | Proposed \<Rightarrow> same_text (obs_name l) (obs_name r) \<and> same_text (obs_scope l) (obs_scope r))"
  using assms unfolding suggest_pair_def by (auto simp: same_text_Some split: if_splits)

lemma common_keys_usable:
  assumes "distinct (map fst l)"
  shows "(k, v) \<in> set (common_deterministic_keys l r) \<longleftrightarrow> usable l k = Some v \<and> usable r k = Some v"
proof -
  have "(k, Some v) \<in> set l \<longleftrightarrow> map_of l k = Some (Some v)"
    using assms by (simp add: map_of_eq_Some_iff)
  then show ?thesis
    by (auto simp: common_deterministic_keys_def usable_def image_iff split: option.splits)
qed


section \<open>Properties\<close>

text \<open>After \<open>enrichIdentityEvidence\<close> an observation has a (non-blank) value for an
  evidence key exactly when its own value and the values of all the observations it refers to
  agree on that one value: a conflict leaves no value, and the order in which the references
  are visited (the collation used to sort them) does not matter.\<close>

theorem identity_evidence_unanimous:
  "usable (obs_keys (enrich_observation collate obs ob)) k = Some v \<longleftrightarrow>
     {w. w \<noteq> [] \<and> (usable (obs_keys ob) k = Some w \<or>
        (\<exists>r \<in> set (obs_refs ob). \<exists>evidence.
           by_source obs (identity_observation_key ob (fst r) (snd r)) = Some evidence \<and>
           (k, Some w) \<in> set (obs_keys evidence)))} = {v}"
proof -
  have "(k, Some w) \<in> set (referenced_entries obs ob (obs_refs ob)) \<longleftrightarrow>
      (\<exists>r \<in> set (obs_refs ob). \<exists>evidence.
           by_source obs (identity_observation_key ob (fst r) (snd r)) = Some evidence \<and>
           (k, Some w) \<in> set (obs_keys evidence))" for w
    by (simp add: referenced_entries_def set_case_option) metis
  then show ?thesis unfolding enrich_observation_usable key_values_def by simp
qed

text \<open>C23. Every suggestion of \<open>buildIdentitySuggestions\<close> pairs two linkable observations of
  one tenant and entity type from different connections; it is accepted only on an equal external
  id or a shared deterministic key, and a match of names, which needs the same organisational
  scope, is only ever proposed.\<close>

theorem identity_suggestions_sound:
  assumes "s \<in> set (build_identity_suggestions collate obs)"
  shows "obs_connection (sug_left s) \<noteq> obs_connection (sug_right s) \<and>
    obs_tenant (sug_left s) = obs_tenant (sug_right s) \<and> obs_entity (sug_left s) = obs_entity (sug_right s) \<and>
    obs_linkable (sug_left s) \<noteq> Some False \<and> obs_linkable (sug_right s) \<noteq> Some False \<and>
    (case sug_status s of
       Accepted \<Rightarrow> (\<exists>i. i \<noteq> [] \<and> obs_external_id (sug_left s) = Some i \<and> obs_external_id (sug_right s) = Some i) \<or>
         (\<exists>kv \<in> set (obs_keys (sug_left s)). snd kv \<noteq> None \<and> usable (obs_keys (sug_right s)) (fst kv) = snd kv)
     | Proposed \<Rightarrow> same_text (obs_name (sug_left s)) (obs_name (sug_right s)) \<and>
         same_text (obs_scope (sug_left s)) (obs_scope (sug_right s)))"
proof -
  obtain l r where sub: "subseq [l, r] (enrich_identity_evidence collate obs)" and s: "suggest_pair l r = Some s"
    using assms unfolding build_identity_suggestions_def suggest_pairs_member by blast
  have "l \<in> set (enrich_identity_evidence collate obs)" "r \<in> set (enrich_identity_evidence collate obs)"
    using subseq_pair_set [OF sub] by simp_all
  then have "obs_linkable l \<noteq> Some False" "obs_linkable r \<noteq> Some False"
    by (auto simp: enrich_identity_evidence_def)
  with suggest_pair_sound [OF s] common_keys_nonempty [of "obs_keys l" "obs_keys r"] show ?thesis
    by (cases "sug_status s") auto
qed


definition sample_observation :: "string \<Rightarrow> string \<Rightarrow> evidence_keys \<Rightarrow> (string \<times> string) list \<Rightarrow> bool option \<Rightarrow> observation" where
  "sample_observation connection record_id ks refs linkable =
     \<lparr>obs_tenant = ''t1'', obs_entity = ''worker'', obs_connection = connection, obs_object_type = ''Employee'',
      obs_record_id = record_id, obs_external_id = None, obs_keys = ks, obs_name = Some ''ann'',
      obs_scope = Some ''shop'', obs_refs = refs, obs_linkable = linkable\<rparr>"

definition sample_observations :: "observation list" where
  "sample_observations =
     [sample_observation ''ls'' ''1'' [] [(''Employee'', ''9'')] None,
      sample_observation ''ls'' ''9'' [(''email'', Some ''a@b'')] [] (Some False),
      sample_observation ''deputy'' ''2'' [(''email'', Some ''a@b'')] [] None]"

definition sample_suggestion :: suggestion where
  "sample_suggestion = hd (build_identity_suggestions length sample_observations)"

theorem identity_suggestions_sound_witness:
  "obs_connection (sug_left sample_suggestion) \<noteq> obs_connection (sug_right sample_suggestion) \<and>
    sug_status sample_suggestion = Accepted \<and> sug_method sample_suggestion = By_deterministic_key"
proof -
  have "build_identity_suggestions length sample_observations \<noteq> []" by code_simp
  then have "sample_suggestion \<in> set (build_identity_suggestions length sample_observations)"
    unfolding sample_suggestion_def by (rule hd_in_set)
  note conjunct1 [OF identity_suggestions_sound [OF this]]
  moreover have "sug_status sample_suggestion = Accepted" by code_simp
  moreover have "sug_method sample_suggestion = By_deterministic_key" by code_simp
  ultimately show ?thesis by (intro conjI)
qed

end
