(* ===== verification/Civil_Dates.thy ===== *)
theory Civil_Dates
  imports Prelude
begin

text \<open>
  Civil dates as the JavaScript \<open>Date\<close> object computes them (ECMAScript \<open>DaysFromYear\<close>,
  \<open>MakeDay\<close>, \<open>YearFromTime\<close>): the part of the language's library that
  \<open>packages/compiler/src/calendar.ts\<close> does its date arithmetic with. A day number counts days
  from 1970-01-01. The range of a time value (a hundred million days either side) is not
  checked: the dates of the program have four-digit years.

  The contract between day numbers and dates is the locale \<open>day_numbering\<close>.
\<close>

section \<open>Day numbers\<close>

datatype date_parts = Date_parts (year_of: int) (month_of: int) (day_of: int)

definition leap :: "int \<Rightarrow> bool" where
  "leap y \<longleftrightarrow> y mod 4 = 0 \<and> (y mod 100 \<noteq> 0 \<or> y mod 400 = 0)"

definition days_from_year :: "int \<Rightarrow> int" where
  "days_from_year y = 365 * (y - 1970) + (y - 1969) div 4 - (y - 1901) div 100 + (y - 1601) div 400"

text \<open>Days before month \<open>m\<close> (0 to 11) of a year; month 12 gives the length of the year.\<close>

definition month_start :: "bool \<Rightarrow> int \<Rightarrow> int" where
  "month_start l m =
     (if m \<le> 0 then 0 else if m = 1 then 31
      else (if l then 1 else 0) +
        (if m = 2 then 59 else if m = 3 then 90 else if m = 4 then 120 else if m = 5 then 151
         else if m = 6 then 181 else if m = 7 then 212 else if m = 8 then 243 else if m = 9 then 273
         else if m = 10 then 304 else if m = 11 then 334 else 365))"

definition month_index :: "bool \<Rightarrow> int \<Rightarrow> int" where
  "month_index l n = int (length (filter (\<lambda>m. month_start l m \<le> n) [1,2,3,4,5,6,7,8,9,10,11]))"

text \<open>\<open>Date.UTC(year, month, date)\<close> in days: the month carries into the year, and a year between
  0 and 99 is taken to be in the twentieth century.\<close>

definition full_year :: "int \<Rightarrow> int" where
  "full_year y = (if 0 \<le> y \<and> y \<le> 99 then 1900 + y else y)"

definition utc_day :: "int \<Rightarrow> int \<Rightarrow> int \<Rightarrow> int" where
  "utc_day y m d =
     (let ym = full_year y + m div 12
      in days_from_year ym + month_start (leap ym) (m mod 12) + d - 1)"

definition utc_year :: "int \<Rightarrow> int" where
  "utc_year n =
     (let y = n * 400 div 146097 + 1970
      in if n < days_from_year y then y - 1 else if days_from_year (y + 1) \<le> n then y + 1 else y)"

definition civil_date :: "int \<Rightarrow> date_parts" where
  "civil_date n =
     (let y = utc_year n; r = n - days_from_year y; m = month_index (leap y) r
      in Date_parts y (m + 1) (r - month_start (leap y) m + 1))"

definition day_number :: "date_parts \<Rightarrow> int" where
  "day_number d = utc_day (year_of d) (month_of d - 1) (day_of d)"

definition month_length :: "bool \<Rightarrow> int \<Rightarrow> int" where
  "month_length l m = month_start l m - month_start l (m - 1)"

definition valid_date :: "date_parts \<Rightarrow> bool" where
  "valid_date d \<longleftrightarrow> 100 \<le> year_of d \<and> 1 \<le> month_of d \<and> month_of d \<le> 12 \<and>
     1 \<le> day_of d \<and> day_of d \<le> month_length (leap (year_of d)) (month_of d)"

text \<open>Dates are ordered by year, month and day.\<close>

instantiation date_parts :: linorder
begin

definition less_eq_date_parts :: "date_parts \<Rightarrow> date_parts \<Rightarrow> bool" where
  "less_eq_date_parts a b \<longleftrightarrow> year_of a < year_of b \<or> year_of a = year_of b \<and>
     (month_of a < month_of b \<or> month_of a = month_of b \<and> day_of a \<le> day_of b)"

definition less_date_parts :: "date_parts \<Rightarrow> date_parts \<Rightarrow> bool" where
  "less_date_parts a b \<longleftrightarrow> year_of a < year_of b \<or> year_of a = year_of b \<and>
     (month_of a < month_of b \<or> month_of a = month_of b \<and> day_of a < day_of b)"

instance
  by standard (auto simp: less_eq_date_parts_def less_date_parts_def intro: date_parts.expand)

end

section \<open>Years\<close>

lemma div_step: "0 < (k::int) \<Longrightarrow> (z + 1) div k = z div k + (if k dvd z + 1 then 1 else 0)"
proof -
  assume k: "0 < k"
  let ?q = "z div k" and ?r = "z mod k"
  have z: "z = k * ?q + ?r" by simp
  have r: "0 \<le> ?r" "?r < k" using k by simp_all
  show ?thesis
  proof (cases "?r + 1 = k")
    case True
    then have z1: "z + 1 = k * (?q + 1)" using z by (simp only: distrib_left)
    then have "(z + 1) div k = ?q + 1" using k by (simp only: nonzero_mult_div_cancel_left)
    moreover have "k dvd z + 1" unfolding z1 by simp
    ultimately show ?thesis by simp
  next
    case False
    with z have z1: "z + 1 = k * ?q + (?r + 1)" by linarith
    from False r have lt: "0 \<le> ?r + 1" "?r + 1 < k" by simp_all
    have "(z + 1) div k = ?q" using int_div_pos_eq [OF z1 lt] .
    moreover have "(z + 1) mod k = ?r + 1" using int_mod_pos_eq [OF z1 lt] .
    ultimately show ?thesis using r by (simp add: dvd_eq_mod_eq_0)
  qed
qed

lemma dvd_shift: "(k::int) dvd c \<Longrightarrow> k dvd y - c \<longleftrightarrow> k dvd y"
  using dvd_add_left_iff [of k "- c" y] by simp

lemma days_from_year_Suc: "days_from_year (y + 1) = days_from_year y + (if leap y then 366 else 365)"
proof -
  have shift: "y + 1 - 1969 = y - 1969 + 1" "y + 1 - 1901 = y - 1901 + 1" "y + 1 - 1601 = y - 1601 + 1" by simp_all
  have q4: "(y - 1969 + 1) div 4 = (y - 1969) div 4 + (if 4 dvd y then 1 else 0)"
    using div_step [of 4 "y - 1969"] dvd_shift [of 4 1968 y] by simp
  have q100: "(y - 1901 + 1) div 100 = (y - 1901) div 100 + (if 100 dvd y then 1 else 0)"
    using div_step [of 100 "y - 1901"] dvd_shift [of 100 1900 y] by simp
  have q400: "(y - 1601 + 1) div 400 = (y - 1601) div 400 + (if 400 dvd y then 1 else 0)"
    using div_step [of 400 "y - 1601"] dvd_shift [of 400 1600 y] by simp
  have dvd: "400 dvd y \<Longrightarrow> 100 dvd y" "100 dvd y \<Longrightarrow> 4 dvd y"
    by (rule dvd_trans [of 100 400], simp_all) (rule dvd_trans [of 4 100], simp_all)
  have ring: "365 * (y + 1 - 1970) + (A + a) - (B + b) + (C + c) = 365 * (y - 1970) + A - B + C + 365 + a - b + c"
    for A B C a b c :: int by simp
  have "days_from_year (y + 1) = days_from_year y + 365 + (if 4 dvd y then 1 else 0)
      - (if 100 dvd y then 1 else 0) + (if 400 dvd y then 1 else 0)"
    unfolding days_from_year_def shift q4 q100 q400 by (rule ring)
  also have "\<dots> = days_from_year y + (if leap y then 366 else 365)"
    using dvd unfolding leap_def dvd_eq_mod_eq_0 [symmetric]
    by (cases "4 dvd y"; cases "100 dvd y"; cases "400 dvd y") simp_all
  finally show ?thesis .
qed

lemma days_from_year_mono: "y \<le> y' \<Longrightarrow> days_from_year y + 365 * (y' - y) \<le> days_from_year y'"
proof (induction y' rule: int_ge_induct)
  case (step i)
  then show ?case using days_from_year_Suc [of i] by (auto split: if_splits)
qed simp

lemma days_from_year_le: "y < y' \<Longrightarrow> days_from_year (y + 1) \<le> days_from_year y'"
  using days_from_year_mono [of "y + 1" y'] by simp

lemma utc_year_bounds: "days_from_year (utc_year n) \<le> n \<and> n < days_from_year (utc_year n + 1)"
proof -
  let ?y = "n * 400 div 146097 + 1970"
  note q = div_bounds [of 146097 "n * 400", simplified]
  note a = div_bounds [of 4 "?y - 1 - 1969", simplified] div_bounds [of 100 "?y - 1 - 1901", simplified]
    div_bounds [of 400 "?y - 1 - 1601", simplified]
  note b = div_bounds [of 4 "?y + 2 - 1969", simplified] div_bounds [of 100 "?y + 2 - 1901", simplified]
    div_bounds [of 400 "?y + 2 - 1601", simplified]
  have "days_from_year (?y - 1) \<le> n" unfolding days_from_year_def using a q by simp
  moreover have "n < days_from_year (?y + 2)" unfolding days_from_year_def using b q by simp
  ultimately show ?thesis unfolding utc_year_def Let_def by (simp add: add.commute)
qed

lemma utc_year_unique: "days_from_year y \<le> n \<Longrightarrow> n < days_from_year (y + 1) \<Longrightarrow> utc_year n = y"
proof -
  assume y: "days_from_year y \<le> n" "n < days_from_year (y + 1)"
  note u = utc_year_bounds [of n]
  have "\<not> y < utc_year n" using days_from_year_le [of y "utc_year n"] y u by fastforce
  moreover have "\<not> utc_year n < y" using days_from_year_le [of "utc_year n" y] y u by fastforce
  ultimately show ?thesis by simp
qed

section \<open>Months\<close>

lemma month_cases: "0 \<le> (m::int) \<Longrightarrow> m < 12 \<Longrightarrow>
    m = 0 \<or> m = 1 \<or> m = 2 \<or> m = 3 \<or> m = 4 \<or> m = 5 \<or> m = 6 \<or> m = 7 \<or> m = 8 \<or> m = 9 \<or> m = 10 \<or> m = 11"
  by presburger

lemma month_index_start:
  assumes "0 \<le> m" "m < 12" "0 \<le> d" "d < month_length l (m + 1)"
  shows "month_index l (month_start l m + d) = m"
  using month_cases [OF assms(1,2)] assms(3,4)
  by (elim disjE) (auto simp: month_index_def month_start_def month_length_def split: if_splits)

lemma month_exists:
  assumes "0 \<le> n" "n < (if l then 366 else 365)"
  shows "\<exists>m. 0 \<le> m \<and> m < 12 \<and> month_start l m \<le> n \<and> n < month_start l (m + 1)"
proof (rule ccontr)
  assume none: "\<not> ?thesis"
  have step: "month_start l m \<le> n \<Longrightarrow> 0 \<le> m \<Longrightarrow> m < 12 \<Longrightarrow> month_start l (m + 1) \<le> n" for m
    using none by (metis not_le)
  have "month_start l (int k) \<le> n" if "k \<le> 12" for k :: nat
    using that
  proof (induction k)
    case 0
    then show ?case using assms by (simp add: month_start_def)
  next
    case (Suc k)
    then show ?case using step [of "int k"] by (simp add: add.commute)
  qed
  from this [of 12] assms show False by (simp add: month_start_def split: if_splits)
qed

lemma month_length_range: "1 \<le> m \<Longrightarrow> m \<le> 12 \<Longrightarrow> 28 \<le> month_length l m \<and> month_length l m \<le> 31"
  using month_cases [of "m - 1"] by (auto simp: month_length_def month_start_def)

lemma month_start_le: "m \<le> m' \<Longrightarrow> 0 \<le> m \<Longrightarrow> m' \<le> 12 \<Longrightarrow> month_start l m \<le> month_start l m'"
proof (induction m' rule: int_ge_induct)
  case (step i)
  then show ?case using month_length_range [of "i + 1" l] by (simp add: month_length_def)
qed simp

lemma month_start_mono: "0 \<le> m \<Longrightarrow> m < m' \<Longrightarrow> m' \<le> 12 \<Longrightarrow> month_start l m + month_length l (m + 1) \<le> month_start l m'"
  using month_start_le [of "m + 1" m' l] by (simp add: month_length_def)

section \<open>Dates and day numbers\<close>

lemma day_number_valid:
  "valid_date d \<Longrightarrow> day_number d =
     days_from_year (year_of d) + month_start (leap (year_of d)) (month_of d - 1) + day_of d - 1"
  by (simp add: day_number_def utc_day_def full_year_def valid_date_def Let_def)

lemma month_start_12: "month_start l 12 = (if l then 366 else 365)"
  by (simp add: month_start_def)

lemma month_index_props:
  assumes "0 \<le> r" "r < (if l then 366 else 365)"
  shows "0 \<le> month_index l r \<and> month_index l r < 12 \<and> month_start l (month_index l r) \<le> r \<and>
     r < month_start l (month_index l r + 1)"
proof -
  obtain m where m: "0 \<le> m" "m < 12" "month_start l m \<le> r" "r < month_start l (m + 1)"
    using month_exists [OF assms] by blast
  then have "month_index l r = m"
    using month_index_start [of m "r - month_start l m" l] by (simp add: month_length_def)
  with m show ?thesis by simp
qed

lemma civil_date_valid:
  assumes "days_from_year 100 \<le> n"
  shows "valid_date (civil_date n) \<and> day_number (civil_date n) = n"
proof -
  let ?y = "utc_year n" and ?r = "n - days_from_year (utc_year n)"
  have r: "0 \<le> ?r" "?r < (if leap ?y then 366 else 365)"
    using utc_year_bounds [of n] days_from_year_Suc [of ?y] by (auto split: if_splits)
  note m = month_index_props [OF r]
  have "\<not> ?y < 100"
    using utc_year_bounds [of n] days_from_year_le [of ?y 100] assms by fastforce
  with m have v: "valid_date (civil_date n)"
    by (auto simp: civil_date_def Let_def valid_date_def month_length_def)
  then show ?thesis using day_number_valid [OF v] by (simp add: civil_date_def Let_def)
qed

lemma day_number_year:
  assumes "valid_date d"
  shows "days_from_year (year_of d) \<le> day_number d \<and> day_number d < days_from_year (year_of d + 1)"
proof -
  from assms have d: "1 \<le> month_of d" "month_of d \<le> 12" "1 \<le> day_of d"
      "day_of d \<le> month_length (leap (year_of d)) (month_of d)"
    by (auto simp: valid_date_def)
  have "month_start l (m - 1) + month_length l m \<le> month_start l 12" if "1 \<le> m" "m \<le> 12" for l m
    using month_start_mono [of "m - 1" 12 l] that by (cases "m = 12") (simp_all add: month_length_def)
  from this [OF d(1,2), of "leap (year_of d)"] d
  have "month_start (leap (year_of d)) (month_of d - 1) + day_of d \<le> month_start (leap (year_of d)) 12" by simp
  moreover have "0 \<le> month_start (leap (year_of d)) (month_of d - 1)"
    using month_cases [of "month_of d - 1"] d by (auto simp: month_start_def)
  ultimately show ?thesis
    using day_number_valid [OF assms] d days_from_year_Suc [of "year_of d"] by (simp add: month_start_12)
qed

lemma civil_date_day_number:
  assumes "valid_date d"
  shows "civil_date (day_number d) = d"
proof -
  let ?n = "day_number d"
  have y: "utc_year ?n = year_of d" using day_number_year [OF assms] utc_year_unique by blast
  have r: "?n - days_from_year (year_of d) =
      month_start (leap (year_of d)) (month_of d - 1) + (day_of d - 1)"
    using day_number_valid [OF assms] by simp
  have "month_index (leap (year_of d)) (?n - days_from_year (year_of d)) = month_of d - 1"
    unfolding r using assms by (intro month_index_start) (auto simp: valid_date_def)
  then show ?thesis by (intro date_parts.expand) (simp add: civil_date_def y r Let_def)
qed

lemma days_from_year_100_le: "valid_date d \<Longrightarrow> days_from_year 100 \<le> day_number d"
  using day_number_year [of d] days_from_year_mono [of 100 "year_of d"] by (auto simp: valid_date_def)

lemma day_number_less:
  assumes "valid_date a" "valid_date b" "a < b"
  shows "day_number a < day_number b"
proof (cases "year_of a < year_of b")
  case True
  then show ?thesis
    using day_number_year [OF assms(1)] day_number_year [OF assms(2)]
      days_from_year_le [of "year_of a" "year_of b"] by fastforce
next
  case False
  with assms(3) have y: "year_of a = year_of b" and
      md: "month_of a < month_of b \<or> month_of a = month_of b \<and> day_of a < day_of b"
    by (auto simp: less_date_parts_def)
  have range: "1 \<le> month_of a" "month_of b \<le> 12" "1 \<le> day_of b"
      "day_of a \<le> month_length (leap (year_of a)) (month_of a)"
    using assms by (auto simp: valid_date_def)
  have "month_start (leap (year_of b)) (month_of a - 1) + day_of a <
      month_start (leap (year_of b)) (month_of b - 1) + day_of b"
    using md month_start_mono [of "month_of a - 1" "month_of b - 1" "leap (year_of b)"] range y by auto
  then show ?thesis using day_number_valid [OF assms(1)] day_number_valid [OF assms(2)] y by simp
qed

section \<open>The contract\<close>

text \<open>\<open>number\<close> and \<open>date\<close> are inverse on the valid dates from \<open>first\<close> on, and \<open>number\<close> is monotone.
  The clients move a date by a number of days.\<close>

locale day_numbering =
  fixes number :: "'d::linorder \<Rightarrow> int" and date :: "int \<Rightarrow> 'd" and valid :: "'d \<Rightarrow> bool" and start :: int
  assumes date_valid: "start \<le> n \<Longrightarrow> valid (date n)"
    and number_date: "start \<le> n \<Longrightarrow> number (date n) = n"
    and date_number: "valid d \<Longrightarrow> date (number d) = d"
    and start_le: "valid d \<Longrightarrow> start \<le> number d"
    and number_mono: "valid a \<Longrightarrow> valid b \<Longrightarrow> a < b \<Longrightarrow> number a < number b"
begin

lemma number_less_iff: "valid a \<Longrightarrow> valid b \<Longrightarrow> number a < number b \<longleftrightarrow> a < b"
  using number_mono by (metis less_imp_not_less less_irrefl linorder_less_linear)

lemma number_le_iff: "valid a \<Longrightarrow> valid b \<Longrightarrow> number a \<le> number b \<longleftrightarrow> a \<le> b"
  using number_less_iff by (metis not_le)

lemma shift_valid: "start \<le> number d + k \<Longrightarrow> valid (date (number d + k))"
  by (rule date_valid)

lemma shift_zero: "valid d \<Longrightarrow> date (number d + 0) = d"
  by (simp add: date_number)

lemma shift_shift:
  "start \<le> number d + j \<Longrightarrow> date (number (date (number d + j)) + k) = date (number d + (j + k))"
  by (simp add: number_date add.assoc)

lemma shift_number: "start \<le> number d + k \<Longrightarrow> number (date (number d + k)) = number d + k"
  by (rule number_date)

end

interpretation civil: day_numbering day_number civil_date valid_date "days_from_year 100"
  by unfold_locales
    (simp_all add: civil_date_valid civil_date_day_number days_from_year_100_le day_number_less)

section \<open>Weekdays and time values\<close>

text \<open>\<open>getUTCDay\<close>: 1970-01-01 was a Thursday. \<open>toISOString\<close> of a time value in milliseconds.\<close>

definition utc_weekday :: "int \<Rightarrow> int" where
  "utc_weekday n = (n + 4) mod 7"

definition ms_per_day :: int where "ms_per_day = 86400000"

definition utc_time :: "int \<Rightarrow> int \<Rightarrow> int \<Rightarrow> int \<Rightarrow> int \<Rightarrow> int \<Rightarrow> int" where
  "utc_time y m d h mi s = utc_day y m d * ms_per_day + h * 3600000 + mi * 60000 + s * 1000"

definition digits_of :: "nat \<Rightarrow> int \<Rightarrow> string" where
  "digits_of w i = pad_start w (string_of_int i)"

definition iso_string :: "int \<Rightarrow> string" where
  "iso_string t =
     (let d = civil_date (t div ms_per_day); r = t mod ms_per_day; y = year_of d
      in (if 0 \<le> y \<and> y \<le> 9999 then digits_of 4 y
          else (if y < 0 then CHR ''-'' else CHR ''+'') # digits_of 6 \<bar>y\<bar>) @
         ''-'' @ digits_of 2 (month_of d) @ ''-'' @ digits_of 2 (day_of d) @ ''T'' @
         digits_of 2 (r div 3600000) @ '':'' @ digits_of 2 (r div 60000 mod 60) @ '':'' @
         digits_of 2 (r div 1000 mod 60) @ ''.'' @ digits_of 3 (r mod 1000) @ ''Z'')"

end
