(* ===== verification/Tenant_Calendar.thy ===== *)
theory Tenant_Calendar
  imports Civil_Dates
begin

text \<open>
  \<open>packages/compiler/src/calendar.ts\<close>: the tenant calendar (time zone, trading-day cutoff, fiscal
  year, first weekday), the relative time ranges of a query resolved to half-open ranges of
  business dates and instants, and the comparison ranges.

  \<open>Intl.DateTimeFormat\<close> is the parameter \<open>zone\<close>: the wall clock of an instant (milliseconds) in a
  time zone, \<open>None\<close> where it throws. \<open>Date.parse\<close> is the parameter \<open>date_parse\<close>. Numbers of the
  calendar and of a range are integers, as the schemas demand, so \<open>Number.isInteger\<close> holds.
\<close>

section \<open>Configuration\<close>

datatype compiler_error_code =
    INVALID_IR | UNKNOWN_TOPIC | UNKNOWN_METRIC | METRIC_NOT_IN_TOPIC | FORBIDDEN_ROLE | MISSING_CAPABILITY
  | ILLEGAL_DIMENSION | ILLEGAL_SQL | ILLEGAL_JOIN | CROSS_FACT_QUERY | COMPOSITE_REQUIRED | INVALID_ALIGNMENT
  | SNAPSHOT_SUM_FORBIDDEN | INVALID_TIME_FIELD | INVALID_PARAMETER | QUERY_BUDGET_EXCEEDED

type_synonym 'a compiled = "(compiler_error_code, 'a) result"

record tenant_calendar =
  timezone :: string
  trading_day_cutoff :: string
  fiscal_year_start_month :: int
  fiscal_year_start_day :: int
  week_starts_on :: int

record calendar_input =
  in_timezone :: string
  in_cutoff :: "string option"
  in_fiscal_month :: "int option"
  in_fiscal_day :: "int option"
  in_week_start :: "int option"

record wall_clock =
  wall_date :: date_parts
  wall_hour :: int
  wall_minute :: int
  wall_second :: int

type_synonym zone = "string \<Rightarrow> int \<Rightarrow> wall_clock option"

datatype time_range =
    Absolute string string
  | Today | Yesterday | Month_to_date | Quarter_to_date | Year_to_date
  | Last_complete_week | Last_complete_month | Last_complete_quarter | Last_complete_year
  | Last_n_days int | Last_n_complete_days int | Last_n_complete_weeks int | Last_n_complete_months int

datatype compare_mode = Prior_week | Prior_month | Prior_year

record resolved_range =
  range_from :: string
  range_to :: string
  from_business_date :: string
  to_business_date :: string

section \<open>Dates\<close>

definition add_days :: "date_parts \<Rightarrow> int \<Rightarrow> date_parts" where
  "add_days d n = civil_date (utc_day (year_of d) (month_of d - 1) (day_of d + n))"

definition days_in_month :: "int \<Rightarrow> int \<Rightarrow> int" where
  "days_in_month y m = day_of (civil_date (utc_day y m 0))"

definition safe_date :: "int \<Rightarrow> int \<Rightarrow> int \<Rightarrow> date_parts" where
  "safe_date y m d = Date_parts y m (min d (days_in_month y m))"

definition add_months :: "date_parts \<Rightarrow> int \<Rightarrow> date_parts" where
  "add_months d n =
     (let index = year_of d * 12 + month_of d - 1 + n
      in safe_date (index div 12) (index mod 12 + 1) (day_of d))"

definition add_years :: "date_parts \<Rightarrow> int \<Rightarrow> date_parts" where
  "add_years d n = safe_date (year_of d + n) (month_of d) (day_of d)"

definition compare_dates :: "date_parts \<Rightarrow> date_parts \<Rightarrow> int" where
  "compare_dates a b = day_number a * ms_per_day - day_number b * ms_per_day"

definition pad2 :: "int \<Rightarrow> string" where
  "pad2 i = pad_start 2 (string_of_int i)"

definition format_date :: "date_parts \<Rightarrow> string" where
  "format_date d = string_of_int (year_of d) @ ''-'' @ pad2 (month_of d) @ ''-'' @ pad2 (day_of d)"

definition parse_date :: "string \<Rightarrow> date_parts compiled" where
  "parse_date s =
     (if length s = 10 \<and> list_all is_digit (take 4 s) \<and> s ! 4 = CHR ''-'' \<and>
         list_all is_digit (take 2 (drop 5 s)) \<and> s ! 7 = CHR ''-'' \<and> list_all is_digit (drop 8 s)
      then Inr (Date_parts (int (nat_of_digits (take 4 s))) (int (nat_of_digits (take 2 (drop 5 s))))
                  (int (nat_of_digits (drop 8 s))))
      else Inl INVALID_IR)"

definition parse_cutoff :: "string \<Rightarrow> (int \<times> int) compiled" where
  "parse_cutoff s =
     (if length s = 5 \<and> list_all is_digit (take 2 s) \<and> s ! 2 = CHR '':'' \<and> list_all is_digit (drop 3 s)
      then let hour = int (nat_of_digits (take 2 s)); minute = int (nat_of_digits (drop 3 s))
           in if hour > 23 \<or> minute > 59 then Inl INVALID_PARAMETER else Inr (hour, minute)
      else Inl INVALID_PARAMETER)"

definition zoned_parts :: "zone \<Rightarrow> string \<Rightarrow> int \<Rightarrow> wall_clock compiled" where
  "zoned_parts zone tz t = (case zone tz t of None \<Rightarrow> Inl INVALID_PARAMETER | Some w \<Rightarrow> Inr w)"

definition normalize_tenant_calendar :: "zone \<Rightarrow> calendar_input \<Rightarrow> tenant_calendar compiled" where
  "normalize_tenant_calendar zone i =
     and_then (zoned_parts zone (in_timezone i) 0) (\<lambda>_.
     let cutoff = (case in_cutoff i of None \<Rightarrow> ''00:00'' | Some c \<Rightarrow> c);
         month = (case in_fiscal_month i of None \<Rightarrow> 7 | Some m \<Rightarrow> m);
         day = (case in_fiscal_day i of None \<Rightarrow> 1 | Some d \<Rightarrow> d);
         week = (case in_week_start i of None \<Rightarrow> 1 | Some w \<Rightarrow> w)
     in and_then (parse_cutoff cutoff) (\<lambda>_.
        if month < 1 \<or> month > 12 then Inl INVALID_PARAMETER
        else if day < 1 \<or> day > days_in_month 2000 month then Inl INVALID_PARAMETER
        else if week < 1 \<or> week > 7 then Inl INVALID_PARAMETER
        else Inr \<lparr>timezone = in_timezone i, trading_day_cutoff = cutoff, fiscal_year_start_month = month,
                  fiscal_year_start_day = day, week_starts_on = week\<rparr>))"

definition calendar_as_input :: "tenant_calendar \<Rightarrow> calendar_input" where
  "calendar_as_input c =
     \<lparr>in_timezone = timezone c, in_cutoff = Some (trading_day_cutoff c),
      in_fiscal_month = Some (fiscal_year_start_month c), in_fiscal_day = Some (fiscal_year_start_day c),
      in_week_start = Some (week_starts_on c)\<rparr>"

section \<open>Instants\<close>

definition wall_epoch :: "wall_clock \<Rightarrow> int" where
  "wall_epoch w = utc_time (year_of (wall_date w)) (month_of (wall_date w) - 1) (day_of (wall_date w))
     (wall_hour w) (wall_minute w) (wall_second w)"

text \<open>The six correction attempts of \<open>zonedWallClockToUtc\<close>.\<close>

fun adjust_epoch :: "zone \<Rightarrow> string \<Rightarrow> int \<Rightarrow> nat \<Rightarrow> int \<Rightarrow> int compiled" where
  "adjust_epoch zone tz target 0 t = Inr t"
| "adjust_epoch zone tz target (Suc n) t =
     and_then (zoned_parts zone tz t) (\<lambda>observed.
       let delta = target - wall_epoch observed
       in if delta = 0 then Inr t else adjust_epoch zone tz target n (t + delta))"

definition zoned_wall_clock_to_utc :: "zone \<Rightarrow> wall_clock \<Rightarrow> string \<Rightarrow> int compiled" where
  "zoned_wall_clock_to_utc zone target tz =
     and_then (adjust_epoch zone tz (wall_epoch target) 6 (wall_epoch target)) (\<lambda>t.
     and_then (zoned_parts zone tz t) (\<lambda>observed.
       if wall_date observed \<noteq> wall_date target \<or> wall_hour observed \<noteq> wall_hour target \<or>
          wall_minute observed \<noteq> wall_minute target
       then Inl INVALID_PARAMETER else Inr t))"

definition cutoff_wall :: "date_parts \<Rightarrow> int \<times> int \<Rightarrow> wall_clock" where
  "cutoff_wall d c = \<lparr>wall_date = d, wall_hour = fst c, wall_minute = snd c, wall_second = 0\<rparr>"

definition range_from_business_dates ::
    "zone \<Rightarrow> date_parts \<Rightarrow> date_parts \<Rightarrow> tenant_calendar \<Rightarrow> resolved_range compiled" where
  "range_from_business_dates zone start stop cal =
     and_then (parse_cutoff (trading_day_cutoff cal)) (\<lambda>cutoff.
     and_then (zoned_wall_clock_to_utc zone (cutoff_wall start cutoff) (timezone cal)) (\<lambda>from.
     and_then (zoned_wall_clock_to_utc zone (cutoff_wall stop cutoff) (timezone cal)) (\<lambda>to.
       Inr \<lparr>range_from = iso_string from, range_to = iso_string to,
            from_business_date = format_date start, to_business_date = format_date stop\<rparr>)))"

definition business_date_for_instant :: "zone \<Rightarrow> int \<Rightarrow> tenant_calendar \<Rightarrow> date_parts compiled" where
  "business_date_for_instant zone t cal =
     and_then (zoned_parts zone (timezone cal) t) (\<lambda>w.
     and_then (parse_cutoff (trading_day_cutoff cal)) (\<lambda>cutoff.
       Inr (if wall_hour w * 60 + wall_minute w < fst cutoff * 60 + snd cutoff
            then add_days (wall_date w) (- 1) else wall_date w)))"

section \<open>Ranges\<close>

definition start_of_week :: "date_parts \<Rightarrow> tenant_calendar \<Rightarrow> date_parts" where
  "start_of_week d cal =
     (let iso_weekday = (utc_weekday (day_number d) + 6) mod 7 + 1;
          offset = (iso_weekday - week_starts_on cal + 7) mod 7
      in add_days d (- offset))"

definition fiscal_year_start :: "date_parts \<Rightarrow> tenant_calendar \<Rightarrow> date_parts" where
  "fiscal_year_start d cal =
     (let candidate = safe_date (year_of d) (fiscal_year_start_month cal) (fiscal_year_start_day cal)
      in if compare_dates d candidate \<ge> 0 then candidate
         else safe_date (year_of d - 1) (fiscal_year_start_month cal) (fiscal_year_start_day cal))"

fun last_quarter :: "date_parts \<Rightarrow> date_parts \<Rightarrow> date_parts \<Rightarrow> int list \<Rightarrow> date_parts" where
  "last_quarter start d quarter [] = quarter"
| "last_quarter start d quarter (m # ms) =
     (let candidate = add_months start m
      in if compare_dates candidate d > 0 then quarter else last_quarter start d candidate ms)"

definition fiscal_quarter_start :: "date_parts \<Rightarrow> tenant_calendar \<Rightarrow> date_parts" where
  "fiscal_quarter_start d cal =
     (let start = fiscal_year_start d cal in last_quarter start d start [3, 6, 9])"

definition relative_bounds :: "time_range \<Rightarrow> date_parts \<Rightarrow> tenant_calendar \<Rightarrow> (date_parts \<times> date_parts) option" where
  "relative_bounds r today cal =
     (let month_start = Date_parts (year_of today) (month_of today) 1;
          week_start = start_of_week today cal;
          quarter_start = fiscal_quarter_start today cal;
          year_start = fiscal_year_start today cal
      in case r of
           Absolute _ _ \<Rightarrow> None
         | Today \<Rightarrow> Some (today, add_days today 1)
         | Yesterday \<Rightarrow> Some (add_days today (- 1), today)
         | Last_n_days n \<Rightarrow> Some (add_days today (- (n - 1)), add_days today 1)
         | Last_n_complete_days n \<Rightarrow> Some (add_days today (- n), today)
         | Month_to_date \<Rightarrow> Some (month_start, add_days today 1)
         | Quarter_to_date \<Rightarrow> Some (quarter_start, add_days today 1)
         | Year_to_date \<Rightarrow> Some (year_start, add_days today 1)
         | Last_complete_week \<Rightarrow> Some (add_days week_start (- 7), week_start)
         | Last_complete_month \<Rightarrow> Some (add_months month_start (- 1), month_start)
         | Last_n_complete_weeks n \<Rightarrow> Some (add_days week_start (- 7 * n), week_start)
         | Last_n_complete_months n \<Rightarrow> Some (add_months month_start (- n), month_start)
         | Last_complete_quarter \<Rightarrow> Some (add_months quarter_start (- 3), quarter_start)
         | Last_complete_year \<Rightarrow> Some (add_years year_start (- 1), year_start))"

definition resolve_tenant_time_range ::
    "zone \<Rightarrow> (string \<Rightarrow> int option) \<Rightarrow> time_range \<Rightarrow> string \<Rightarrow> tenant_calendar \<Rightarrow> resolved_range compiled" where
  "resolve_tenant_time_range zone date_parse r now_value calendar =
     (case date_parse now_value of None \<Rightarrow> Inl INVALID_IR | Some now \<Rightarrow>
      and_then (normalize_tenant_calendar zone (calendar_as_input calendar)) (\<lambda>cal.
      case r of
        Absolute f t \<Rightarrow>
          (case (date_parse f, date_parse t) of
             (Some from, Some to) \<Rightarrow>
               if to \<le> from then Inl INVALID_IR
               else and_then (business_date_for_instant zone from cal) (\<lambda>from_date.
                    and_then (business_date_for_instant zone to cal) (\<lambda>to_date.
                      Inr \<lparr>range_from = iso_string from, range_to = iso_string to,
                           from_business_date = format_date from_date, to_business_date = format_date to_date\<rparr>))
           | _ \<Rightarrow> Inl INVALID_IR)
      | _ \<Rightarrow>
          and_then (business_date_for_instant zone now cal) (\<lambda>today.
            case relative_bounds r today cal of
              None \<Rightarrow> Inl INVALID_IR
            | Some b \<Rightarrow> range_from_business_dates zone (fst b) (snd b) cal)))"

definition shift_back :: "compare_mode \<Rightarrow> date_parts \<Rightarrow> date_parts" where
  "shift_back mode d = (case mode of Prior_week \<Rightarrow> add_days d (- 7) | Prior_month \<Rightarrow> add_months d (- 1)
     | Prior_year \<Rightarrow> add_years d (- 1))"

text \<open>\<open>Math.round(a / b)\<close> for integers.\<close>

definition round_div :: "int \<Rightarrow> int \<Rightarrow> int" where
  "round_div a b = (2 * a + b) div (2 * b)"

definition comparison_bounds :: "compare_mode \<Rightarrow> date_parts \<Rightarrow> date_parts \<Rightarrow> date_parts \<times> date_parts" where
  "comparison_bounds mode current_start current_end =
     (let shifted_start = shift_back mode current_start
      in (shifted_start, add_days shifted_start (round_div (compare_dates current_end current_start) ms_per_day)))"

definition resolve_comparison_time_range ::
    "zone \<Rightarrow> resolved_range \<Rightarrow> compare_mode \<Rightarrow> tenant_calendar \<Rightarrow> resolved_range compiled" where
  "resolve_comparison_time_range zone current mode calendar =
     and_then (normalize_tenant_calendar zone (calendar_as_input calendar)) (\<lambda>cal.
     and_then (parse_date (from_business_date current)) (\<lambda>current_start.
     and_then (parse_date (to_business_date current)) (\<lambda>current_end.
       let b = comparison_bounds mode current_start current_end
       in range_from_business_dates zone (fst b) (snd b) cal)))"

definition shift_range_start_by_days ::
    "zone \<Rightarrow> resolved_range \<Rightarrow> int \<Rightarrow> tenant_calendar \<Rightarrow> resolved_range compiled" where
  "shift_range_start_by_days zone r days calendar =
     (if days < 1 \<or> days > 3660 then Inl INVALID_PARAMETER
      else and_then (normalize_tenant_calendar zone (calendar_as_input calendar)) (\<lambda>cal.
           and_then (parse_date (to_business_date r)) (\<lambda>stop.
             range_from_business_dates zone (add_days stop (- days)) stop cal)))"

section \<open>Lemmas on dates\<close>

lemma add_days_number: "valid_date d \<Longrightarrow> add_days d n = civil_date (day_number d + n)"
  by (simp add: add_days_def day_number_def utc_day_def Let_def algebra_simps)

lemma add_days_valid:
  assumes "valid_date d" "days_from_year 100 \<le> day_number d + n"
  shows "valid_date (add_days d n)" "day_number (add_days d n) = day_number d + n"
  using assms by (simp_all add: add_days_number civil.shift_valid civil.shift_number)

lemma add_days_zero [simp]: "valid_date d \<Longrightarrow> add_days d 0 = d"
  using civil.shift_zero [of d] by (simp add: add_days_number)

lemma days_in_month_length:
  assumes "100 \<le> y" "1 \<le> m" "m \<le> 12"
  shows "days_in_month y m = month_length (leap y) m"
proof -
  let ?d = "Date_parts y m (month_length (leap y) m)"
  have v: "valid_date ?d" using assms month_length_range [of m "leap y"] by (simp add: valid_date_def)
  have "utc_day y m 0 = day_number ?d"
  proof (cases "m = 12")
    case True
    have "(12::int) div 12 = 1" "(12::int) mod 12 = 0" by simp_all
    then show ?thesis
      using True assms days_from_year_Suc [of y] day_number_valid [OF v]
      by (simp add: utc_day_def full_year_def month_length_def month_start_12 month_start_def)
  next
    case False
    then have "m div 12 = 0" "m mod 12 = m" using assms by simp_all
    then show ?thesis
      using assms day_number_valid [OF v] by (simp add: utc_day_def full_year_def month_length_def)
  qed
  then show ?thesis by (simp add: days_in_month_def civil_date_day_number [OF v])
qed

lemma safe_date_valid:
  "100 \<le> y \<Longrightarrow> 1 \<le> m \<Longrightarrow> m \<le> 12 \<Longrightarrow> 1 \<le> d \<Longrightarrow> valid_date (safe_date y m d)"
  using month_length_range [of m "leap y"] by (auto simp: valid_date_def safe_date_def days_in_month_length)

lemma safe_date_sel [simp]: "year_of (safe_date y m d) = y" "month_of (safe_date y m d) = m"
  by (simp_all add: safe_date_def)

definition month_count :: "date_parts \<Rightarrow> int" where
  "month_count d = year_of d * 12 + month_of d - 1"

lemma month_count_less:
  assumes "valid_date a" "valid_date b" "month_count a < month_count b"
  shows "a < b"
  using assms by (auto simp: month_count_def valid_date_def less_date_parts_def)

lemma month_count_add_months [simp]: "month_count (add_months d n) = month_count d + n"
  by (simp add: month_count_def add_months_def Let_def)

lemma add_months_valid:
  assumes "valid_date d" "1200 \<le> month_count d + n"
  shows "valid_date (add_months d n)"
proof -
  let ?i = "year_of d * 12 + month_of d - 1 + n"
  have "1200 div 12 \<le> ?i div 12" using assms(2) unfolding month_count_def by (rule zdiv_mono1) simp
  then have "100 \<le> ?i div 12" by simp
  moreover have "0 \<le> ?i mod 12" "?i mod 12 < 12" by simp_all
  then have "1 \<le> ?i mod 12 + 1" "?i mod 12 + 1 \<le> 12" by linarith+
  moreover have "1 \<le> day_of d" using assms(1) by (simp add: valid_date_def)
  ultimately show ?thesis unfolding add_months_def Let_def by (rule safe_date_valid)
qed

lemma add_years_valid: "valid_date d \<Longrightarrow> 100 \<le> year_of d + n \<Longrightarrow> valid_date (add_years d n)"
  unfolding add_years_def by (rule safe_date_valid) (auto simp: valid_date_def)

lemma compare_dates_sign:
  assumes "valid_date a" "valid_date b"
  shows "compare_dates a b < 0 \<longleftrightarrow> a < b" "compare_dates a b > 0 \<longleftrightarrow> b < a" "compare_dates a b \<ge> 0 \<longleftrightarrow> b \<le> a"
  using civil.number_less_iff [OF assms] civil.number_less_iff [OF assms(2,1)] civil.number_le_iff [OF assms(2,1)]
  by (simp_all add: compare_dates_def ms_per_day_def)


section \<open>Weeks, quarters and years\<close>

definition calendar_ok :: "tenant_calendar \<Rightarrow> bool" where
  "calendar_ok c \<longleftrightarrow> 1 \<le> fiscal_year_start_month c \<and> fiscal_year_start_month c \<le> 12 \<and>
     1 \<le> fiscal_year_start_day c \<and> 1 \<le> week_starts_on c \<and> week_starts_on c \<le> 7"

definition iso_weekday :: "date_parts \<Rightarrow> int" where
  "iso_weekday d = (utc_weekday (day_number d) + 6) mod 7 + 1"

lemma normalize_calendar_ok:
  "normalize_tenant_calendar zone i = Inr c \<Longrightarrow> calendar_ok c \<and>
     (\<exists>cut. parse_cutoff (trading_day_cutoff c) = Inr cut)"
  by (auto simp: normalize_tenant_calendar_def and_then_Inr_iff Let_def calendar_ok_def split: if_splits)

lemma normalize_calendar_same:
  "normalize_tenant_calendar zone (calendar_as_input c) = Inr c' \<Longrightarrow> c' = c"
  by (auto simp: normalize_tenant_calendar_def calendar_as_input_def and_then_Inr_iff Let_def split: if_splits)

lemma first_day_number: "valid_date d \<Longrightarrow> 1000 \<le> year_of d \<Longrightarrow> days_from_year 100 + 100000 \<le> day_number d"
  using day_number_year [of d] days_from_year_mono [of 100 "year_of d"] by simp

lemma start_of_week_number:
  assumes "valid_date d" "1000 \<le> year_of d" "calendar_ok c"
  shows "valid_date (start_of_week d c) \<and> day_number (start_of_week d c) \<le> day_number d \<and>
    day_number d < day_number (start_of_week d c) + 7 \<and> iso_weekday (start_of_week d c) = week_starts_on c"
proof -
  let ?w = "iso_weekday d"
  let ?o = "(?w - week_starts_on c + 7) mod 7"
  have o: "0 \<le> ?o" "?o < 7" by simp_all
  note first = first_day_number [OF assms(1,2)]
  have e: "start_of_week d c = add_days d (- ?o)" by (simp only: start_of_week_def iso_weekday_def Let_def)
  have "days_from_year 100 \<le> day_number d + - ?o" using first o by linarith
  from add_days_valid [OF assms(1) this]
  have v: "valid_date (start_of_week d c)" "day_number (start_of_week d c) = day_number d - ?o"
    unfolding e by simp_all
  have "(day_number d - ?o + 4 + 6) mod 7 + 1 = week_starts_on c"
  proof -
    have "?w = (day_number d + 10) mod 7 + 1"
      by (simp add: iso_weekday_def utc_weekday_def mod_simps add.commute)
    then have "(day_number d - ?o + 4 + 6) mod 7 = (week_starts_on c - 1) mod 7"
      using mod_add_self2 [of "week_starts_on c - 8" 7] by (simp add: mod_simps algebra_simps)
    then show ?thesis using assms(3) by (simp add: calendar_ok_def)
  qed
  then have "iso_weekday (start_of_week d c) = week_starts_on c"
    by (simp add: iso_weekday_def utc_weekday_def v(2) mod_simps)
  with v o show ?thesis by simp
qed

lemma fiscal_year_start_bounds:
  assumes "valid_date d" "1000 \<le> year_of d" "calendar_ok c"
  shows "valid_date (fiscal_year_start d c) \<and> fiscal_year_start d c \<le> d \<and>
    d < safe_date (year_of (fiscal_year_start d c) + 1) (fiscal_year_start_month c) (fiscal_year_start_day c) \<and>
    year_of d - 1 \<le> year_of (fiscal_year_start d c)"
proof -
  let ?f = "\<lambda>y. safe_date y (fiscal_year_start_month c) (fiscal_year_start_day c)"
  have v: "valid_date (?f y)" if "100 \<le> y" for y
    using that assms(3) by (intro safe_date_valid) (simp_all add: calendar_ok_def)
  have later: "d < ?f (year_of d + 1)" "?f (year_of d - 1) < d"
    by (simp_all add: less_date_parts_def)
  show ?thesis
  proof (cases "?f (year_of d) \<le> d")
    case True
    then show ?thesis
      using v [of "year_of d"] assms later compare_dates_sign(3) [OF assms(1) v [of "year_of d"]]
      by (simp add: fiscal_year_start_def)
  next
    case False
    then have "fiscal_year_start d c = ?f (year_of d - 1)"
      using compare_dates_sign(3) [OF assms(1) v [of "year_of d"]] assms(2)
      by (simp add: fiscal_year_start_def Let_def)
    then show ?thesis
      using v [of "year_of d - 1"] assms later False by (simp add: not_le less_imp_le)
  qed
qed

lemma last_quarter_bounds:
  assumes "valid_date d" "valid_date start" "1200 \<le> month_count start" "quarter \<le> d" "valid_date quarter"
    and "\<forall>m \<in> set ms. 0 \<le> m" "year_of d - 1 \<le> year_of quarter" "\<forall>m \<in> set ms. month_count quarter \<le> month_count start + m"
    and "sorted_wrt (\<le>) ms"
  shows "valid_date (last_quarter start d quarter ms) \<and> last_quarter start d quarter ms \<le> d \<and>
    year_of d - 1 \<le> year_of (last_quarter start d quarter ms)"
  using assms
proof (induction ms arbitrary: quarter)
  case (Cons m ms)
  have v: "valid_date (add_months start m)" using Cons.prems by (intro add_months_valid) simp_all
  show ?case
  proof (cases "compare_dates (add_months start m) d > 0")
    case True
    then show ?thesis using Cons.prems by (simp add: Let_def)
  next
    case False
    then have le: "add_months start m \<le> d"
      using compare_dates_sign(2) [OF v Cons.prems(1)] by simp
    have "year_of quarter \<le> year_of (add_months start m)"
      using Cons.prems(5,8) v month_count_add_months [of start m]
      unfolding month_count_def valid_date_def by fastforce
    then show ?thesis
      using False le Cons.IH [of "add_months start m"] v Cons.prems by (simp add: Let_def)
  qed
qed simp

lemma fiscal_quarter_start_bounds:
  assumes "valid_date d" "1000 \<le> year_of d" "calendar_ok c"
  shows "valid_date (fiscal_quarter_start d c) \<and> fiscal_quarter_start d c \<le> d \<and>
    year_of d - 1 \<le> year_of (fiscal_quarter_start d c)"
proof -
  note y = fiscal_year_start_bounds [OF assms]
  have "1200 \<le> month_count (fiscal_year_start d c)"
    using y assms by (simp add: month_count_def valid_date_def)
  then show ?thesis unfolding fiscal_quarter_start_def Let_def
    using y assms by (intro last_quarter_bounds) simp_all
qed


section \<open>Relative ranges\<close>

text \<open>The bounds of the range schema.\<close>

fun range_ok :: "time_range \<Rightarrow> bool" where
  "range_ok (Absolute _ _) = False"
| "range_ok (Last_n_days n) = (1 \<le> n \<and> n \<le> 366)"
| "range_ok (Last_n_complete_days n) = (1 \<le> n \<and> n \<le> 366)"
| "range_ok (Last_n_complete_weeks n) = (1 \<le> n \<and> n \<le> 53)"
| "range_ok (Last_n_complete_months n) = (1 \<le> n \<and> n \<le> 24)"
| "range_ok _ = True"

text \<open>How many days a range covers, where it says so, and whether it runs up to today.\<close>

fun range_days :: "time_range \<Rightarrow> int option" where
  "range_days Today = Some 1"
| "range_days Yesterday = Some 1"
| "range_days (Last_n_days n) = Some n"
| "range_days (Last_n_complete_days n) = Some n"
| "range_days Last_complete_week = Some 7"
| "range_days (Last_n_complete_weeks n) = Some (7 * n)"
| "range_days _ = None"

fun to_date :: "time_range \<Rightarrow> bool" where
  "to_date Today = True"
| "to_date (Last_n_days n) = True"
| "to_date Month_to_date = True"
| "to_date Quarter_to_date = True"
| "to_date Year_to_date = True"
| "to_date _ = False"

lemma day_number_le: "valid_date a \<Longrightarrow> valid_date b \<Longrightarrow> a \<le> b \<Longrightarrow> day_number a \<le> day_number b"
  by (simp add: civil.number_le_iff)

lemma day_number_months:
  assumes "valid_date d" "1200 \<le> month_count d - n" "0 < n"
  shows "valid_date (add_months d (- n)) \<and> day_number (add_months d (- n)) < day_number d"
proof -
  have v: "valid_date (add_months d (- n))" using assms by (intro add_months_valid) simp_all
  moreover have "add_months d (- n) < d" using v assms by (intro month_count_less) simp_all
  ultimately show ?thesis using assms(1) civil.number_mono by blast
qed

lemma day_number_year_back:
  assumes "valid_date d" "101 \<le> year_of d"
  shows "valid_date (add_years d (- 1)) \<and> day_number (add_years d (- 1)) < day_number d"
proof -
  have v: "valid_date (add_years d (- 1))" using assms by (intro add_years_valid) simp_all
  moreover have "add_years d (- 1) < d" by (simp add: less_date_parts_def add_years_def)
  ultimately show ?thesis using assms(1) civil.number_mono by blast
qed

lemma relative_bounds_shape:
  assumes today: "valid_date today" "1000 \<le> year_of today" and cal: "calendar_ok cal" and r: "range_ok r"
  shows "\<exists>s e. relative_bounds r today cal = Some (s, e) \<and> valid_date s \<and> valid_date e \<and>
    day_number s < day_number e \<and> (case range_days r of None \<Rightarrow> True | Some n \<Rightarrow> day_number e - day_number s = n) \<and>
    (if to_date r then day_number e = day_number today + 1 \<and> day_number s \<le> day_number today
     else day_number e \<le> day_number today)"
proof -
  let ?m = "Date_parts (year_of today) (month_of today) 1"
  let ?w = "start_of_week today cal" and ?q = "fiscal_quarter_start today cal" and ?y = "fiscal_year_start today cal"
  note first = first_day_number [OF today]
  note w = start_of_week_number [OF today cal]
  note q = fiscal_quarter_start_bounds [OF today cal]
  note y = fiscal_year_start_bounds [OF today cal]
  have m: "valid_date ?m" "?m \<le> today"
    using today month_length_range [of "month_of today" "leap (year_of today)"]
    by (auto simp: valid_date_def less_eq_date_parts_def)
  have before: "day_number ?m \<le> day_number today" "day_number ?q \<le> day_number today" "day_number ?y \<le> day_number today"
    using m q y today(1) by (auto intro!: day_number_le)
  have counts: "2000 \<le> month_count ?m" "2000 \<le> month_count ?q" "101 \<le> year_of ?y"
    using m q y today by (auto simp: month_count_def valid_date_def)
  have near: "valid_date (add_days today n) \<and> day_number (add_days today n) = day_number today + n" if "- 400 \<le> n" for n
    using add_days_valid [OF today(1), of n] first that by simp
  have near_week: "valid_date (add_days ?w n) \<and> day_number (add_days ?w n) = day_number ?w + n" if "- 400 \<le> n" for n
    using add_days_valid [of ?w n] w first that by simp
  show ?thesis
    using r near near_week before m q y w today day_number_months [of ?m] day_number_months [of ?q 3]
      day_number_year_back [of ?y] counts
    by (cases r) (simp_all add: relative_bounds_def Let_def)
qed


section \<open>Printed dates\<close>

lemma length_string_of_nat_lower: "10 ^ k \<le> n \<Longrightarrow> k < length (string_of_nat n)"
  using nat_of_digits_bound [OF string_of_nat_digits [of n]] by simp (metis le_less_trans nat_power_less_imp_less not_le zero_less_numeral power_increasing one_le_numeral order_trans leD)

lemma pad2_props: "0 \<le> i \<Longrightarrow> i \<le> 99 \<Longrightarrow> length (pad2 i) = 2 \<and> list_all is_digit (pad2 i) \<and> nat_of_digits (pad2 i) = nat i"
  using length_string_of_nat [of "nat i" 2] string_of_nat_digits [of "nat i"]
  by (simp add: pad2_def string_of_int_def list_all_pad_start)

lemma year_props:
  assumes "1000 \<le> y" "y \<le> 9999"
  shows "length (string_of_int y) = 4 \<and> list_all is_digit (string_of_int y) \<and> nat_of_digits (string_of_int y) = nat y"
proof -
  have "1000 \<le> nat y" "nat y < 10000" using assms by simp_all
  then have "length (string_of_nat (nat y)) = 4"
    using length_string_of_nat [of "nat y" 4] length_string_of_nat_lower [of 3 "nat y"] by simp
  then show ?thesis using assms string_of_nat_digits [of "nat y"] by (simp add: string_of_int_def)
qed

lemma parse_format_date:
  assumes "valid_date d" "1000 \<le> year_of d" "year_of d \<le> 9999"
  shows "parse_date (format_date d) = Inr d"
proof -
  have md: "0 \<le> month_of d" "month_of d \<le> 99" "0 \<le> day_of d" "day_of d \<le> 99"
    using assms month_length_range [of "month_of d" "leap (year_of d)"] by (auto simp: valid_date_def)
  obtain a where a: "string_of_int (year_of d) = a" "length a = 4" "list_all is_digit a" "nat_of_digits a = nat (year_of d)"
    using year_props [OF assms(2,3)] by blast
  obtain b where b: "pad2 (month_of d) = b" "length b = 2" "list_all is_digit b" "nat_of_digits b = nat (month_of d)"
    using pad2_props [OF md(1,2)] by blast
  obtain c where c: "pad2 (day_of d) = c" "length c = 2" "list_all is_digit c" "nat_of_digits c = nat (day_of d)"
    using pad2_props [OF md(3,4)] by blast
  show ?thesis
    using assms md by (simp add: parse_date_def format_date_def a b c nth_append)
qed

section \<open>Comparison ranges\<close>

lemma round_div_exact: "0 < b \<Longrightarrow> round_div (a * b) b = a"
  using int_div_pos_eq [of "2 * (a * b) + b" "2 * b" a b] by (simp add: round_div_def)

lemma shift_back_valid:
  assumes "valid_date d" "1000 \<le> year_of d"
  shows "valid_date (shift_back mode d) \<and> day_number (shift_back mode d) < day_number d"
proof (cases mode)
  case Prior_week
  then show ?thesis
    using add_days_valid [OF assms(1), of "- 7"] first_day_number [OF assms] by (simp add: shift_back_def)
next
  case Prior_month
  then show ?thesis
    using day_number_months [OF assms(1), of 1] assms by (simp add: shift_back_def month_count_def valid_date_def)
next
  case Prior_year
  then show ?thesis using day_number_year_back [OF assms(1)] assms by (simp add: shift_back_def)
qed

lemma comparison_bounds_length:
  assumes "valid_date s" "valid_date e" "1000 \<le> year_of s" "s \<le> e" "comparison_bounds mode s e = (s', e')"
  shows "valid_date s' \<and> valid_date e' \<and> s' = shift_back mode s \<and> day_number s' < day_number s \<and>
    day_number e' - day_number s' = day_number e - day_number s"
proof -
  note sb = shift_back_valid [OF assms(1,3), of mode]
  have "compare_dates e s = (day_number e - day_number s) * ms_per_day"
    by (simp add: compare_dates_def algebra_simps)
  then have "round_div (compare_dates e s) ms_per_day = day_number e - day_number s"
    using round_div_exact [of ms_per_day "day_number e - day_number s"] by (simp add: ms_per_day_def)
  then have e': "s' = shift_back mode s" "e' = add_days s' (day_number e - day_number s)"
    using assms(5) by (auto simp: comparison_bounds_def Let_def)
  have "days_from_year 100 \<le> day_number s' + (day_number e - day_number s)"
    using sb e' civil.start_le [of s'] day_number_le [OF assms(1,2,4)] by simp
  with sb e' add_days_valid [of s' "day_number e - day_number s"] show ?thesis by simp
qed

section \<open>Wall clocks\<close>

definition wall_at :: "int \<Rightarrow> wall_clock" where
  "wall_at u =
     (let r = u mod ms_per_day
      in \<lparr>wall_date = civil_date (u div ms_per_day), wall_hour = r div 3600000,
          wall_minute = r div 60000 mod 60, wall_second = r div 1000 mod 60\<rparr>)"

definition first_instant :: int where
  "first_instant = days_from_year 100 * ms_per_day"

text \<open>The clock shows whole seconds.\<close>

lemma seconds_parts:
  "(r::int) div 3600000 * 3600000 + r div 60000 mod 60 * 60000 + r div 1000 mod 60 * 1000 = r div 1000 * 1000"
proof -
  have "r div 60000 = r div 1000 div 60" "r div 3600000 = r div 1000 div 60 div 60"
    using zdiv_zmult2_eq [of 60 r 1000] zdiv_zmult2_eq [of 60 "r" 60000] by simp_all
  moreover have "r div 1000 div 60 div 60 * 3600000 + r div 1000 div 60 mod 60 * 60000 + r div 1000 mod 60 * 1000 =
      r div 1000 * 1000"
    using div_mult_mod_eq [of "r div 1000" 60] div_mult_mod_eq [of "r div 1000 div 60" 60] by linarith
  ultimately show ?thesis by simp
qed

lemma wall_epoch_wall_at:
  assumes "first_instant \<le> u"
  shows "wall_epoch (wall_at u) = u div 1000 * 1000"
proof -
  let ?d = "u div ms_per_day" and ?r = "u mod ms_per_day"
  have "days_from_year 100 \<le> ?d"
    using assms by (simp add: first_instant_def ms_per_day_def le_div_int_iff)
  then have n: "utc_day (year_of (civil_date ?d)) (month_of (civil_date ?d) - 1) (day_of (civil_date ?d)) = ?d"
    using civil.number_date [of ?d] by (simp add: day_number_def)
  have "u = (?d * 86400) * 1000 + ?r" using div_mult_mod_eq [of u ms_per_day] by (simp add: ms_per_day_def)
  then have "u div 1000 = ?d * 86400 + ?r div 1000" by (metis div_mult_self3 add.commute zero_neq_numeral)
  moreover have "wall_epoch (wall_at u) = ?d * ms_per_day +
      (?r div 3600000 * 3600000 + ?r div 60000 mod 60 * 60000 + ?r div 1000 mod 60 * 1000)"
    by (simp add: wall_epoch_def wall_at_def utc_time_def Let_def n)
  ultimately show ?thesis unfolding seconds_parts by (simp add: ms_per_day_def)
qed

lemma wall_at_parts:
  "0 \<le> wall_hour (wall_at u)" "wall_hour (wall_at u) < 24" "0 \<le> wall_minute (wall_at u)" "wall_minute (wall_at u) < 60"
proof -
  have r: "0 \<le> u mod ms_per_day" "u mod ms_per_day < 86400000" by (simp_all add: ms_per_day_def)
  have "u mod ms_per_day div 3600000 < 24"
    using r div_bounds [of 3600000 "u mod ms_per_day"] by linarith
  moreover have "0 \<le> u mod ms_per_day div 3600000" using r by (simp add: pos_imp_zdiv_nonneg_iff)
  ultimately show "0 \<le> wall_hour (wall_at u)" "wall_hour (wall_at u) < 24" "0 \<le> wall_minute (wall_at u)" "wall_minute (wall_at u) < 60"
    by (simp_all add: wall_at_def Let_def)
qed

text \<open>A cutoff wall clock is the wall clock of its epoch.\<close>

lemma wall_at_cutoff:
  assumes "valid_date d" "0 \<le> h" "h \<le> 23" "0 \<le> m" "m \<le> 59"
  shows "wall_at (wall_epoch (cutoff_wall d (h, m))) = cutoff_wall d (h, m)"
    "wall_epoch (cutoff_wall d (h, m)) = day_number d * ms_per_day + (h * 60 + m) * 60000"
proof -
  let ?r = "h * 3600000 + m * 60000"
  have r: "0 \<le> ?r" "?r < ms_per_day" using assms by (simp_all add: ms_per_day_def)
  show e: "wall_epoch (cutoff_wall d (h, m)) = day_number d * ms_per_day + (h * 60 + m) * 60000"
    by (simp add: wall_epoch_def cutoff_wall_def utc_time_def day_number_def)
  have u: "day_number d * ms_per_day + (h * 60 + m) * 60000 = ms_per_day * day_number d + ?r" by simp
  have parts: "wall_epoch (cutoff_wall d (h, m)) div ms_per_day = day_number d"
      "wall_epoch (cutoff_wall d (h, m)) mod ms_per_day = ?r"
    unfolding e u using int_div_pos_eq [OF refl r] int_mod_pos_eq [OF refl r] by simp_all
  have "?r div 3600000 = h"
    using int_div_pos_eq [of ?r 3600000 h "m * 60000"] assms by simp
  moreover have "?r div 60000 = h * 60 + m"
    using int_div_pos_eq [of ?r 60000 "h * 60 + m" 0] by simp
  moreover have "(h * 60 + m) mod 60 = m" using assms by simp
  moreover have "?r div 1000 mod 60 = 0"
    using int_div_pos_eq [of ?r 1000 "(h * 60 + m) * 60" 0] by simp
  ultimately show "wall_at (wall_epoch (cutoff_wall d (h, m))) = cutoff_wall d (h, m)"
    unfolding wall_at_def Let_def parts by (simp add: civil_date_day_number [OF assms(1)] cutoff_wall_def)
qed


section \<open>Resolving a wall clock\<close>

text \<open>A time zone with at most one transition, at instant \<open>x\<close>, from offset \<open>a\<close> to offset \<open>b\<close>, both of
  whole minutes and at most a day: what \<open>Intl\<close> shows around a daylight-saving change.\<close>

definition offset_at :: "int \<Rightarrow> int \<Rightarrow> int \<Rightarrow> int \<Rightarrow> int" where
  "offset_at x a b t = (if t < x then a else b)"

definition offset_zone :: "int \<Rightarrow> int \<Rightarrow> int \<Rightarrow> zone" where
  "offset_zone x a b tz t = Some (wall_at (t + offset_at x a b t))"

definition offset_ok :: "int \<Rightarrow> bool" where
  "offset_ok a \<longleftrightarrow> 60000 dvd a \<and> - ms_per_day \<le> a \<and> a \<le> ms_per_day"

lemma wall_at_whole_minute:
  assumes "60000 dvd u"
  shows "wall_second (wall_at u) = 0"
proof -
  have "60000 dvd u mod ms_per_day" using assms by (simp add: ms_per_day_def dvd_mod)
  then obtain k where "u mod ms_per_day = 60000 * k" by (elim dvdE)
  then have "u mod ms_per_day div 1000 = 60 * k" using int_div_pos_eq [of "60000 * k" 1000 "60 * k" 0] by simp
  then show ?thesis by (simp add: wall_at_def Let_def)
qed

lemma wall_epoch_whole_minute:
  "60000 dvd u \<Longrightarrow> first_instant \<le> u \<Longrightarrow> wall_epoch (wall_at u) = u"
proof -
  assume u: "60000 dvd u" "first_instant \<le> u"
  have "1000 dvd u" using u(1) by (rule dvd_trans [rotated]) simp
  then show ?thesis using wall_epoch_wall_at [OF u(2)] by simp
qed

lemma adjust_epoch_step:
  assumes "60000 dvd t" "offset_ok a" "offset_ok b" "first_instant + ms_per_day \<le> t"
  shows "adjust_epoch (offset_zone x a b) tz target (Suc n) t =
    (if t + offset_at x a b t = target then Inr t
     else adjust_epoch (offset_zone x a b) tz target n (target - offset_at x a b t))"
proof -
  have "60000 dvd t + offset_at x a b t" "first_instant \<le> t + offset_at x a b t"
    using assms by (auto simp: offset_at_def offset_ok_def)
  then have "wall_epoch (wall_at (t + offset_at x a b t)) = t + offset_at x a b t"
    by (rule wall_epoch_whole_minute)
  then show ?thesis by (simp add: zoned_parts_def offset_zone_def Let_def)
qed

lemma adjust_epoch_result:
  assumes off: "60000 dvd target" "offset_ok a" "offset_ok b" "first_instant + 2 * ms_per_day \<le> target"
  shows "\<exists>t. adjust_epoch (offset_zone x a b) tz target 6 target = Inr t \<and> t \<in> {target - a, target - b} \<and>
    ((\<exists>s. s + offset_at x a b s = target) \<longrightarrow> t + offset_at x a b t = target)"
proof -
  let ?run = "adjust_epoch (offset_zone x a b) tz target"
  let ?fix = "\<lambda>t. t + offset_at x a b t = target"
  have ok: "60000 dvd target - c" "first_instant + ms_per_day \<le> target - c" if "c \<in> {a, b}" for c
    using that off by (auto simp: offset_ok_def)
  have step: "?run (Suc n) (target - c) =
      (if ?fix (target - c) then Inr (target - c) else ?run n (target - offset_at x a b (target - c)))"
    if "c \<in> {a, b}" for n c
    using adjust_epoch_step [OF ok(1) off(2,3) ok(2)] that by blast
  have first: "?run 6 target = (if ?fix target then Inr target else ?run 5 (target - offset_at x a b target))"
    using adjust_epoch_step [of target a b x tz target 5] off by (simp add: ms_per_day_def numeral_eq_Suc)
  have in_ab: "offset_at x a b s \<in> {a, b}" for s by (simp add: offset_at_def)
  have sol: "?fix (target - a) \<or> ?fix (target - b)" if "?fix s" for s
  proof -
    have "s = target - offset_at x a b s" using that by simp
    with that in_ab [of s] show ?thesis by auto
  qed
  have run: "\<exists>t. ?run n (target - c) = Inr t \<and> t \<in> {target - a, target - b} \<and> (2 \<le> n \<longrightarrow> (\<exists>s. ?fix s) \<longrightarrow> ?fix t)"
    if "c \<in> {a, b}" for n c
    using that
  proof (induction n arbitrary: c)
    case (Suc n)
    show ?case
    proof (cases "?fix (target - c)")
      case True
      then show ?thesis using Suc.prems step [of c n] by auto
    next
      case False
      let ?c = "offset_at x a b (target - c)"
      from Suc.IH [OF in_ab [of "target - c"]] obtain t where
        t: "?run n (target - ?c) = Inr t" "t \<in> {target - a, target - b}" "2 \<le> n \<longrightarrow> (\<exists>s. ?fix s) \<longrightarrow> ?fix t"
        by blast
      have "?fix t" if "2 \<le> Suc n" "\<exists>s. ?fix s"
      proof (cases "2 \<le> n")
        case True
        with t(3) that(2) show ?thesis by blast
      next
        case other: False
        then have n: "n = 1" using that by simp
        have "?c \<noteq> c" using False by auto
        then have "{c, ?c} = {a, b}" using Suc.prems in_ab [of "target - c"] by auto
        then have "?fix (target - ?c)" using False sol that(2) by (auto simp: doubleton_eq_iff)
        then show ?thesis using t(1) step [OF in_ab [of "target - c"], of 0] n by simp
      qed
      with t step [OF Suc.prems, of n] False show ?thesis by auto
    qed
  qed auto
  show ?thesis
  proof (cases "?fix target")
    case True
    then have "target = target - offset_at x a b target" by simp
    then show ?thesis using True first in_ab [of target] by auto
  next
    case False
    then show ?thesis using first run [OF in_ab [of target], of 5] by auto
  qed
qed

lemma wall_clock_resolution_cases:
  assumes d: "valid_date d" "1000 \<le> year_of d" "0 \<le> h" "h \<le> 23" "0 \<le> m" "m \<le> 59" and off: "offset_ok a" "offset_ok b"
  shows "case zoned_wall_clock_to_utc (offset_zone x a b) (cutoff_wall d (h, m)) tz of
      Inr t \<Rightarrow> t + offset_at x a b t = wall_epoch (cutoff_wall d (h, m))
    | Inl e \<Rightarrow> e = INVALID_PARAMETER \<and> (\<forall>t. t + offset_at x a b t \<noteq> wall_epoch (cutoff_wall d (h, m)))"
proof -
  let ?w = "cutoff_wall d (h, m)" and ?T = "wall_epoch (cutoff_wall d (h, m))"
  note w = wall_at_cutoff [OF d(1,3-6)]
  have T: "60000 dvd ?T" unfolding w(2) by (simp add: ms_per_day_def)
  have "days_from_year 100 * ms_per_day + 100000 * ms_per_day \<le> day_number d * ms_per_day"
    using first_day_number [OF d(1,2)] by (simp add: ms_per_day_def)
  then have early: "first_instant + 3 * ms_per_day \<le> ?T"
    unfolding w(2) first_instant_def using d by (simp add: ms_per_day_def)
  obtain t where t: "adjust_epoch (offset_zone x a b) tz ?T 6 ?T = Inr t" "t \<in> {?T - a, ?T - b}"
      "(\<exists>s. s + offset_at x a b s = ?T) \<longrightarrow> t + offset_at x a b t = ?T"
    using adjust_epoch_result [OF T off, of x tz] early by (auto simp: ms_per_day_def)
  let ?u = "t + offset_at x a b t"
  have u: "60000 dvd ?u" "first_instant \<le> ?u"
    using t(2) off T early by (auto simp: offset_at_def offset_ok_def)
  have same: "?u = ?T" if "wall_date (wall_at ?u) = d" "wall_hour (wall_at ?u) = h" "wall_minute (wall_at ?u) = m"
  proof -
    have "wall_at ?u = ?w" using that wall_at_whole_minute [OF u(1)] by (simp add: cutoff_wall_def)
    then show ?thesis using wall_epoch_whole_minute [OF u] by simp
  qed
  show ?thesis
  proof (cases "?u = ?T")
    case True
    then have "wall_at ?u = ?w" using w(1) by simp
    then show ?thesis
      using True t(1) by (simp add: zoned_wall_clock_to_utc_def zoned_parts_def offset_zone_def cutoff_wall_def)
  next
    case False
    then show ?thesis
      using t(1,3) same by (auto simp: zoned_wall_clock_to_utc_def zoned_parts_def offset_zone_def cutoff_wall_def)
  qed
qed


section \<open>Business days\<close>

lemma wall_minute_of_day: "wall_hour (wall_at u) * 60 + wall_minute (wall_at u) = u mod ms_per_day div 60000"
proof -
  let ?r = "u mod ms_per_day"
  have "?r div 3600000 = ?r div 60000 div 60" using zdiv_zmult2_eq [of 60 ?r 60000] by simp
  then show ?thesis using div_mult_mod_eq [of "?r div 60000" 60] by (simp add: wall_at_def Let_def)
qed

text \<open>The number of the business day of an instant, for a fixed offset: the cutoff shifts the clock.\<close>

definition business_number :: "int \<Rightarrow> int \<Rightarrow> int \<Rightarrow> int \<Rightarrow> int" where
  "business_number a h m t = (t + a - (h * 60 + m) * 60000) div ms_per_day"

lemma business_number_split:
  assumes "0 \<le> h" "h \<le> 23" "0 \<le> m" "m \<le> 59"
  shows "business_number a h m t =
    (if (t + a) mod ms_per_day div 60000 < h * 60 + m then (t + a) div ms_per_day - 1 else (t + a) div ms_per_day)"
proof -
  let ?c = "h * 60 + m" and ?q = "(t + a) div ms_per_day" and ?r = "(t + a) mod ms_per_day"
  have c: "0 \<le> ?c" "?c < 1440" using assms by simp_all
  have r: "0 \<le> ?r" "?r < ms_per_day" by (simp_all add: ms_per_day_def)
  have eq: "t + a = ms_per_day * ?q + ?r" by simp
  have lt: "?r div 60000 < ?c \<longleftrightarrow> ?r < ?c * 60000"
    using div_bounds [of 60000 ?r] by auto
  show ?thesis
  proof (cases "?r < ?c * 60000")
    case True
    have e: "t + a - ?c * 60000 = ms_per_day * (?q - 1) + (?r - ?c * 60000 + ms_per_day)"
      using eq by (simp add: right_diff_distrib)
    have "0 \<le> ?r - ?c * 60000 + ms_per_day" "?r - ?c * 60000 + ms_per_day < ms_per_day"
      using True r c by (simp_all add: ms_per_day_def)
    from int_div_pos_eq [OF e this] have "business_number a h m t = ?q - 1"
      unfolding business_number_def .
    with True lt show ?thesis by simp
  next
    case False
    have e: "t + a - ?c * 60000 = ms_per_day * ?q + (?r - ?c * 60000)" using eq by simp
    have "0 \<le> ?r - ?c * 60000" "?r - ?c * 60000 < ms_per_day" using False r(2) c(1) by simp_all
    from int_div_pos_eq [OF e this] have "business_number a h m t = ?q"
      unfolding business_number_def .
    with False lt show ?thesis by simp
  qed
qed

lemma business_date_fixed_offset:
  assumes cut: "parse_cutoff (trading_day_cutoff cal) = Inr (h, m)" and hm: "0 \<le> h" "h \<le> 23" "0 \<le> m" "m \<le> 59"
    and t: "first_instant + 3 * ms_per_day \<le> t" and a: "offset_ok a"
  shows "business_date_for_instant (offset_zone x a a) t cal = Inr (civil_date (business_number a h m t))"
proof -
  let ?q = "(t + a) div ms_per_day"
  have "days_from_year 100 + 2 \<le> ?q"
    using t a by (simp add: le_div_int_iff ms_per_day_def first_instant_def offset_ok_def)
  then have "valid_date (civil_date ?q)" "day_number (civil_date ?q) = ?q"
    using civil.date_valid civil.number_date by simp_all
  then have "add_days (civil_date ?q) (- 1) = civil_date (?q - 1)" by (simp add: add_days_number)
  then show ?thesis
    using wall_minute_of_day [of "t + a"]
    by (simp add: business_date_for_instant_def zoned_parts_def offset_zone_def offset_at_def cut
        business_number_split [OF hm] wall_at_def Let_def)
qed

lemma parse_cutoff_range:
  "parse_cutoff s = Inr (h, m) \<Longrightarrow> 0 \<le> h \<and> h \<le> 23 \<and> 0 \<le> m \<and> m \<le> 59"
  by (auto simp: parse_cutoff_def Let_def split: if_splits)

section \<open>Properties\<close>

text \<open>C24. \<open>zonedWallClockToUtc\<close> on a cutoff wall clock, in a zone with at most one transition: its
  six attempts are enough to return an instant that shows this wall clock whenever one exists;
  it fails exactly when the transition skips the wall clock.\<close>

theorem wall_clock_resolution:
  assumes "valid_date d" "1000 \<le> year_of d" "0 \<le> h" "h \<le> 23" "0 \<le> m" "m \<le> 59" "offset_ok a" "offset_ok b"
  shows "case zoned_wall_clock_to_utc (offset_zone x a b) (cutoff_wall d (h, m)) tz of
      Inr t \<Rightarrow> t + offset_at x a b t = wall_epoch (cutoff_wall d (h, m))
    | Inl e \<Rightarrow> e = INVALID_PARAMETER \<and> (\<forall>t. t + offset_at x a b t \<noteq> wall_epoch (cutoff_wall d (h, m)))"
  by (rule wall_clock_resolution_cases [OF assms])

text \<open>Witness: daylight saving begins in Melbourne on 2024-10-06; 02:30 of that day is skipped.\<close>

theorem wall_clock_resolution_witness:
  "(case zoned_wall_clock_to_utc (offset_zone 1728144000000 36000000 39600000) (cutoff_wall (Date_parts 2024 10 6) (2, 30)) [] of
      Inr t \<Rightarrow> t + offset_at 1728144000000 36000000 39600000 t = wall_epoch (cutoff_wall (Date_parts 2024 10 6) (2, 30))
    | Inl e \<Rightarrow> e = INVALID_PARAMETER \<and>
        (\<forall>t. t + offset_at 1728144000000 36000000 39600000 t \<noteq> wall_epoch (cutoff_wall (Date_parts 2024 10 6) (2, 30)))) \<and>
   zoned_wall_clock_to_utc (offset_zone 1728144000000 36000000 39600000) (cutoff_wall (Date_parts 2024 10 6) (2, 30)) [] =
      Inl INVALID_PARAMETER"
proof
  have "valid_date (Date_parts 2024 10 6)" by code_simp
  moreover have "offset_ok 36000000" "offset_ok 39600000" by code_simp+
  ultimately show "case zoned_wall_clock_to_utc (offset_zone 1728144000000 36000000 39600000) (cutoff_wall (Date_parts 2024 10 6) (2, 30)) [] of
      Inr t \<Rightarrow> t + offset_at 1728144000000 36000000 39600000 t = wall_epoch (cutoff_wall (Date_parts 2024 10 6) (2, 30))
    | Inl e \<Rightarrow> e = INVALID_PARAMETER \<and>
        (\<forall>t. t + offset_at 1728144000000 36000000 39600000 t \<noteq> wall_epoch (cutoff_wall (Date_parts 2024 10 6) (2, 30)))"
    by (intro wall_clock_resolution) simp_all
  show "zoned_wall_clock_to_utc (offset_zone 1728144000000 36000000 39600000) (cutoff_wall (Date_parts 2024 10 6) (2, 30)) [] =
      Inl INVALID_PARAMETER"
    by code_simp
qed

text \<open>A relative range that the schema admits resolves to a non-empty half-open range of
  business dates: exactly as many days as it names, ending tomorrow when it runs to date and no
  later than today when it is complete.\<close>

theorem relative_range_shape:
  assumes "resolve_tenant_time_range zone date_parse r now cal = Inr res" "range_ok r"
    and "date_parse now = Some t" "business_date_for_instant zone t cal = Inr today"
    and "valid_date today" "1000 \<le> year_of today"
  shows "\<exists>s e. from_business_date res = format_date s \<and> to_business_date res = format_date e \<and>
    valid_date s \<and> valid_date e \<and> day_number s < day_number e \<and>
    (case range_days r of None \<Rightarrow> True | Some n \<Rightarrow> day_number e - day_number s = n) \<and>
    (if to_date r then day_number e = day_number today + 1 \<and> day_number s \<le> day_number today
     else day_number e \<le> day_number today)"
proof -
  obtain c where c: "normalize_tenant_calendar zone (calendar_as_input cal) = Inr c"
    using assms(1) by (auto simp: resolve_tenant_time_range_def and_then_Inr_iff split: option.splits)
  then have ok: "c = cal" "calendar_ok cal" using normalize_calendar_same normalize_calendar_ok by blast+
  from relative_bounds_shape [OF assms(5,6) ok(2) assms(2)] obtain s e where
    b: "relative_bounds r today cal = Some (s, e)" and shape: "valid_date s" "valid_date e" "day_number s < day_number e"
      "case range_days r of None \<Rightarrow> True | Some n \<Rightarrow> day_number e - day_number s = n"
      "if to_date r then day_number e = day_number today + 1 \<and> day_number s \<le> day_number today
       else day_number e \<le> day_number today" by blast
  have "range_from_business_dates zone s e cal = Inr res"
    using assms(1-4) b c ok(1) by (cases r) (simp_all add: resolve_tenant_time_range_def)
  then have "from_business_date res = format_date s \<and> to_business_date res = format_date e"
    by (auto simp: range_from_business_dates_def and_then_Inr_iff)
  with shape show ?thesis by blast
qed

definition sample_calendar :: tenant_calendar where
  "sample_calendar = \<lparr>timezone = ''Australia/Melbourne'', trading_day_cutoff = ''04:00'', fiscal_year_start_month = 7,
     fiscal_year_start_day = 1, week_starts_on = 1\<rparr>"

abbreviation sample_zone :: zone where
  "sample_zone \<equiv> offset_zone 0 36000000 36000000"

definition sample_now :: "string \<Rightarrow> int option" where
  "sample_now s = Some 1718409600000"

definition sample_range :: "resolved_range compiled" where
  "sample_range = resolve_tenant_time_range sample_zone sample_now (Last_n_complete_weeks 6) ''now'' sample_calendar"

theorem relative_range_shape_witness:
  "\<exists>res s e. sample_range = Inr res \<and> from_business_date res = format_date s \<and> to_business_date res = format_date e \<and>
     day_number e - day_number s = 42 \<and> day_number e \<le> day_number (Date_parts 2024 6 15)"
proof -
  have "case sample_range of Inl _ \<Rightarrow> False | Inr res \<Rightarrow> True" by code_simp
  then obtain res where res: "sample_range = Inr res" by (auto split: sum.splits)
  have ok: "range_ok (Last_n_complete_weeks 6)" by simp
  have now: "sample_now ''now'' = Some 1718409600000" by (simp add: sample_now_def)
  have today: "business_date_for_instant sample_zone 1718409600000 sample_calendar = Inr (Date_parts 2024 6 15)"
    by code_simp
  have v: "valid_date (Date_parts 2024 6 15)" "1000 \<le> year_of (Date_parts 2024 6 15)" by code_simp+
  from relative_range_shape [OF res [unfolded sample_range_def] ok now today v]
  show ?thesis using res by auto
qed

text \<open>The comparison range of a range of business dates has exactly as many days and starts
  earlier: seven days earlier, one month earlier or one year earlier (clamped to the month's
  length), for every calendar.\<close>

theorem comparison_same_length:
  assumes "resolve_comparison_time_range zone current mode cal = Inr res"
    and "from_business_date current = format_date s" "to_business_date current = format_date e"
    and "valid_date s" "valid_date e" "1000 \<le> year_of s" "year_of e \<le> 9999" "s \<le> e"
  shows "\<exists>s' e'. from_business_date res = format_date s' \<and> to_business_date res = format_date e' \<and>
    valid_date s' \<and> valid_date e' \<and> s' = shift_back mode s \<and> day_number s' < day_number s \<and>
    day_number e' - day_number s' = day_number e - day_number s"
proof -
  have "year_of s \<le> 9999" "1000 \<le> year_of e" using assms by (auto simp: less_eq_date_parts_def)
  then have p: "parse_date (format_date s) = Inr s" "parse_date (format_date e) = Inr e"
    using assms by (simp_all add: parse_format_date)
  obtain s' e' where b: "comparison_bounds mode s e = (s', e')" by fastforce
  have "range_from_business_dates zone s' e' cal = Inr res"
    using assms(1) p b normalize_calendar_same
    by (auto simp: resolve_comparison_time_range_def and_then_Inr_iff assms(2,3))
  then have "from_business_date res = format_date s' \<and> to_business_date res = format_date e'"
    by (auto simp: range_from_business_dates_def and_then_Inr_iff)
  with comparison_bounds_length [OF assms(4,5,6,8) b] show ?thesis by blast
qed

definition sample_current :: resolved_range where
  "sample_current = \<lparr>range_from = [], range_to = [], from_business_date = ''2024-07-29'', to_business_date = ''2024-08-05''\<rparr>"

theorem comparison_same_length_witness:
  "\<exists>res s' e'. resolve_comparison_time_range sample_zone sample_current Prior_month sample_calendar = Inr res \<and>
     from_business_date res = format_date s' \<and> to_business_date res = format_date e' \<and>
     day_number e' - day_number s' = 7 \<and> s' = Date_parts 2024 6 29"
proof -
  have "case resolve_comparison_time_range sample_zone sample_current Prior_month sample_calendar of
      Inl _ \<Rightarrow> False | Inr res \<Rightarrow> True" by code_simp
  then obtain res where res: "resolve_comparison_time_range sample_zone sample_current Prior_month sample_calendar = Inr res"
    by (auto split: sum.splits)
  have f: "from_business_date sample_current = format_date (Date_parts 2024 7 29)"
      "to_business_date sample_current = format_date (Date_parts 2024 8 5)" by code_simp+
  have v: "valid_date (Date_parts 2024 7 29)" "valid_date (Date_parts 2024 8 5)" "1000 \<le> year_of (Date_parts 2024 7 29)"
      "year_of (Date_parts 2024 8 5) \<le> 9999" "Date_parts 2024 7 29 \<le> Date_parts 2024 8 5" by code_simp+
  have n: "day_number (Date_parts 2024 8 5) - day_number (Date_parts 2024 7 29) = 7"
      "shift_back Prior_month (Date_parts 2024 7 29) = Date_parts 2024 6 29" by code_simp+
  from comparison_same_length [OF res f v] res n show ?thesis by auto
qed



text \<open>The fiscal year, fiscal quarter and week that \<open>calendar.ts\<close> computes contain the date:
  each starts on or before it; the fiscal year that starts a year later is after it; the week is
  of seven days from the tenant's first weekday.\<close>

theorem fiscal_periods_contain_today:
  assumes "valid_date d" "1000 \<le> year_of d" "normalize_tenant_calendar zone i = Inr cal"
  shows "fiscal_year_start d cal \<le> d \<and>
    d < safe_date (year_of (fiscal_year_start d cal) + 1) (fiscal_year_start_month cal) (fiscal_year_start_day cal) \<and>
    fiscal_quarter_start d cal \<le> d \<and>
    start_of_week d cal \<le> d \<and> d < add_days (start_of_week d cal) 7 \<and>
    iso_weekday (start_of_week d cal) = week_starts_on cal"
proof -
  have ok: "calendar_ok cal" using normalize_calendar_ok [OF assms(3)] by simp
  note y = fiscal_year_start_bounds [OF assms(1,2) ok] and q = fiscal_quarter_start_bounds [OF assms(1,2) ok]
    and w = start_of_week_number [OF assms(1,2) ok]
  have n: "valid_date (add_days (start_of_week d cal) 7)" "day_number (add_days (start_of_week d cal) 7) = day_number (start_of_week d cal) + 7"
    using add_days_valid [of "start_of_week d cal" 7] w civil.start_le [of "start_of_week d cal"] by simp_all
  have "start_of_week d cal \<le> d" using w civil.number_le_iff assms(1) by blast
  moreover have "d < add_days (start_of_week d cal) 7"
    using w n civil.number_less_iff [OF assms(1) n(1)] by simp
  ultimately show ?thesis using y q w by blast
qed

theorem fiscal_periods_contain_today_witness:
  "fiscal_year_start (Date_parts 2024 6 15) sample_calendar = Date_parts 2023 7 1 \<and>
   fiscal_quarter_start (Date_parts 2024 6 15) sample_calendar = Date_parts 2024 4 1 \<and>
   start_of_week (Date_parts 2024 6 15) sample_calendar \<le> Date_parts 2024 6 15"
proof -
  have v: "valid_date (Date_parts 2024 6 15)" "1000 \<le> year_of (Date_parts 2024 6 15)" by code_simp+
  have "normalize_tenant_calendar sample_zone (calendar_as_input sample_calendar) = Inr sample_calendar" by code_simp
  from fiscal_periods_contain_today [OF v this] have "start_of_week (Date_parts 2024 6 15) sample_calendar \<le> Date_parts 2024 6 15"
    by blast
  moreover have "fiscal_year_start (Date_parts 2024 6 15) sample_calendar = Date_parts 2023 7 1" by code_simp
  moreover have "fiscal_quarter_start (Date_parts 2024 6 15) sample_calendar = Date_parts 2024 4 1" by code_simp
  ultimately show ?thesis by blast
qed

end
