(* ===== verification/Scan_Completeness.thy ===== *)
theory Scan_Completeness
  imports Prelude "HOL-Library.List_Lexorder"
begin

text \<open>
  Completeness of a vendor walk: \<open>connectors/lightspeed-r/scan-plan.ts\<close> (which tables one walk
  fills, id shards), \<open>connectors/lightspeed-r/completeness.ts\<close> (gap probing and window audit) and
  \<open>connectors/xero/completeness.ts\<close> (date windows, double pass, fan-out coverage).

  Ids and counts are integers, so \<open>Number.isFinite\<close> holds of them. \<open>localeCompare\<close> is the rank
  \<open>collate\<close>, \<open>Date.parse\<close> the parameter \<open>date_parse\<close>. The tables of the vendor specification
  (\<open>tables.json\<close>) are an argument. Both connectors' windows meet one contract, the locale
  \<open>window_tiling\<close>.
\<close>

section \<open>Windows that tile a range\<close>

text \<open>\<open>lo\<close> and \<open>hi\<close> give the half-open extent of a window; neighbours touch.\<close>

fun touching :: "('w \<Rightarrow> int) \<Rightarrow> ('w \<Rightarrow> int) \<Rightarrow> 'w list \<Rightarrow> bool" where
  "touching lo hi (v # w # ws) = (hi v = lo w \<and> touching lo hi (w # ws))"
| "touching lo hi _ = True"

locale window_tiling =
  fixes lo :: "'w \<Rightarrow> int" and hi :: "'w \<Rightarrow> int" and valid :: "'w \<Rightarrow> bool"
  assumes valid_less: "valid w \<Longrightarrow> lo w < hi w"
begin

lemma touching_Cons: "touching lo hi (w # ws) \<longleftrightarrow> (ws = [] \<or> hi w = lo (hd ws)) \<and> touching lo hi ws"
  by (cases ws) auto

lemma lo_hd_le: "touching lo hi ws \<Longrightarrow> \<forall>w \<in> set ws. valid w \<Longrightarrow> w \<in> set ws \<Longrightarrow> lo (hd ws) \<le> lo w \<and> hi w \<le> hi (last ws)"
proof (induction ws arbitrary: w)
  case (Cons v ws)
  show ?case
  proof (cases "ws = []")
    case False
    then have IH: "u \<in> set ws \<Longrightarrow> lo (hd ws) \<le> lo u \<and> hi u \<le> hi (last ws)" for u
      using Cons by (auto simp: touching_Cons)
    have "hi v = lo (hd ws)" using Cons.prems False by (simp add: touching_Cons)
    moreover have "lo v < hi v" using Cons.prems by (intro valid_less) simp
    moreover have "hd ws \<in> set ws" using False by simp
    moreover have "lo (hd ws) < hi (hd ws)" using False Cons.prems by (intro valid_less) simp
    ultimately show ?thesis using IH [of "hd ws"] IH [of w] Cons.prems(3) False by fastforce
  qed (use Cons in auto)
qed simp

text \<open>Every point of the range is in exactly one window, and no window leaves the range.\<close>

lemma covers_once:
  assumes "touching lo hi ws" "\<forall>w \<in> set ws. valid w" "ws \<noteq> []"
  shows "length (filter (\<lambda>w. lo w \<le> x \<and> x < hi w) ws) = (if lo (hd ws) \<le> x \<and> x < hi (last ws) then 1 else 0)"
  using assms
proof (induction ws)
  case (Cons w ws)
  have less: "lo w < hi w" using Cons.prems by (intro valid_less) simp
  show ?case
  proof (cases "ws = []")
    case False
    then have adj: "hi w = lo (hd ws)" "touching lo hi ws" "\<forall>w \<in> set ws. valid w"
      using Cons.prems by (auto simp: touching_Cons)
    have "lo (hd ws) < hi (last ws)"
      using lo_hd_le [OF adj(2,3), of "hd ws"] False adj(3) valid_less [of "hd ws"] by fastforce
    then show ?thesis using Cons.IH [OF adj(2,3) False] False adj(1) less by auto
  qed simp
qed simp

lemma covers_once_sorted:
  assumes "touching lo hi (sort_key lo ws)" "\<forall>w \<in> set ws. valid w" "ws \<noteq> []"
  shows "length (filter (\<lambda>w. lo w \<le> x \<and> x < hi w) ws) =
    (if lo (hd (sort_key lo ws)) \<le> x \<and> x < hi (last (sort_key lo ws)) then 1 else 0)"
proof -
  let ?P = "\<lambda>w. lo w \<le> x \<and> x < hi w"
  have ne: "sort_key lo ws \<noteq> []" using assms(3) by (metis length_0_conv length_sort)
  have v: "\<forall>w \<in> set (sort_key lo ws). valid w" using assms(2) by simp
  have "length (filter ?P ws) = length (filter ?P (sort_key lo ws))"
    by (metis filter_sort length_sort)
  with covers_once [OF assms(1) v ne] show ?thesis by simp
qed

end

section \<open>Lightspeed windows\<close>

record id_window =
  win_from :: int
  win_to :: int

datatype completeness_error =
    No_windows | Starts_late | Ends_wrong | Windows_overlap | Windows_hole | Probe_batch_size | Shard_size

definition id_window_valid :: "id_window \<Rightarrow> bool" where
  "id_window_valid w \<longleftrightarrow> win_from w \<le> win_to w"

definition id_window_stop :: "id_window \<Rightarrow> int" where
  "id_window_stop w = win_to w + 1"

interpretation id_windows: window_tiling win_from id_window_stop id_window_valid
  by unfold_locales (simp add: id_window_valid_def id_window_stop_def)

fun check_neighbours :: "id_window list \<Rightarrow> (completeness_error, unit) result" where
  "check_neighbours (previous # current # ws) =
     (if win_from current \<le> win_to previous then Inl Windows_overlap
      else if win_from current \<noteq> win_to previous + 1 then Inl Windows_hole
      else check_neighbours (current # ws))"
| "check_neighbours _ = Inr ()"

definition assert_windows_tile :: "id_window list \<Rightarrow> int \<Rightarrow> int \<Rightarrow> (completeness_error, unit) result" where
  "assert_windows_tile windows min_id max_id =
     (if windows = [] then (if max_id \<ge> min_id then Inl No_windows else Inr ())
      else let sorted = sort_key win_from windows
           in if win_from (hd sorted) \<noteq> min_id then Inl Starts_late
              else if win_to (last sorted) \<noteq> max_id then Inl Ends_wrong
              else check_neighbours sorted)"

text \<open>The loop \<open>for (from = minId; from <= maxId; from += idsPerShard)\<close> runs once per started shard.\<close>

definition shard_id_range :: "int \<Rightarrow> int \<Rightarrow> int \<Rightarrow> (completeness_error, id_window list) result" where
  "shard_id_range min_id max_id per_shard =
     (if max_id < min_id then Inr []
      else if per_shard < 1 then Inl Shard_size
      else Inr (map (\<lambda>k. \<lparr>win_from = min_id + int k * per_shard,
                          win_to = min (min_id + int k * per_shard + per_shard - 1) max_id\<rparr>)
             [0..<nat ((max_id - min_id) div per_shard + 1)]))"

definition estimate_requests :: "int \<Rightarrow> int \<Rightarrow> int" where
  "estimate_requests record_count page_size =
     (if record_count \<le> 0 then 1 else - (- record_count div page_size))"

section \<open>Gaps and verdicts\<close>

record window_observation =
  obs_window :: id_window
  observed_ids :: "int list"

record fetch_request =
  request_path :: string
  request_params :: "(string \<times> string) list"

record gap_probe =
  probe_ids :: "int list"
  probe_request :: fetch_request

datatype completeness_status = Complete | Incomplete

record completeness_verdict =
  verdict_resource :: string
  verdict_window :: id_window
  expected_span :: int
  staged :: nat
  deleted :: "int list"
  missed :: "int list"
  verdict_status :: completeness_status

definition MAX_IN_VALUES :: nat where
  "MAX_IN_VALUES = 100"

definition gap_ids :: "window_observation \<Rightarrow> int list" where
  "gap_ids ob =
     (let w = obs_window ob
      in if win_to w < win_from w then []
         else filter (\<lambda>i. i \<notin> set (observed_ids ob)) [win_from w..win_to w])"

function slices :: "nat \<Rightarrow> 'a list \<Rightarrow> 'a list list" where
  "slices n xs = (if n = 0 \<or> xs = [] then [] else take n xs # slices n (drop n xs))"
  by pat_completeness auto

termination slices
  by (relation "measure (length \<circ> snd)") auto

declare slices.simps [simp del]

definition gap_probe_of :: "string \<Rightarrow> string \<Rightarrow> int list \<Rightarrow> gap_probe" where
  "gap_probe_of path id_field batch =
     \<lparr>probe_ids = batch,
      probe_request = \<lparr>request_path = path,
        request_params = AList.update ''limit'' (string_of_nat (min (length batch) MAX_IN_VALUES))
          [(id_field, ''IN,['' @ join_with '','' (map string_of_int batch) @ '']'')]\<rparr>\<rparr>"

definition build_gap_probes :: "string \<Rightarrow> string \<Rightarrow> int list \<Rightarrow> nat \<Rightarrow> (completeness_error, gap_probe list) result" where
  "build_gap_probes path id_field ids batch_size =
     (if batch_size < 1 \<or> batch_size > MAX_IN_VALUES then Inl Probe_batch_size
      else Inr (map (gap_probe_of path id_field) (slices batch_size ids)))"

definition classify_window :: "string \<Rightarrow> window_observation \<Rightarrow> int list \<Rightarrow> completeness_verdict" where
  "classify_window resource ob resolved =
     (let w = obs_window ob;
          gaps = gap_ids ob;
          missed_ids = filter (\<lambda>i. i \<in> set resolved) gaps;
          deleted_ids = filter (\<lambda>i. i \<notin> set resolved) gaps
      in \<lparr>verdict_resource = resource, verdict_window = w,
          expected_span = max 0 (win_to w - win_from w + 1), staged = length (uniq (observed_ids ob)),
          deleted = deleted_ids, missed = missed_ids,
          verdict_status = (if missed_ids = [] then Complete else Incomplete)\<rparr>)"

record resource_audit =
  audit_resource_name :: string
  audit_windows :: "completeness_verdict list"
  total_staged :: nat
  total_deleted :: nat
  total_missed :: nat
  audit_status :: completeness_status
  known_gaps :: "string list"

definition KNOWN_UNREACHABLE :: "string \<Rightarrow> string list" where
  "KNOWN_UNREACHABLE resource = (if resource = ''Sale''
     then [''Archived sales are unreachable: the documented `archived` filter is accepted but '' @
           ''returns the identical id set, so this connector cannot enumerate them.'']
     else [])"

definition audit_resource :: "string \<Rightarrow> completeness_verdict list \<Rightarrow> resource_audit" where
  "audit_resource resource verdicts =
     (let missed_total = foldl (\<lambda>sum v. sum + length (missed v)) 0 verdicts
      in \<lparr>audit_resource_name = resource, audit_windows = verdicts,
          total_staged = foldl (\<lambda>sum v. sum + staged v) 0 verdicts,
          total_deleted = foldl (\<lambda>sum v. sum + length (deleted v)) 0 verdicts,
          total_missed = missed_total,
          audit_status = (if missed_total = 0 then Complete else Incomplete),
          known_gaps = KNOWN_UNREACHABLE resource\<rparr>)"

text \<open>Keys are already strings here (\<open>String(k)\<close>).\<close>

definition find_orphans :: "string list \<Rightarrow> string list \<Rightarrow> string list" where
  "find_orphans child_keys parent_keys =
     uniq (filter (\<lambda>k. k \<noteq> [] \<and> k \<noteq> ''0'' \<and> k \<notin> set parent_keys) child_keys)"

section \<open>Xero windows and coverage\<close>

record date_window =
  dw_from :: string
  dw_to :: string

datatype xero_window_error = Window_invalid | Window_empty | Date_hole | Date_overlap

definition check_date_window :: "(string \<Rightarrow> int option) \<Rightarrow> date_window \<Rightarrow> (xero_window_error, unit) result" where
  "check_date_window date_parse w =
     (case (date_parse (dw_from w), date_parse (dw_to w)) of
        (Some f, Some t) \<Rightarrow> if f \<ge> t then Inl Window_empty else Inr ()
      | _ \<Rightarrow> Inl Window_invalid)"

definition date_start :: "(string \<Rightarrow> int option) \<Rightarrow> date_window \<Rightarrow> int" where
  "date_start date_parse w = (case date_parse (dw_from w) of Some t \<Rightarrow> t | None \<Rightarrow> 0)"

definition date_stop :: "(string \<Rightarrow> int option) \<Rightarrow> date_window \<Rightarrow> int" where
  "date_stop date_parse w = (case date_parse (dw_to w) of Some t \<Rightarrow> t | None \<Rightarrow> 0)"

fun check_date_neighbours :: "(string \<Rightarrow> int option) \<Rightarrow> date_window list \<Rightarrow> (xero_window_error, unit) result" where
  "check_date_neighbours date_parse (previous # current # ws) =
     (if date_stop date_parse previous < date_start date_parse current then Inl Date_hole
      else if date_stop date_parse previous > date_start date_parse current then Inl Date_overlap
      else check_date_neighbours date_parse (current # ws))"
| "check_date_neighbours date_parse _ = Inr ()"

text \<open>With an unparseable date the comparison of the sort is \<open>NaN\<close>, but then the first loop throws
  whatever the order; \<open>date_start\<close> is 0 there.\<close>

definition assert_date_windows_tile :: "(string \<Rightarrow> int option) \<Rightarrow> date_window list \<Rightarrow> (xero_window_error, unit) result" where
  "assert_date_windows_tile date_parse windows =
     (let sorted = sort_key (date_start date_parse) windows
      in and_then (map_r (check_date_window date_parse) sorted) (\<lambda>_. check_date_neighbours date_parse sorted))"

definition date_window_valid :: "(string \<Rightarrow> int option) \<Rightarrow> date_window \<Rightarrow> bool" where
  "date_window_valid date_parse w \<longleftrightarrow> check_date_window date_parse w = Inr ()"

interpretation date_windows: window_tiling "date_start date_parse" "date_stop date_parse" "date_window_valid date_parse"
  for date_parse
  by unfold_locales
    (auto simp: date_window_valid_def check_date_window_def date_start_def date_stop_def split: option.splits if_splits)

record pass_evidence =
  scan_digest :: "string option"
  scan_count :: "nat option"
  verification_digest :: "string option"
  verification_count :: "nat option"

definition double_pass_verified :: "pass_evidence \<Rightarrow> bool" where
  "double_pass_verified e \<longleftrightarrow> \<not> (scan_digest e = None \<or> scan_count e = None) \<and>
     verification_digest e = scan_digest e \<and> verification_count e = scan_count e"

record fan_out_parent =
  parent_id :: string
  advertises_children :: "bool option"
  child_rows :: nat
  miss_recorded :: bool

record fan_out_report =
  fan_complete :: bool
  silent_absences :: "string list"
  advertised_parents :: nat
  covered_parents :: nat

definition fan_out_step :: "string list \<times> nat \<times> nat \<Rightarrow> fan_out_parent \<Rightarrow> string list \<times> nat \<times> nat" where
  "fan_out_step s p =
     (if advertises_children p = Some False then s
      else (if child_rows p > 0 \<or> miss_recorded p
            then (fst s, fst (snd s) + 1, snd (snd s) + 1)
            else (fst s @ [parent_id p], fst (snd s) + 1, snd (snd s))))"

definition audit_fan_out_coverage :: "fan_out_parent list \<Rightarrow> fan_out_report" where
  "audit_fan_out_coverage observations =
     (let s = foldl fan_out_step ([], 0, 0) observations
      in \<lparr>fan_complete = (fst s = []), silent_absences = fst s,
          advertised_parents = fst (snd s), covered_parents = snd (snd s)\<rparr>)"

definition journals_walk_complete :: "bool \<Rightarrow> int option \<Rightarrow> int \<Rightarrow> bool" where
  "journals_walk_complete last_page_empty high_journal_number cursor_offset =
     (if \<not> last_page_empty then False
      else case high_journal_number of None \<Rightarrow> cursor_offset = 0 | Some h \<Rightarrow> h \<ge> cursor_offset)"

section \<open>Lemmas\<close>

lemma id_window_stop_eq: "id_window_stop w = win_to w + 1"
  by (simp add: id_window_stop_def)

lemma check_neighbours_touching: "check_neighbours ws = Inr () \<longleftrightarrow> touching win_from id_window_stop ws"
proof (induction ws rule: check_neighbours.induct)
  case (1 p c ws)
  then show ?case using id_window_stop_eq [of p] by auto
qed simp_all

lemma check_date_neighbours_touching:
  "check_date_neighbours date_parse ws = Inr () \<Longrightarrow> touching (date_start date_parse) (date_stop date_parse) ws"
proof (induction date_parse ws rule: check_date_neighbours.induct)
  case (1 date_parse p c ws)
  then show ?case by (auto split: if_splits)
qed simp_all

lemma slices_concat: "0 < n \<Longrightarrow> concat (slices n xs) = xs"
proof (induction n xs rule: slices.induct)
  case (1 n xs)
  then show ?case by (subst slices.simps) simp
qed

lemma slices_bound: "s \<in> set (slices n xs) \<Longrightarrow> 0 < length s \<and> length s \<le> n"
proof (induction n xs rule: slices.induct)
  case (1 n xs)
  then show ?case by (subst (asm) slices.simps) (auto split: if_splits)
qed

lemma set_gap_ids: "set (gap_ids ob) = {win_from (obs_window ob)..win_to (obs_window ob)} - set (observed_ids ob)"
  by (auto simp: gap_ids_def Let_def)

lemma distinct_gap_ids: "distinct (gap_ids ob)"
  by (simp add: gap_ids_def Let_def)

lemma foldl_sum: "foldl (\<lambda>sum v. sum + f v) (a::nat) vs = a + (\<Sum>v\<leftarrow>vs. f v)"
  by (induction vs arbitrary: a) simp_all

lemma fan_out_fold:
  "foldl fan_out_step s ps =
     (fst s @ map parent_id (filter (\<lambda>p. advertises_children p \<noteq> Some False \<and> child_rows p = 0 \<and> \<not> miss_recorded p) ps),
      fst (snd s) + length (filter (\<lambda>p. advertises_children p \<noteq> Some False) ps),
      snd (snd s) + length (filter (\<lambda>p. advertises_children p \<noteq> Some False \<and> (child_rows p > 0 \<or> miss_recorded p)) ps))"
  by (induction ps arbitrary: s) (simp_all add: fan_out_step_def)


lemma touching_nth:
  "(\<And>i. Suc i < length ws \<Longrightarrow> hi (ws ! i) = lo (ws ! Suc i)) \<Longrightarrow> touching lo hi ws"
proof (induction lo hi ws rule: touching.induct)
  case (1 lo hi v w ws)
  have "hi v = lo w" using "1.prems" [of 0] by simp
  moreover have "hi ((w # ws) ! i) = lo ((w # ws) ! Suc i)" if "Suc i < length (w # ws)" for i
    using "1.prems" [of "Suc i"] that by simp
  ultimately show ?case using "1.IH" by simp
qed simp_all

lemma shard_id_range_tiles:
  assumes "min_id \<le> max_id" "1 \<le> n"
  shows "\<exists>ws. shard_id_range min_id max_id n = Inr ws \<and> assert_windows_tile ws min_id max_id = Inr () \<and>
    (\<forall>w \<in> set ws. id_window_valid w \<and> win_to w - win_from w < n)"
proof -
  let ?q = "(max_id - min_id) div n"
  let ?f = "\<lambda>k. \<lparr>win_from = min_id + int k * n, win_to = min (min_id + int k * n + n - 1) max_id\<rparr>"
  let ?N = "nat (?q + 1)"
  let ?ws = "map ?f [0..<?N]"
  have n: "0 < n" using assms(2) by simp
  have q: "0 \<le> ?q" using assms n by (simp add: pos_imp_zdiv_nonneg_iff)
  have b: "n * ?q \<le> max_id - min_id" "max_id - min_id < n * ?q + n"
    using div_bounds [OF n, of "max_id - min_id"] by simp_all
  have le: "int k * n \<le> n * ?q" if "k < ?N" for k
    using that n q by (simp add: mult.commute mult_le_cancel_left)
  have next_le: "int (Suc k) * n \<le> max_id - min_id" if "Suc k < ?N" for k
    using order_trans [OF le [OF that] b(1)] .
  have valid: "id_window_valid (?f k) \<and> win_to (?f k) - win_from (?f k) < n" if "k < ?N" for k
    using order_trans [OF le [OF that] b(1)] n by (simp add: id_window_valid_def)
  have "?ws \<noteq> []" using q by simp
  moreover have sorted: "sort_key win_from ?ws = ?ws"
  proof (rule sort_key_id_if_sorted)
    show "sorted (map win_from ?ws)"
      using n by (simp add: sorted_iff_nth_mono comp_def mult_right_mono)
  qed
  moreover have "win_from (hd ?ws) = min_id" using q by (simp add: hd_map upt_conv_Cons)
  moreover have "win_to (last ?ws) = max_id"
  proof -
    have "last ?ws = ?f (?N - 1)" using q by (simp add: last_map)
    moreover have "max_id \<le> min_id + int (?N - 1) * n + n - 1"
      using b q by (simp add: mult.commute)
    ultimately show ?thesis by simp
  qed
  moreover have "check_neighbours ?ws = Inr ()"
    unfolding check_neighbours_touching
  proof (rule touching_nth)
    fix i
    assume i: "Suc i < length ?ws"
    then have "Suc i < ?N" by simp
    from next_le [OF this] have "win_to (?f i) = min_id + int i * n + n - 1" by (simp add: distrib_right)
    then show "id_window_stop (?ws ! i) = win_from (?ws ! Suc i)"
      using i by (simp add: id_window_stop_eq distrib_right)
  qed
  ultimately have "assert_windows_tile ?ws min_id max_id = Inr ()"
    unfolding assert_windows_tile_def Let_def sorted by simp
  moreover have "shard_id_range min_id max_id n = Inr ?ws"
    using assms by (simp add: shard_id_range_def)
  moreover have "\<forall>w \<in> set ?ws. id_window_valid w \<and> win_to w - win_from w < n" using valid by auto
  ultimately show ?thesis by blast
qed

lemma id_windows_cover:
  assumes "assert_windows_tile ws min_id max_id = Inr ()" "\<forall>w \<in> set ws. id_window_valid w"
  shows "length (filter (\<lambda>w. win_from w \<le> x \<and> x \<le> win_to w) ws) = (if min_id \<le> x \<and> x \<le> max_id then 1 else 0)"
proof (cases "ws = []")
  case True
  with assms(1) show ?thesis by (auto simp: assert_windows_tile_def split: if_splits)
next
  case False
  let ?s = "sort_key win_from ws"
  have t: "touching win_from id_window_stop ?s" "win_from (hd ?s) = min_id" "win_to (last ?s) = max_id"
    using assms(1) False by (auto simp: assert_windows_tile_def Let_def check_neighbours_touching split: if_splits)
  show ?thesis
    using id_windows.covers_once_sorted [OF t(1) assms(2) False, of x] t(2,3)
    by (simp add: id_window_stop_eq zless_add1_eq order_le_less)
qed

section \<open>Properties\<close>


definition sample_windows :: "id_window list" where
  "sample_windows = [\<lparr>win_from = 6, win_to = 9\<rparr>, \<lparr>win_from = 1, win_to = 5\<rparr>]"


text \<open>What \<open>assertWindowsTile\<close> does not check: a last window that ends before it starts is
  accepted although an earlier window runs past the end of the range.\<close>

theorem tile_accepts_inverted:
  "assert_windows_tile [\<lparr>win_from = 1, win_to = 10\<rparr>, \<lparr>win_from = 11, win_to = 5\<rparr>] 1 5 = Inr ()"
  by code_simp

text \<open>After the gaps of a window are probed, every id of the window is in exactly one of the
  observed, the deleted and the missed ids; the window is complete exactly when the walk returned
  every id that a direct fetch can resolve; a resource is complete exactly when all its windows
  are; and when the walk stayed in the window, the three counts add up to the span.\<close>

theorem window_classification:
  "(win_from (obs_window ob) \<le> i \<and> i \<le> win_to (obs_window ob) \<longrightarrow>
      (i \<in> set (observed_ids ob) \<and> i \<notin> set (deleted (classify_window r ob resolved)) \<and> i \<notin> set (missed (classify_window r ob resolved))) \<or>
      (i \<notin> set (observed_ids ob) \<and> i \<notin> set resolved \<and> i \<in> set (deleted (classify_window r ob resolved)) \<and> i \<notin> set (missed (classify_window r ob resolved))) \<or>
      (i \<notin> set (observed_ids ob) \<and> i \<in> set resolved \<and> i \<notin> set (deleted (classify_window r ob resolved)) \<and> i \<in> set (missed (classify_window r ob resolved)))) \<and>
   (verdict_status (classify_window r ob resolved) = Complete \<longleftrightarrow>
      (\<forall>i \<in> set resolved. win_from (obs_window ob) \<le> i \<and> i \<le> win_to (obs_window ob) \<longrightarrow> i \<in> set (observed_ids ob))) \<and>
   (audit_status (audit_resource r verdicts) = Complete \<longleftrightarrow> (\<forall>v \<in> set verdicts. missed v = [])) \<and>
   (set (observed_ids ob) \<subseteq> {win_from (obs_window ob)..win_to (obs_window ob)} \<longrightarrow>
      expected_span (classify_window r ob resolved) =
        int (staged (classify_window r ob resolved) + length (deleted (classify_window r ob resolved)) +
             length (missed (classify_window r ob resolved))))"
proof (intro conjI)
  let ?w = "{win_from (obs_window ob)..win_to (obs_window ob)}"
  let ?v = "classify_window r ob resolved"
  have sets: "set (missed ?v) = (?w - set (observed_ids ob)) \<inter> set resolved"
    "set (deleted ?v) = (?w - set (observed_ids ob)) - set resolved"
    by (auto simp: classify_window_def Let_def set_gap_ids)
  show "win_from (obs_window ob) \<le> i \<and> i \<le> win_to (obs_window ob) \<longrightarrow>
      (i \<in> set (observed_ids ob) \<and> i \<notin> set (deleted ?v) \<and> i \<notin> set (missed ?v)) \<or>
      (i \<notin> set (observed_ids ob) \<and> i \<notin> set resolved \<and> i \<in> set (deleted ?v) \<and> i \<notin> set (missed ?v)) \<or>
      (i \<notin> set (observed_ids ob) \<and> i \<in> set resolved \<and> i \<notin> set (deleted ?v) \<and> i \<in> set (missed ?v))"
    unfolding sets by auto
  have "verdict_status ?v = Complete \<longleftrightarrow> set (missed ?v) = {}"
    by (auto simp: classify_window_def Let_def filter_empty_conv)
  also have "\<dots> \<longleftrightarrow> (\<forall>i \<in> set resolved. i \<in> ?w \<longrightarrow> i \<in> set (observed_ids ob))" unfolding sets by blast
  finally show "verdict_status ?v = Complete \<longleftrightarrow>
      (\<forall>i \<in> set resolved. win_from (obs_window ob) \<le> i \<and> i \<le> win_to (obs_window ob) \<longrightarrow> i \<in> set (observed_ids ob))"
    by simp
  show "audit_status (audit_resource r verdicts) = Complete \<longleftrightarrow> (\<forall>v \<in> set verdicts. missed v = [])"
    by (simp add: audit_resource_def Let_def foldl_sum sum_list_eq_0_iff)
  show "set (observed_ids ob) \<subseteq> ?w \<longrightarrow>
      expected_span ?v = int (staged ?v + length (deleted ?v) + length (missed ?v))"
  proof
    assume sub: "set (observed_ids ob) \<subseteq> ?w"
    have "length (missed ?v) + length (deleted ?v) = length (gap_ids ob)"
      using sum_length_filter_compl [of "\<lambda>i. i \<in> set resolved" "gap_ids ob"] by (simp add: classify_window_def Let_def)
    also have "\<dots> = card (?w - set (observed_ids ob))"
      using distinct_card [OF distinct_gap_ids] by (simp add: set_gap_ids)
    also have "\<dots> = card ?w - card (set (observed_ids ob))" using sub by (simp add: card_Diff_subset)
    finally have "length (missed ?v) + length (deleted ?v) = card ?w - card (set (observed_ids ob))" .
    moreover have "staged ?v = card (set (observed_ids ob))"
      using distinct_card [OF distinct_uniq, of "observed_ids ob"] by (simp add: classify_window_def Let_def)
    moreover have "card (set (observed_ids ob)) \<le> card ?w" using sub by (intro card_mono) simp_all
    moreover have "expected_span ?v = int (card ?w)" by (simp add: classify_window_def Let_def)
    ultimately show "expected_span ?v = int (staged ?v + length (deleted ?v) + length (missed ?v))" by linarith
  qed
qed

definition sample_observation_window :: window_observation where
  "sample_observation_window = \<lparr>obs_window = \<lparr>win_from = 1, win_to = 5\<rparr>, observed_ids = [1, 2, 4, 2]\<rparr>"

theorem window_classification_witness:
  "missed (classify_window [] sample_observation_window [5, 2]) = [5] \<and>
   deleted (classify_window [] sample_observation_window [5, 2]) = [3] \<and>
   expected_span (classify_window [] sample_observation_window [5, 2]) = 5"
proof -
  have "set (observed_ids sample_observation_window) \<subseteq>
      {win_from (obs_window sample_observation_window)..win_to (obs_window sample_observation_window)}"
    by (simp add: sample_observation_window_def)
  with window_classification [of sample_observation_window 3 "[]" "[5, 2]" "[]"]
  have "expected_span (classify_window [] sample_observation_window [5, 2]) =
      int (staged (classify_window [] sample_observation_window [5, 2]) +
           length (deleted (classify_window [] sample_observation_window [5, 2])) +
           length (missed (classify_window [] sample_observation_window [5, 2])))" by blast
  moreover have "staged (classify_window [] sample_observation_window [5, 2]) = 3"
    "missed (classify_window [] sample_observation_window [5, 2]) = [5]"
    "deleted (classify_window [] sample_observation_window [5, 2]) = [3]"
    by code_simp+
  ultimately show ?thesis by simp
qed

text \<open>\<open>buildGapProbes\<close> asks for every gap id exactly once, in order, and never for more ids in one
  request than the vendor's \<open>IN\<close> operator takes; the limit of each request is its batch size.\<close>

theorem gap_probes_cover:
  "case build_gap_probes path id_field ids n of
     Inl e \<Rightarrow> e = Probe_batch_size \<and> (n = 0 \<or> 100 < n)
   | Inr probes \<Rightarrow> concat (map probe_ids probes) = ids \<and>
       (\<forall>p \<in> set probes. 0 < length (probe_ids p) \<and> length (probe_ids p) \<le> n \<and> n \<le> 100 \<and>
          map_of (request_params (probe_request p)) ''limit'' = Some (string_of_nat (length (probe_ids p))))"
proof (cases "n < 1 \<or> n > MAX_IN_VALUES")
  case True
  then show ?thesis by (auto simp: build_gap_probes_def MAX_IN_VALUES_def)
next
  case False
  have "probe_ids \<circ> gap_probe_of path id_field = id" by (simp add: gap_probe_of_def fun_eq_iff)
  then have "concat (map probe_ids (map (gap_probe_of path id_field) (slices n ids))) = ids"
    using slices_concat [of n ids] False by simp
  moreover have "min (length b) MAX_IN_VALUES = length b" if "b \<in> set (slices n ids)" for b
    using slices_bound [OF that] False by simp
  ultimately show ?thesis
    using False slices_bound [of _ n ids] by (auto simp: build_gap_probes_def gap_probe_of_def MAX_IN_VALUES_def update_conv')
qed

theorem gap_probes_cover_witness:
  "case build_gap_probes ''Sale'' ''saleID'' [3, 5, 9] 2 of
     Inl e \<Rightarrow> False | Inr probes \<Rightarrow> map probe_ids probes = [[3, 5], [9]] \<and> concat (map probe_ids probes) = [3, 5, 9]"
proof -
  have "case build_gap_probes ''Sale'' ''saleID'' [3, 5, 9] 2 of Inl e \<Rightarrow> False | Inr probes \<Rightarrow> map probe_ids probes = [[3, 5], [9]]"
    by code_simp
  then obtain probes where p: "build_gap_probes ''Sale'' ''saleID'' [3, 5, 9] 2 = Inr probes" "map probe_ids probes = [[3, 5], [9]]"
    by (auto dest: result_caseD)
  from gap_probes_cover [where path = "''Sale''" and id_field = "''saleID''" and ids = "[3, 5, 9]" and n = 2, unfolded p(1) sum.case]
  have "concat (map probe_ids probes) = [3, 5, 9]" by blast
  with p show ?thesis by simp
qed

text \<open>When the Xero \<open>assertWindowsTile\<close> accepts, every instant between the start of some window and
  the end of some window lies in exactly one of them: no hole, no overlap.\<close>

theorem date_windows_tile:
  assumes "assert_date_windows_tile date_parse ws = Inr ()"
    and "v \<in> set ws" "date_start date_parse v \<le> t" "w \<in> set ws" "t < date_stop date_parse w"
  shows "length (filter (\<lambda>u. date_start date_parse u \<le> t \<and> t < date_stop date_parse u) ws) = 1"
proof -
  let ?s = "sort_key (date_start date_parse) ws"
  obtain us where c: "map_r (check_date_window date_parse) ?s = Inr us" "check_date_neighbours date_parse ?s = Inr ()"
    using assms(1) by (auto simp: assert_date_windows_tile_def Let_def and_then_Inr_iff)
  have valid: "\<forall>w \<in> set ?s. date_window_valid date_parse w"
    using map_r_Inr_D [OF c(1)] by (auto simp: date_window_valid_def)
  note t = check_date_neighbours_touching [OF c(2)]
  have "date_start date_parse (hd ?s) \<le> date_start date_parse v" "date_stop date_parse w \<le> date_stop date_parse (last ?s)"
    using date_windows.lo_hd_le [OF t valid] assms(2,4) by simp_all
  then have r: "date_start date_parse (hd ?s) \<le> t" "t < date_stop date_parse (last ?s)" using assms(3,5) by simp_all
  have ne: "ws \<noteq> []" using assms(2) by auto
  have "\<forall>w \<in> set ws. date_window_valid date_parse w" using valid by simp
  from date_windows.covers_once_sorted [OF t this ne, of t] r show ?thesis by simp
qed

definition sample_days :: "string \<Rightarrow> int option" where
  "sample_days s = (if s \<noteq> [] \<and> list_all is_digit s then Some (int (nat_of_digits s)) else None)"

definition sample_date_windows :: "date_window list" where
  "sample_date_windows = [\<lparr>dw_from = ''10'', dw_to = ''20''\<rparr>, \<lparr>dw_from = ''1'', dw_to = ''10''\<rparr>]"

theorem date_windows_tile_witness:
  "length (filter (\<lambda>u. date_start sample_days u \<le> 10 \<and> 10 < date_stop sample_days u) sample_date_windows) = 1"
proof -
  have a: "assert_date_windows_tile sample_days sample_date_windows = Inr ()" by code_simp
  have m: "\<lparr>dw_from = ''10'', dw_to = ''20''\<rparr> \<in> set sample_date_windows" by (simp add: sample_date_windows_def)
  have b: "date_start sample_days \<lparr>dw_from = ''10'', dw_to = ''20''\<rparr> \<le> 10" "10 < date_stop sample_days \<lparr>dw_from = ''10'', dw_to = ''20''\<rparr>"
    by code_simp+
  show ?thesis by (rule date_windows_tile [OF a m b(1) m b(2)])
qed

text \<open>\<open>auditFanOutCoverage\<close> is complete exactly when every parent that does not deny having
  children has child rows or a recorded miss; the silent absences are exactly the others, and
  they and the covered parents make up the advertised ones.\<close>

theorem fan_out_coverage:
  "(fan_complete (audit_fan_out_coverage ps) \<longleftrightarrow>
      (\<forall>p \<in> set ps. advertises_children p = Some False \<or> 0 < child_rows p \<or> miss_recorded p)) \<and>
   silent_absences (audit_fan_out_coverage ps) =
      map parent_id (filter (\<lambda>p. advertises_children p \<noteq> Some False \<and> child_rows p = 0 \<and> \<not> miss_recorded p) ps) \<and>
   advertised_parents (audit_fan_out_coverage ps) =
      covered_parents (audit_fan_out_coverage ps) + length (silent_absences (audit_fan_out_coverage ps))"
proof -
  have "length (filter (\<lambda>p. advertises_children p \<noteq> Some False) ps) =
      length (filter (\<lambda>p. advertises_children p \<noteq> Some False \<and> (child_rows p > 0 \<or> miss_recorded p)) ps) +
      length (filter (\<lambda>p. advertises_children p \<noteq> Some False \<and> child_rows p = 0 \<and> \<not> miss_recorded p) ps)"
    by (induction ps) auto
  then show ?thesis by (auto simp: audit_fan_out_coverage_def Let_def fan_out_fold filter_empty_conv)
qed

definition sample_parents :: "fan_out_parent list" where
  "sample_parents = [\<lparr>parent_id = ''a'', advertises_children = Some True, child_rows = 2, miss_recorded = False\<rparr>,
     \<lparr>parent_id = ''b'', advertises_children = None, child_rows = 0, miss_recorded = True\<rparr>]"

theorem fan_out_coverage_witness:
  "fan_complete (audit_fan_out_coverage sample_parents)"
proof -
  have "\<forall>p \<in> set sample_parents. advertises_children p = Some False \<or> 0 < child_rows p \<or> miss_recorded p"
    by (simp add: sample_parents_def)
  with fan_out_coverage [of sample_parents] show ?thesis by blast
qed

end
