(* ===== verification/Scan_Plan.thy ===== *)
theory Scan_Plan
  imports Prelude "HOL-Library.List_Lexorder"
begin

text \<open>
  \<open>connectors/lightspeed-r/scan-plan.ts\<close>: the tables of the vendor specification are grouped by
  the resource whose walk fills them (\<open>buildScanPlan\<close>), each group with its leader table, the
  union of the relations it must request (\<open>collapseRelations\<close>) and its id field.

  The specification (\<open>tables.json\<close>) is an argument. \<open>localeCompare\<close> is the rank \<open>collate\<close>;
  \<open>Array.prototype.sort\<close> without a comparator is the lexicographic order on code units.
\<close>

section \<open>The specification\<close>

record spec_column =
  col_name :: string
  col_type :: string
  col_api :: string
  col_description :: string
  col_key :: bool
  col_pii :: bool
  col_load_bearing :: bool
  col_deprecated :: bool
  col_enums :: "string option"

record spec_parent =
  parent_resource :: string
  parent_project_from :: "string option"

record spec_pushdown =
  push_column :: string
  push_param :: string
  push_sortable :: bool

record spec_table =
  table_id :: string
  table_domain :: string
  table_grain :: string
  table_description :: string
  table_additivity :: string
  table_additivity_axis :: "string option"
  table_primary_key :: "string list"
  table_record_id_field :: "string option"
  table_endpoint :: "string option"
  table_parents :: "spec_parent list"
  table_scan_groups :: "string list"
  table_is_group_leader :: bool
  table_requires_parent_ids :: bool
  table_via_alias :: "string option"
  table_load_relations :: "string list"
  table_pushdowns :: "spec_pushdown list"
  table_canonical_targets :: "string list"
  table_gotchas :: "string list"
  table_columns :: "spec_column list"

datatype projection = Records | Nested

record group_member =
  member_table :: spec_table
  member_projection :: projection
  member_project_from :: "string option"

record scan_group =
  group_resource :: string
  group_path :: string
  group_leader :: spec_table
  group_members :: "group_member list"
  group_relations :: "string list"
  group_id_field :: string
  group_keyset_capable :: bool
  group_extra_params :: "(string \<times> string) list list"

record fan_out_scan =
  fan_table :: spec_table
  fan_parent_resource :: string
  fan_endpoint :: string

record scan_plan =
  plan_groups :: "scan_group list"
  plan_fan_outs :: "fan_out_scan list"
  plan_table_count :: nat

datatype plan_error = No_leader string | Uncovered "string list"

definition EXTRA_PARAM_SETS :: "(string \<times> (string \<times> string) list list) list" where
  "EXTRA_PARAM_SETS =
     [(''Item'', [[(''archived'', ''only'')]]),
      (''Customer'', [[(''archived'', ''only'')]]),
      (''Employee'', [[(''archived'', ''only'')]]),
      (''Vendor'', [[(''archived'', ''only'')]]),
      (''ItemMatrix'', [[(''archived'', ''only'')]]),
      (''Discount'', [[(''archived'', ''only'')]]),
      (''CreditAccount'', [[(''giftCard'', ''true'')]])]"

section \<open>Relations and id fields\<close>

definition extends :: "string \<Rightarrow> string \<Rightarrow> bool" where
  "extends other r \<longleftrightarrow> other \<noteq> r \<and> prefix (r @ ''.'') other"

definition collapse_relations :: "string list \<Rightarrow> string list" where
  "collapse_relations relations =
     (let unique = sort (uniq (filter (\<lambda>r. trim r \<noteq> []) relations))
      in filter (\<lambda>r. \<not> list_ex (\<lambda>other. extends other r) unique) unique)"

definition resource_path :: "string \<Rightarrow> string" where
  "resource_path resource = resource @ ''.json''"

text \<open>\<open>toLowerCase\<close> of one code unit below 256.\<close>

definition lower_char :: "char \<Rightarrow> char" where
  "lower_char c =
     (if (65 \<le> code c \<and> code c \<le> 90) \<or> (192 \<le> code c \<and> code c \<le> 222 \<and> code c \<noteq> 215)
      then char_of (code c + 32) else c)"

definition conventional_id :: "string \<Rightarrow> string" where
  "conventional_id resource = map lower_char (take 1 resource) @ drop 1 resource @ ''ID''"

definition id_field_for :: "string \<Rightarrow> group_member list \<Rightarrow> string" where
  "id_field_for resource members =
     (case members of
        [] \<Rightarrow> conventional_id resource
      | m # _ \<Rightarrow> (case table_record_id_field (member_table m) of
                   Some f \<Rightarrow> if f = [] then conventional_id resource else f
                 | None \<Rightarrow> conventional_id resource))"

text \<open>\<open>c.api.split(".").pop()\<close>.\<close>

definition last_segment :: "string \<Rightarrow> string" where
  "last_segment s = rev (takeWhile (\<lambda>c. c \<noteq> CHR ''.'') (rev s))"

definition keyset_capable :: "group_member list \<Rightarrow> string \<Rightarrow> bool" where
  "keyset_capable members id_field =
     (case members of
        [] \<Rightarrow> False
      | m # _ \<Rightarrow>
          (case List.find (\<lambda>c. last_segment (col_api c) = id_field) (table_columns (member_table m)) of
             None \<Rightarrow> False
           | Some c \<Rightarrow> list_ex (\<lambda>p. push_column p = col_name c) (table_pushdowns (member_table m))))"

section \<open>Building the plan\<close>

record group_entry =
  entry_leader :: "spec_table option"
  entry_members :: "group_member list"

type_synonym entries = "(string \<times> group_entry) list"

definition member_of :: "spec_table \<Rightarrow> spec_parent \<Rightarrow> group_member" where
  "member_of t p =
     \<lparr>member_table = t,
      member_projection = (case parent_project_from p of None \<Rightarrow> Records | Some f \<Rightarrow> if f = [] then Records else Nested),
      member_project_from = parent_project_from p\<rparr>"

definition add_parent :: "spec_table \<Rightarrow> entries \<Rightarrow> spec_parent \<Rightarrow> entries" where
  "add_parent t by_group p =
     (let entry = (case map_of by_group (parent_resource p) of
                     None \<Rightarrow> \<lparr>entry_leader = None, entry_members = []\<rparr> | Some e \<Rightarrow> e);
          leader = (if table_is_group_leader t \<and>
                       (entry_leader entry = None \<or> table_record_id_field t = Some (conventional_id (parent_resource p)))
                    then Some t else entry_leader entry)
      in AList.update (parent_resource p)
           \<lparr>entry_leader = leader, entry_members = entry_members entry @ [member_of t p]\<rparr> by_group)"

definition add_table :: "entries \<times> fan_out_scan list \<Rightarrow> spec_table \<Rightarrow> entries \<times> fan_out_scan list" where
  "add_table s t =
     (if table_requires_parent_ids t
      then (fst s, snd s @ [\<lparr>fan_table = t,
              fan_parent_resource = (case table_scan_groups t of [] \<Rightarrow> [] | g # _ \<Rightarrow> g),
              fan_endpoint = (case table_endpoint t of None \<Rightarrow> [] | Some e \<Rightarrow> e)\<rparr>])
      else (foldl (add_parent t) (fst s) (table_parents t), snd s))"

definition build_group :: "string \<times> group_entry \<Rightarrow> (plan_error, scan_group) result" where
  "build_group re =
     (case entry_leader (snd re) of
        None \<Rightarrow> Inl (No_leader (fst re))
      | Some leader \<Rightarrow>
          let members = filter (\<lambda>m. table_id (member_table m) = table_id leader) (entry_members (snd re)) @
                        filter (\<lambda>m. table_id (member_table m) \<noteq> table_id leader) (entry_members (snd re));
              id_field = id_field_for (fst re) members
          in Inr \<lparr>group_resource = fst re, group_path = resource_path (fst re), group_leader = leader,
                  group_members = members,
                  group_relations = collapse_relations (concat (map (\<lambda>m. table_load_relations (member_table m)) members)),
                  group_id_field = id_field, group_keyset_capable = keyset_capable members id_field,
                  group_extra_params = (case map_of EXTRA_PARAM_SETS (fst re) of None \<Rightarrow> [] | Some ps \<Rightarrow> ps)\<rparr>)"

definition covered_ids :: "scan_group list \<Rightarrow> fan_out_scan list \<Rightarrow> string list" where
  "covered_ids groups fan_outs =
     uniq (concat (map (\<lambda>g. map (\<lambda>m. table_id (member_table m)) (group_members g)) groups) @
           map (\<lambda>f. table_id (fan_table f)) fan_outs)"

definition build_scan_plan :: "(string \<Rightarrow> 'k::linorder) \<Rightarrow> spec_table list \<Rightarrow> (plan_error, scan_plan) result" where
  "build_scan_plan collate tables =
     (let (by_group, fan_outs) = foldl add_table ([], []) tables
      in and_then (map_r build_group (sort_key (\<lambda>re. collate (fst re)) by_group)) (\<lambda>groups.
         let covered = covered_ids groups fan_outs;
             missing = map table_id (filter (\<lambda>t. table_id t \<notin> set covered) tables)
         in if missing \<noteq> [] then Inl (Uncovered missing)
            else Inr \<lparr>plan_groups = groups, plan_fan_outs = fan_outs, plan_table_count = length covered\<rparr>))"

section \<open>Lemmas on relations\<close>

lemma extends_longer: "extends other r \<Longrightarrow> length r < length other"
  by (auto simp: extends_def dest: prefix_length_le)

lemma extends_trans: "extends a b \<Longrightarrow> extends b c \<Longrightarrow> extends a c"
proof -
  assume ab: "extends a b" and bc: "extends b c"
  have "prefix (c @ ''.'') b" "prefix b a"
    using ab bc unfolding extends_def by (auto dest: append_prefixD)
  then have "prefix (c @ ''.'') a" by (rule prefix_order.trans)
  moreover have "a \<noteq> c" using extends_longer [OF ab] extends_longer [OF bc] by auto
  ultimately show ?thesis by (simp add: extends_def)
qed

lemma maximal_extension:
  assumes "finite S" "r \<in> S"
  shows "\<exists>k \<in> S. (k = r \<or> extends k r) \<and> (\<forall>x \<in> S. \<not> extends x k)"
proof -
  let ?T = "{k \<in> S. k = r \<or> extends k r}"
  have fin: "finite (length ` ?T)" and ne: "length ` ?T \<noteq> {}" using assms by auto
  obtain k where k: "k \<in> ?T" "length k = Max (length ` ?T)" using Max_in [OF fin ne] by (metis (no_types, lifting) imageE)
  have "\<not> extends x k" if "x \<in> S" for x
  proof
    assume x: "extends x k"
    then have "x \<in> ?T" using that k(1) extends_trans by auto
    then have "length x \<le> length k" using fin k(2) by simp
    with extends_longer [OF x] show False by simp
  qed
  with k(1) show ?thesis by auto
qed

lemma set_collapse_relations:
  "set (collapse_relations rs) =
     {r \<in> set rs. trim r \<noteq> [] \<and> \<not> (\<exists>other \<in> set rs. trim other \<noteq> [] \<and> extends other r)}"
  by (auto simp: collapse_relations_def Let_def list_ex_iff)

lemma collapse_relations_covers:
  assumes "r \<in> set rs" "trim r \<noteq> []"
  shows "\<exists>k \<in> set (collapse_relations rs). k = r \<or> extends k r"
  using maximal_extension [of "{r \<in> set rs. trim r \<noteq> []}" r] assms
  unfolding set_collapse_relations by auto

lemma collapse_relations_distinct: "distinct (collapse_relations rs)"
  by (simp add: collapse_relations_def Let_def)

section \<open>Lemmas on the plan\<close>

text \<open>What the grouping fold keeps: the entries are the resources of the tables seen, the members of
  an entry are exactly the tables with that parent, and a leader is a leading member.\<close>

definition entries_ok :: "spec_table list \<Rightarrow> entries \<Rightarrow> bool" where
  "entries_ok ts es \<longleftrightarrow> distinct (map fst es) \<and>
     (\<forall>res e. (res, e) \<in> set es \<longrightarrow>
        (\<forall>m \<in> set (entry_members e). \<exists>p \<in> set (table_parents (member_table m)).
            member_table m \<in> set ts \<and> parent_resource p = res \<and> m = member_of (member_table m) p) \<and>
        (\<forall>l. entry_leader e = Some l \<longrightarrow> table_is_group_leader l \<and> (\<exists>m \<in> set (entry_members e). member_table m = l)))"

definition has_member :: "entries \<Rightarrow> spec_table \<Rightarrow> spec_parent \<Rightarrow> bool" where
  "has_member es t p \<longleftrightarrow> (\<exists>e. (parent_resource p, e) \<in> set es \<and> member_of t p \<in> set (entry_members e))"

lemma member_table_member_of [simp]: "member_table (member_of t p) = t"
  by (simp add: member_of_def)

lemma update_member: "distinct (map fst es) \<Longrightarrow>
    (k, v) \<in> set (AList.update k' v' es) \<longleftrightarrow> (if k = k' then v = v' else (k, v) \<in> set es)"
  by (metis distinct_update map_of_eq_Some_iff map_upd_Some_unfold update_conv')

lemma add_parent_ok:
  assumes "entries_ok ts es" "t \<in> set ts" "p \<in> set (table_parents t)"
  shows "entries_ok ts (add_parent t es p)"
proof -
  define entry where "entry = (case map_of es (parent_resource p) of
      None \<Rightarrow> \<lparr>entry_leader = None, entry_members = []\<rparr> | Some e \<Rightarrow> e)"
  have d: "distinct (map fst es)" using assms(1) by (simp add: entries_ok_def)
  have old: "entry = \<lparr>entry_leader = None, entry_members = []\<rparr> \<or> (parent_resource p, entry) \<in> set es"
    by (auto simp: entry_def dest: map_of_SomeD split: option.splits)
  have members: "\<forall>m \<in> set (entry_members entry). \<exists>q \<in> set (table_parents (member_table m)).
      member_table m \<in> set ts \<and> parent_resource q = parent_resource p \<and> m = member_of (member_table m) q"
    and leader: "\<forall>l. entry_leader entry = Some l \<longrightarrow>
      table_is_group_leader l \<and> (\<exists>m \<in> set (entry_members entry). member_table m = l)"
    using old assms(1) by (auto simp: entries_ok_def)
  show ?thesis
    unfolding entries_ok_def add_parent_def entry_def [symmetric] Let_def update_member [OF d]
  proof (intro conjI allI impI)
    show "distinct (map fst (AList.update (parent_resource p)
       \<lparr>entry_leader = if table_is_group_leader t \<and> (entry_leader entry = None \<or>
             table_record_id_field t = Some (conventional_id (parent_resource p)))
           then Some t else entry_leader entry,
        entry_members = entry_members entry @ [member_of t p]\<rparr> es))"
      using d by (rule distinct_update)
  next
    fix res e
    assume e: "if res = parent_resource p then e = \<lparr>entry_leader = if table_is_group_leader t \<and> (entry_leader entry = None \<or>
             table_record_id_field t = Some (conventional_id (parent_resource p)))
           then Some t else entry_leader entry,
        entry_members = entry_members entry @ [member_of t p]\<rparr> else (res, e) \<in> set es"
    show "\<forall>m\<in>set (entry_members e). \<exists>q\<in>set (table_parents (member_table m)).
        member_table m \<in> set ts \<and> parent_resource q = res \<and> m = member_of (member_table m) q"
      using e members assms by (cases "res = parent_resource p") (auto simp: entries_ok_def)
    fix l
    assume "entry_leader e = Some l"
    then have "table_is_group_leader l \<and> (\<exists>m\<in>set (entry_members e). member_table m = l)"
      using e leader assms(1) by (cases "res = parent_resource p") (auto simp: entries_ok_def split: if_splits)
    then show "table_is_group_leader l" "\<exists>m\<in>set (entry_members e). member_table m = l" by blast+
  qed
qed

lemma add_parent_member: "distinct (map fst es) \<Longrightarrow> has_member (add_parent t es p) t p"
  by (auto simp: has_member_def add_parent_def Let_def update_member)

lemma add_parent_keeps:
  assumes "distinct (map fst es)" "has_member es t' p'"
  shows "has_member (add_parent t es p) t' p'"
proof -
  obtain e where e: "(parent_resource p', e) \<in> set es" "member_of t' p' \<in> set (entry_members e)"
    using assms(2) by (auto simp: has_member_def)
  then have "map_of es (parent_resource p') = Some e" using assms(1) by simp
  with e show ?thesis
    by (cases "parent_resource p = parent_resource p'")
      (auto simp: has_member_def add_parent_def Let_def update_member [OF assms(1)])
qed

lemma add_parents:
  assumes "entries_ok ts es" "t \<in> set ts" "set ps \<subseteq> set (table_parents t)"
  shows "entries_ok ts (foldl (add_parent t) es ps) \<and>
    (\<forall>p \<in> set ps. has_member (foldl (add_parent t) es ps) t p) \<and>
    (\<forall>t' p'. has_member es t' p' \<longrightarrow> has_member (foldl (add_parent t) es ps) t' p')"
  using assms
proof (induction ps arbitrary: es)
  case (Cons p ps)
  have d: "distinct (map fst es)" using Cons.prems by (simp add: entries_ok_def)
  have "entries_ok ts (add_parent t es p)" using Cons.prems by (intro add_parent_ok) simp_all
  from Cons.IH [OF this] Cons.prems add_parent_member [OF d] add_parent_keeps [OF d]
  show ?case by auto
qed simp

lemma entries_ok_mono: "entries_ok ts es \<Longrightarrow> set ts \<subseteq> set us \<Longrightarrow> entries_ok us es"
  unfolding entries_ok_def by (meson subsetD)

definition plan_inv :: "spec_table list \<Rightarrow> spec_table list \<Rightarrow> entries \<times> fan_out_scan list \<Rightarrow> bool" where
  "plan_inv all ts s \<longleftrightarrow> entries_ok all (fst s) \<and>
     map fan_table (snd s) = filter table_requires_parent_ids ts \<and>
     (\<forall>t \<in> set ts. \<not> table_requires_parent_ids t \<longrightarrow> (\<forall>p \<in> set (table_parents t). has_member (fst s) t p))"

lemma add_table_inv:
  assumes "plan_inv all ts s" "t \<in> set all"
  shows "plan_inv all (ts @ [t]) (add_table s t)"
proof (cases "table_requires_parent_ids t")
  case True
  then show ?thesis using assms by (auto simp: plan_inv_def add_table_def)
next
  case False
  note a = add_parents [of all "fst s" t "table_parents t", OF _ assms(2) subset_refl]
  show ?thesis using False assms a by (auto simp: plan_inv_def add_table_def)
qed

lemma plan_fold_inv:
  "set ts \<subseteq> set all \<Longrightarrow> plan_inv all ts (foldl add_table ([], []) ts)"
proof (induction ts rule: rev_induct)
  case Nil
  then show ?case by (simp add: plan_inv_def entries_ok_def)
next
  case (snoc t ts)
  then show ?case using add_table_inv [of all ts "foldl add_table ([], []) ts" t] by simp
qed


lemma build_group_shape:
  assumes "build_group (res, e) = Inr g"
  shows "group_resource g = res \<and> entry_leader e = Some (group_leader g) \<and>
    set (group_members g) = set (entry_members e) \<and>
    group_relations g = collapse_relations (concat (map (\<lambda>m. table_load_relations (member_table m)) (group_members g)))"
  using assms by (auto simp: build_group_def Let_def split: option.splits)

lemma build_group_leader_first:
  assumes "build_group (res, e) = Inr g" "\<exists>m \<in> set (entry_members e). member_table m = group_leader g"
  shows "group_members g \<noteq> [] \<and> table_id (member_table (hd (group_members g))) = table_id (group_leader g)"
proof -
  let ?P = "\<lambda>m. table_id (member_table m) = table_id (group_leader g)"
  have g: "group_members g = filter ?P (entry_members e) @ filter (\<lambda>m. \<not> ?P m) (entry_members e)"
    using assms(1) by (auto simp: build_group_def Let_def split: option.splits)
  have "filter ?P (entry_members e) \<noteq> []" using assms(2) by (simp add: filter_empty_conv) metis
  from hd_in_set [OF this] this show ?thesis unfolding g by (simp add: hd_append)
qed

lemma map_r_list_all2: "map_r f xs = Inr ys \<longleftrightarrow> list_all2 (\<lambda>x y. f x = Inr y) xs ys"
  by (induction xs arbitrary: ys) (auto simp: and_then_Inr_iff list_all2_Cons1)

section \<open>Properties\<close>



definition sample_table :: "string \<Rightarrow> bool \<Rightarrow> string option \<Rightarrow> bool \<Rightarrow> spec_table" where
  "sample_table name leader project fan =
     \<lparr>table_id = name, table_domain = [], table_grain = [], table_description = [], table_additivity = [],
      table_additivity_axis = None, table_primary_key = [], table_record_id_field = Some ''saleID'',
      table_endpoint = None, table_parents = [\<lparr>parent_resource = ''Sale'', parent_project_from = project\<rparr>],
      table_scan_groups = [''Sale''], table_is_group_leader = leader, table_requires_parent_ids = fan,
      table_via_alias = None, table_load_relations = [''SaleLines''], table_pushdowns = [],
      table_canonical_targets = [], table_gotchas = [], table_columns = []\<rparr>"

definition sample_tables :: "spec_table list" where
  "sample_tables = [sample_table ''sale_line'' False (Some ''SaleLines'') False, sample_table ''sale'' True None False,
     sample_table ''note'' False None True]"

definition sample_plan :: "(plan_error, scan_plan) result" where
  "sample_plan = build_scan_plan length sample_tables"


text \<open>\<open>collapseRelations\<close> keeps a set of requested relations of which none implies
  another, without repetition, and every requested (non-blank) relation is kept or implied by a
  longer kept path.\<close>

theorem collapse_relations_minimal:
  "set (collapse_relations rs) \<subseteq> set rs \<and> distinct (collapse_relations rs) \<and>
   (\<forall>r \<in> set (collapse_relations rs). \<forall>k \<in> set (collapse_relations rs). \<not> prefix (r @ ''.'') k) \<and>
   (\<forall>r \<in> set rs. trim r \<noteq> [] \<longrightarrow> (\<exists>k \<in> set (collapse_relations rs). k = r \<or> prefix (r @ ''.'') k))"
proof (intro conjI ballI impI)
  show "set (collapse_relations rs) \<subseteq> set rs" by (auto simp: set_collapse_relations)
  show "distinct (collapse_relations rs)" by (rule collapse_relations_distinct)
next
  fix r k
  assume rk: "r \<in> set (collapse_relations rs)" "k \<in> set (collapse_relations rs)"
  show "\<not> prefix (r @ ''.'') k"
  proof
    assume p: "prefix (r @ ''.'') k"
    then have "extends k r" using prefix_length_le [OF p] by (auto simp: extends_def)
    with rk show False by (auto simp: set_collapse_relations)
  qed
next
  fix r
  assume "r \<in> set rs" "trim r \<noteq> []"
  then show "\<exists>k \<in> set (collapse_relations rs). k = r \<or> prefix (r @ ''.'') k"
    using collapse_relations_covers [of r rs] by (auto simp: extends_def)
qed

theorem collapse_relations_minimal_witness:
  "\<exists>k \<in> set (collapse_relations [''SaleLines'', ''SaleLines.Discount'', '' '']). k = ''SaleLines'' \<or> prefix (''SaleLines'' @ ''.'') k"
proof -
  have "''SaleLines'' \<in> set [''SaleLines'', ''SaleLines.Discount'', '' '']" "trim ''SaleLines'' \<noteq> []"
    by simp_all code_simp
  then show ?thesis using collapse_relations_minimal [of "[''SaleLines'', ''SaleLines.Discount'', '' '']"] by blast
qed

end
