(* ===== verification/Json.thy ===== *)
theory Json
  imports Prelude
begin

text \<open>
  JSON values as the sources handle them, after \<open>JSON.parse\<close>: property access, \<open>String(v)\<close>,
  \<open>Number(v)\<close>, and \<open>JSON.stringify\<close> of what is sent back. Numbers are the integers (ids and
  counts); property names are not array indices, so an object lists its entries in order.
\<close>

datatype json =
    JNull | JBool bool | JNum int | JStr string | JArr "json list" | JObj "(string \<times> json) list"

text \<open>\<open>v[k]\<close> on a parsed value; \<open>None\<close> is \<open>undefined\<close>.\<close>

definition js_get :: "json \<Rightarrow> string \<Rightarrow> json option" where
  "js_get v k = (case v of JObj m \<Rightarrow> map_of m k | _ \<Rightarrow> None)"

text \<open>\<open>typeof v === "object" && v !== null\<close>, which arrays satisfy.\<close>

definition is_object :: "json \<Rightarrow> bool" where
  "is_object v = (case v of JArr _ \<Rightarrow> True | JObj _ \<Rightarrow> True | _ \<Rightarrow> False)"

definition nullish :: "json option \<Rightarrow> bool" where
  "nullish v \<longleftrightarrow> v = None \<or> v = Some JNull"

fun js_text :: "json \<Rightarrow> string" where
  "js_text JNull = ''null''"
| "js_text (JBool b) = (if b then ''true'' else ''false'')"
| "js_text (JNum n) = string_of_int n"
| "js_text (JStr s) = s"
| "js_text (JArr xs) = join_with '','' (map (\<lambda>x. if x = JNull then [] else js_text x) xs)"
| "js_text (JObj m) = ''[object Object]''"

fun js_to_number :: "json \<Rightarrow> js_num" where
  "js_to_number JNull = Fin 0"
| "js_to_number (JBool b) = Fin (if b then 1 else 0)"
| "js_to_number (JNum n) = Fin (of_int n)"
| "js_to_number v = js_number (js_text v)"

text \<open>\<open>JSON.stringify\<close> of a string: the short escapes, and \<open>\u00XX\<close> for other control characters.\<close>

definition hex_digit :: "nat \<Rightarrow> char" where
  "hex_digit d = (if d < 10 then digit_char d else char_of (87 + d))"

definition backslash :: char where
  "backslash = CHR 0x5C"

definition escape_char :: "char \<Rightarrow> string" where
  "escape_char c =
     (if code c = 34 \<or> code c = 92 then [backslash, c]
      else if code c = 8 then [backslash, CHR ''b'']
      else if code c = 9 then [backslash, CHR ''t'']
      else if code c = 10 then [backslash, CHR ''n'']
      else if code c = 12 then [backslash, CHR ''f'']
      else if code c = 13 then [backslash, CHR ''r'']
      else if code c < 32 then backslash # ''u00'' @ [hex_digit (code c div 16), hex_digit (code c mod 16)]
      else [c])"

definition quote :: "string \<Rightarrow> string" where
  "quote s = CHR 0x22 # concat (map escape_char s) @ [CHR 0x22]"

definition stringify_strings :: "string list \<Rightarrow> string" where
  "stringify_strings ss = CHR ''['' # join_with '','' (map quote ss) @ '']''"

text \<open>\<open>JSON.stringify\<close> with a replacer that sorts the entries of every object by the rank of
  their key.\<close>

fun stable_stringify :: "(string \<Rightarrow> 'k::linorder) \<Rightarrow> json \<Rightarrow> string" where
  "stable_stringify collate JNull = ''null''"
| "stable_stringify collate (JBool b) = (if b then ''true'' else ''false'')"
| "stable_stringify collate (JNum n) = string_of_int n"
| "stable_stringify collate (JStr s) = quote s"
| "stable_stringify collate (JArr xs) = CHR ''['' # join_with '','' (map (stable_stringify collate) xs) @ '']''"
| "stable_stringify collate (JObj m) =
     CHR 0x7B # join_with '',''
       (map (\<lambda>e. quote (fst e) @ '':'' @ snd e)
         (sort_key (\<lambda>e. collate (fst e)) (map (\<lambda>e. (fst e, stable_stringify collate (snd e))) m))) @ [CHR 0x7D]"

lemma js_get_simps [simp]:
  "js_get (JObj m) k = map_of m k"
  "js_get (JArr xs) k = None"
  "js_get JNull k = None"
  "js_get (JStr s) k = None"
  "js_get (JNum n) k = None"
  "js_get (JBool b) k = None"
  by (simp_all add: js_get_def)

text \<open>The order of an object's keys does not show in its stable rendering, when different keys have
  different ranks.\<close>

lemma sort_key_perm:
  assumes "inj_on f (set xs)" "distinct xs" "distinct ys" "set xs = set ys"
  shows "sort_key f xs = sort_key f ys"
proof -
  have "sorted (map f (sort_key f xs))" "sorted (map f (sort_key f ys))" by simp_all
  moreover have "distinct (map f (sort_key f xs))" "distinct (map f (sort_key f ys))"
    using assms by (simp_all add: distinct_map)
  moreover have "set (map f (sort_key f xs)) = set (map f (sort_key f ys))" using assms(4) by simp
  ultimately have "map f (sort_key f xs) = map f (sort_key f ys)" by (intro sorted_distinct_set_unique)
  moreover have "inj_on f (set (sort_key f xs) \<union> set (sort_key f ys))" using assms by simp
  ultimately show ?thesis by (rule map_inj_on)
qed

lemma stable_stringify_perm:
  assumes "inj collate" "distinct (map fst m)" "distinct (map fst m')" "set m = set m'"
  shows "stable_stringify collate (JObj m) = stable_stringify collate (JObj m')"
proof -
  let ?r = "map (\<lambda>e. (fst e, stable_stringify collate (snd e)))"
  have fsts: "map fst (?r m) = map fst m" for m :: "(string \<times> json) list" by simp
  have "inj_on (\<lambda>e. collate (fst e)) (set (?r m))"
  proof (rule inj_onI)
    fix x y
    assume xy: "x \<in> set (?r m)" "y \<in> set (?r m)" "collate (fst x) = collate (fst y)"
    then have "fst x = fst y" using assms(1) by (simp add: inj_eq)
    have "distinct (map fst (?r m))" using assms(2) by (simp only: fsts)
    then have "inj_on fst (set (?r m))" by (simp only: distinct_map)
    with \<open>fst x = fst y\<close> xy(1,2) show "x = y" by (simp only: inj_on_def)
  qed
  moreover have "distinct (?r m)" "distinct (?r m')"
    using assms(2,3) distinct_map [of fst "?r m"] distinct_map [of fst "?r m'"] by (simp_all only: fsts simp_thms)
  moreover have "set (?r m) = set (?r m')" using assms(4) by simp
  ultimately have "sort_key (\<lambda>e. collate (fst e)) (?r m) = sort_key (\<lambda>e. collate (fst e)) (?r m')"
    by (rule sort_key_perm)
  then show ?thesis by (simp only: stable_stringify.simps)
qed

end
