(* ===== verification/Connector_Errors.thy ===== *)
theory Connector_Errors
  imports Prelude
begin

text \<open>\<open>packages/connector-sdk/src/errors.ts\<close>: the error values of the connector packages.\<close>

datatype connector_error_code =
    AUTHENTICATION_REQUIRED | CAPABILITY_UNAVAILABLE | CONFIGURATION_INVALID | CREDENTIAL_CONFLICT
  | CURSOR_INVALID | OAUTH_EXCHANGE_FAILED | RATE_LIMITED | REMOTE_RESPONSE_INVALID | REMOTE_UNAVAILABLE
  | WEBHOOK_SIGNATURE_INVALID

text \<open>\<open>err_status\<close> is set for a \<open>ConnectorHttpError\<close> only.\<close>

record connector_error =
  err_code :: connector_error_code
  err_retryable :: bool
  err_retry_after_ms :: "int option"
  err_status :: "int option"

definition connector_error :: "connector_error_code \<Rightarrow> bool \<Rightarrow> connector_error" where
  "connector_error c retryable = \<lparr>err_code = c, err_retryable = retryable, err_retry_after_ms = None, err_status = None\<rparr>"

definition connector_http_error :: "int \<Rightarrow> bool \<Rightarrow> int option \<Rightarrow> connector_error" where
  "connector_http_error status retryable retry_after =
     \<lparr>err_code = (if status = 429 then RATE_LIMITED else REMOTE_UNAVAILABLE), err_retryable = retryable,
      err_retry_after_ms = retry_after, err_status = Some status\<rparr>"

end
