(* ===== verification/Page_Fetch.thy ===== *)
theory Page_Fetch
  imports Json Scan_Plan Scan_Completeness Civil_Dates Connector_Errors
begin

text \<open>
  \<open>connectors/lightspeed-r/fetch-core.ts\<close>: one page of a scan group, from the request to the
  staging records of every table of the group, and the decision whether the walk may advance.

  Parameters: \<open>url_after\<close> is \<open>new URL(u).searchParams.get("after")\<close> (\<open>None\<close> when the constructor
  throws), \<open>uri_decode\<close> is \<open>decodeURIComponent\<close>, \<open>hash\<close> the caller's hash function, \<open>collate\<close> the
  rank of \<open>localeCompare\<close> and \<open>date_parse\<close> is \<open>Date.parse\<close>.
\<close>

definition MAX_PAGE_SIZE :: int where
  "MAX_PAGE_SIZE = 100"

record vendor_page =
  page_records :: "json list"
  page_next_url :: "string option"
  page_reported_count :: "real option"

datatype block_code = Pagination_identity_invalid | Pagination_not_advancing

record raw_source_record =
  source_object_type :: string
  source_record_id :: string
  source_updated_at :: "string option"
  payload :: json
  payload_hash :: string

section \<open>Requests\<close>

definition set_param :: "(string \<times> string) list \<Rightarrow> string \<times> string \<Rightarrow> (string \<times> string) list" where
  "set_param ps kv = AList.update (fst kv) (snd kv) ps"

definition present :: "string option \<Rightarrow> bool" where
  "present s \<longleftrightarrow> (case s of None \<Rightarrow> False | Some t \<Rightarrow> t \<noteq> [])"

definition build_page_request ::
    "scan_group \<Rightarrow> id_window option \<Rightarrow> string option \<Rightarrow> (string \<times> string) list \<Rightarrow> int option \<Rightarrow> fetch_request" where
  "build_page_request grp window after extra_params page_size_option =
     (let page_size = min (case page_size_option of None \<Rightarrow> MAX_PAGE_SIZE | Some n \<Rightarrow> n) MAX_PAGE_SIZE;
          walk = (if present after then [(''after'', the after)]
             else let base = set_param [(''limit'', string_of_int page_size)] (''sort'', group_id_field grp)
                  in case window of
                       Some w \<Rightarrow>
                         if group_keyset_capable grp
                         then set_param base (group_id_field grp,
                                ''><,'' @ string_of_int (win_from w) @ '','' @ string_of_int (win_to w))
                         else base
                     | None \<Rightarrow> base);
          related = (if group_relations grp \<noteq> []
                     then set_param walk (''load_relations'', stringify_strings (group_relations grp)) else walk)
      in \<lparr>request_path = group_path grp, request_params = foldl set_param related extra_params\<rparr>)"

datatype bound = Min_bound | Max_bound

definition build_bound_request :: "scan_group \<Rightarrow> bound \<Rightarrow> (string \<times> string) list \<Rightarrow> fetch_request" where
  "build_bound_request grp b extra_params =
     \<lparr>request_path = group_path grp,
      request_params = foldl set_param
        [(''limit'', ''1''), (''sort'', if b = Max_bound then CHR ''-'' # group_id_field grp else group_id_field grp)]
        extra_params\<rparr>"

section \<open>Envelopes\<close>

definition parse_envelope :: "json \<Rightarrow> string \<Rightarrow> (connector_error, vendor_page) result" where
  "parse_envelope body resource =
     (if \<not> is_object body then Inl (connector_error REMOTE_RESPONSE_INVALID False)
      else let attributes = (case js_get body ''@attributes'' of None \<Rightarrow> JObj [] | Some JNull \<Rightarrow> JObj [] | Some a \<Rightarrow> a);
               records = (case js_get body resource of
                            None \<Rightarrow> [] | Some JNull \<Rightarrow> [] | Some (JArr rs) \<Rightarrow> rs | Some r \<Rightarrow> [r]);
               next_url = (case js_get attributes ''next'' of Some (JStr s) \<Rightarrow> if s = [] then None else Some s | _ \<Rightarrow> None);
               count = (case js_get attributes ''count'' of None \<Rightarrow> None
                        | Some c \<Rightarrow> (case js_to_number c of Fin x \<Rightarrow> Some x | _ \<Rightarrow> None))
           in Inr \<lparr>page_records = records, page_next_url = next_url, page_reported_count = count\<rparr>)"

text \<open>The fallback regular expression \<open>/[?&]after=([^&]+)/\<close>: the first such position.\<close>

fun find_after :: "string \<Rightarrow> string option" where
  "find_after [] = None"
| "find_after (c # cs) =
     (if (c = CHR ''?'' \<or> c = CHR ''&'') \<and> prefix ''after='' cs \<and> takeWhile (\<lambda>x. x \<noteq> CHR ''&'') (drop 6 cs) \<noteq> []
      then Some (takeWhile (\<lambda>x. x \<noteq> CHR ''&'') (drop 6 cs))
      else find_after cs)"

definition after_token_from ::
    "(string \<Rightarrow> string option option) \<Rightarrow> (string \<Rightarrow> string) \<Rightarrow> string option \<Rightarrow> string option" where
  "after_token_from url_after uri_decode next_url =
     (if \<not> present next_url then None
      else case url_after (the next_url) of
             Some token \<Rightarrow> token
           | None \<Rightarrow> map_option uri_decode (find_after (the next_url)))"

section \<open>Paths and relations\<close>

fun follow :: "json \<Rightarrow> string list \<Rightarrow> json option" where
  "follow current [] = Some current"
| "follow current (segment # segments) =
     (if \<not> is_object current then None
      else case js_get current segment of None \<Rightarrow> None | Some v \<Rightarrow> follow v segments)"

definition resolve_path :: "json \<Rightarrow> string \<Rightarrow> json list" where
  "resolve_path v path =
     (case follow v (filter (\<lambda>s. s \<noteq> []) (split_on (CHR ''.'') path)) of
        None \<Rightarrow> [] | Some JNull \<Rightarrow> [] | Some (JArr xs) \<Rightarrow> xs | Some x \<Rightarrow> [x])"

definition SPARSE_RELATIONS :: "string list" where
  "SPARSE_RELATIONS = [''CreditAccount.Contact'', ''Customer.Note'', ''Item.ItemComponents'', ''Item.ItemFees'', ''Item.ItemVendorNums'']"

definition relation_root :: "string \<Rightarrow> string" where
  "relation_root path = hd (split_on (CHR ''.'') path)"

definition nested_root :: "group_member \<Rightarrow> string option" where
  "nested_root m =
     (if member_projection m = Nested \<and> present (member_project_from m)
      then Some (relation_root (the (member_project_from m))) else None)"

definition required_roots :: "scan_group \<Rightarrow> string list \<Rightarrow> string list" where
  "required_roots grp requested =
     uniq (filter (\<lambda>root. root \<in> relation_root ` set requested \<and>
                     group_resource grp @ ''.'' @ root \<notin> set SPARSE_RELATIONS)
       (List.map_filter nested_root (group_members grp)))"

definition assert_relations_present :: "scan_group \<Rightarrow> json list \<Rightarrow> string list \<Rightarrow> (connector_error, unit) result" where
  "assert_relations_present grp records requested =
     (if records = [] then Inr ()
      else let missing = filter (\<lambda>key. \<not> list_ex (\<lambda>r. js_get r key \<noteq> None) records) (required_roots grp requested)
           in if missing = [] then Inr () else Inl (connector_error REMOTE_RESPONSE_INVALID False))"

section \<open>Staging records\<close>

definition read_record_id :: "json \<Rightarrow> string \<Rightarrow> string option" where
  "read_record_id record id_field =
     (case js_get record id_field of
        None \<Rightarrow> None
      | Some JNull \<Rightarrow> None
      | Some v \<Rightarrow> (let text = trim (js_text v) in if text = [] then None else Some text))"

definition read_source_updated_at :: "(string \<Rightarrow> int option) \<Rightarrow> json \<Rightarrow> string option" where
  "read_source_updated_at date_parse record =
     (case List.map_filter (\<lambda>key. case js_get record key of
             Some (JStr s) \<Rightarrow> if s = [] then None else map_option iso_string (date_parse s)
           | _ \<Rightarrow> None) [''timeStamp'', ''updateTime'', ''createTime''] of
        [] \<Rightarrow> None | t # _ \<Rightarrow> Some t)"

record projector =
  proj_hash :: "json \<Rightarrow> string"
  proj_date_parse :: "string \<Rightarrow> int option"

definition own_id :: "group_member \<Rightarrow> json \<Rightarrow> string option" where
  "own_id m v = (case table_record_id_field (member_table m) of
     None \<Rightarrow> None | Some f \<Rightarrow> if f = [] then None else read_record_id v f)"

definition emit ::
    "projector \<Rightarrow> scan_group \<Rightarrow> group_member \<Rightarrow> json \<Rightarrow> raw_source_record list \<Rightarrow> json \<Rightarrow> raw_source_record list" where
  "emit pr grp m parent out v =
     out @ [\<lparr>source_object_type = table_id (member_table m),
             source_record_id = (case own_id m v of
                Some i \<Rightarrow> i
              | None \<Rightarrow> (case read_record_id parent (group_id_field grp) of
                    Some p \<Rightarrow> p @ '':'' @ string_of_nat (length out)
                  | None \<Rightarrow> group_resource grp @ '':'' @ string_of_nat (length out))),
             source_updated_at = read_source_updated_at (proj_date_parse pr) v,
             payload = v, payload_hash = proj_hash pr v\<rparr>]"

definition project_member ::
    "projector \<Rightarrow> scan_group \<Rightarrow> json \<Rightarrow> raw_source_record list \<Rightarrow> group_member \<Rightarrow> raw_source_record list" where
  "project_member pr grp record out m =
     (if member_projection m = Records then emit pr grp m record out record
      else if \<not> present (member_project_from m) then out
      else foldl (emit pr grp m record) out
             (filter is_object (resolve_path record (the (member_project_from m)))))"

definition project_page :: "projector \<Rightarrow> scan_group \<Rightarrow> vendor_page \<Rightarrow> raw_source_record list" where
  "project_page pr grp page =
     foldl (\<lambda>out record. foldl (project_member pr grp record) out (group_members grp)) [] (page_records page)"

section \<open>Advancing\<close>

definition evaluate_pagination ::
    "(string \<Rightarrow> string option option) \<Rightarrow> (string \<Rightarrow> string) \<Rightarrow> string option \<Rightarrow> string option
       \<Rightarrow> string option \<times> block_code option" where
  "evaluate_pagination url_after uri_decode previous_after next_url =
     (let next_after = after_token_from url_after uri_decode next_url
      in if present next_url \<and> \<not> present next_after then (None, Some Pagination_identity_invalid)
         else if present next_after \<and> next_after = previous_after then (None, Some Pagination_not_advancing)
         else (next_after, None))"

section \<open>Lemmas\<close>

text \<open>The rows one record yields for one member, in order.\<close>

definition member_payloads :: "json \<Rightarrow> group_member \<Rightarrow> json list" where
  "member_payloads record m =
     (if member_projection m = Records then [record]
      else if \<not> present (member_project_from m) then []
      else filter is_object (resolve_path record (the (member_project_from m))))"

definition row_of :: "raw_source_record \<Rightarrow> string \<times> json" where
  "row_of r = (source_object_type r, payload r)"

lemma emit_rows: "map row_of (emit pr grp m parent out v) = map row_of out @ [(table_id (member_table m), v)]"
  by (simp add: emit_def row_of_def)

lemma emit_all_rows:
  "map row_of (foldl (emit pr grp m parent) out vs) = map row_of out @ map (\<lambda>v. (table_id (member_table m), v)) vs"
  by (induction vs arbitrary: out) (simp_all add: emit_rows)

lemma project_member_rows:
  "map row_of (project_member pr grp record out m) =
     map row_of out @ map (\<lambda>v. (table_id (member_table m), v)) (member_payloads record m)"
  by (simp add: project_member_def member_payloads_def emit_rows emit_all_rows)

lemma project_members_rows:
  "map row_of (foldl (project_member pr grp record) out ms) =
     map row_of out @ concat (map (\<lambda>m. map (\<lambda>v. (table_id (member_table m), v)) (member_payloads record m)) ms)"
  by (induction ms arbitrary: out) (simp_all add: project_member_rows)

lemma project_page_rows:
  "map row_of (foldl (\<lambda>out record. foldl (project_member pr grp record) out ms) out records) =
     map row_of out @ concat (map (\<lambda>record.
        concat (map (\<lambda>m. map (\<lambda>v. (table_id (member_table m), v)) (member_payloads record m)) ms)) records)"
  by (induction records arbitrary: out) (simp_all add: project_members_rows)

lemma set_map_filter: "set (List.map_filter f xs) = {y. \<exists>x \<in> set xs. f x = Some y}"
  by (induction xs) (auto simp: List.map_filter_simps split: option.splits)

lemma map_of_set_param: "map_of (set_param ps kv) k = (if k = fst kv then Some (snd kv) else map_of ps k)"
  by (simp add: set_param_def update_conv')

lemma map_of_set_params:
  "k \<notin> fst ` set extra \<Longrightarrow> map_of (foldl set_param ps extra) k = map_of ps k"
  by (induction extra arbitrary: ps) (auto simp: map_of_set_param)

section \<open>Properties\<close>

text \<open>C26. \<open>projectPage\<close> stages, in page order, exactly one row of the member's table for every
  record of a \<open>records\<close> member and one for every object under the projection path of a \<open>nested\<close>
  member, with the vendor's payload unchanged: no record or member is skipped or repeated.\<close>

theorem projection_complete:
  "map (\<lambda>r. (source_object_type r, payload r)) (project_page pr grp page) =
     concat (map (\<lambda>record. concat (map (\<lambda>m.
        map (\<lambda>v. (table_id (member_table m), v)) (member_payloads record m)) (group_members grp))) (page_records page))"
  using project_page_rows [of pr grp "group_members grp" "[]" "page_records page"]
  by (simp add: project_page_def row_of_def [abs_def])



text \<open>When \<open>assertRelationsPresent\<close> passes a non-empty page, the root of every nested member's
  path that was requested and is not known to be sparse is a key of at least one record, so no
  such table silently stages nothing.\<close>

theorem relations_present_sound:
  assumes "assert_relations_present grp records requested = Inr ()" "records \<noteq> []"
    and "m \<in> set (group_members grp)" "member_projection m = Nested" "member_project_from m = Some path" "path \<noteq> []"
    and "relation_root path \<in> relation_root ` set requested"
    and "group_resource grp @ ''.'' @ relation_root path \<notin> set SPARSE_RELATIONS"
  shows "\<exists>r \<in> set records. js_get r (relation_root path) \<noteq> None"
proof -
  have "nested_root m = Some (relation_root path)" using assms by (simp add: nested_root_def present_def)
  then have "relation_root path \<in> set (required_roots grp requested)"
    using assms(3,7,8) by (auto simp: required_roots_def set_map_filter)
  then show ?thesis
    using assms(1,2) by (auto simp: assert_relations_present_def Let_def filter_empty_conv list_ex_iff split: if_splits)
qed

definition sample_group :: scan_group where
  "sample_group = \<lparr>group_resource = ''Sale'', group_path = ''Sale.json'', group_leader = sample_table ''sale'' True None False,
     group_members = [member_of (sample_table ''sale'' True None False) \<lparr>parent_resource = ''Sale'', parent_project_from = None\<rparr>,
       member_of (sample_table ''sale_line'' False (Some ''SaleLines.SaleLine'') False)
         \<lparr>parent_resource = ''Sale'', parent_project_from = Some ''SaleLines.SaleLine''\<rparr>],
     group_relations = [''SaleLines''], group_id_field = ''saleID'', group_keyset_capable = True, group_extra_params = []\<rparr>"

definition sample_sale :: "int \<Rightarrow> json" where
  "sample_sale n = JObj [(''saleID'', JNum n),
     (''SaleLines'', JObj [(''SaleLine'', JArr [JObj [(''saleID'', JStr ''7'')]])])]"

theorem relations_present_sound_witness:
  "\<exists>r \<in> set [sample_sale 1]. js_get r ''SaleLines'' \<noteq> None"
proof -
  let ?m = "member_of (sample_table ''sale_line'' False (Some ''SaleLines.SaleLine'') False)
         \<lparr>parent_resource = ''Sale'', parent_project_from = Some ''SaleLines.SaleLine''\<rparr>"
  have a: "assert_relations_present sample_group [sample_sale 1] [''SaleLines''] = Inr ()" by code_simp
  have m: "?m \<in> set (group_members sample_group)" by (simp add: sample_group_def)
  have p: "member_projection ?m = Nested" "member_project_from ?m = Some ''SaleLines.SaleLine''" by (simp_all add: member_of_def)
  have r: "relation_root ''SaleLines.SaleLine'' = ''SaleLines''" by code_simp
  have q: "relation_root ''SaleLines.SaleLine'' \<in> relation_root ` set [''SaleLines'']" by code_simp
  have s: "group_resource sample_group @ ''.'' @ relation_root ''SaleLines.SaleLine'' \<notin> set SPARSE_RELATIONS" by code_simp
  from relations_present_sound [OF a _ m p _ q s] r show ?thesis by simp
qed

text \<open>A continuation excludes the id window, the sort and the limit from a page request: beside
  the relations and what the caller adds, the only parameter is \<open>after\<close>. Without a continuation
  the page is sorted by the immutable id and limited to at most a hundred records, and a window is
  sent exactly for a resource that filters on its id.\<close>

theorem page_request_exclusive:
  assumes "k \<notin> fst ` set extra" "k \<noteq> ''load_relations''"
  shows "map_of (request_params (build_page_request grp window after extra psize)) k =
    (if present after then (if k = ''after'' then after else None)
     else if window \<noteq> None \<and> group_keyset_capable grp \<and> k = group_id_field grp
       then Some (''><,'' @ string_of_int (win_from (the window)) @ '','' @ string_of_int (win_to (the window)))
     else if k = ''sort'' then Some (group_id_field grp)
     else if k = ''limit'' then Some (string_of_int (min (case psize of None \<Rightarrow> 100 | Some n \<Rightarrow> n) 100))
     else None)"
proof (cases "present after")
  case True
  then obtain a where "after = Some a" by (cases after) (simp_all add: present_def)
  with True assms show ?thesis
    by (simp add: build_page_request_def Let_def map_of_set_params map_of_set_param)
next
  case False
  show ?thesis
  proof (cases "window = None \<or> \<not> group_keyset_capable grp")
    case True
    then show ?thesis using False assms unfolding build_page_request_def MAX_PAGE_SIZE_def Let_def
      by (cases window) (auto simp: map_of_set_params map_of_set_param)
  next
    case other: False
    then obtain w where "window = Some w" "group_keyset_capable grp" by auto
    then show ?thesis using False assms unfolding build_page_request_def MAX_PAGE_SIZE_def Let_def
      by (simp add: map_of_set_params map_of_set_param)
  qed
qed

theorem page_request_exclusive_witness:
  "map_of (request_params (build_page_request sample_group (Some \<lparr>win_from = 1, win_to = 9\<rparr>) (Some ''tok'') [] None)) ''saleID'' = None \<and>
   map_of (request_params (build_page_request sample_group (Some \<lparr>win_from = 1, win_to = 9\<rparr>) None [] None)) ''saleID'' = Some ''><,1,9''"
proof -
  have k: "''saleID'' \<notin> fst ` set []" "''saleID'' \<noteq> ''load_relations''" by simp_all
  have s: "string_of_int 1 = ''1''" "string_of_int 9 = ''9''" by code_simp+
  have g: "group_keyset_capable sample_group" "group_id_field sample_group = ''saleID''" by (simp_all add: sample_group_def)
  show ?thesis
    unfolding page_request_exclusive [OF k] using s g by (simp add: present_def)
qed



end
