(* ===== verification/Rate_Governor.thy ===== *)
theory Rate_Governor
  imports Prelude
begin

text \<open>
  \<open>connectors/lightspeed-r/rate-governor.ts\<close>: the pacing of requests against the vendor's leaky
  bucket and its undocumented burst window. Times are milliseconds of the injected clock and are
  arguments here; a header lookup is a function from names to optional values. Numbers are reals
  (binary64 rounding is not modelled).
\<close>

record governor_options =
  opt_capacity :: "real option"
  opt_drip_rate :: "real option"
  opt_headroom :: "real option"
  opt_burst_cap :: "real option"
  opt_min_burst_cap :: "real option"

record governor =
  capacity :: real
  drip_rate :: real
  level :: real
  last_drip_at :: real
  calibrated :: bool
  burst_cap :: real
  min_burst_cap :: real
  burst_start :: real
  burst_count :: nat
  clean_windows :: nat
  headroom :: real

record governor_state =
  gs_capacity :: real
  gs_drip_rate :: real
  gs_level :: real
  gs_burst_cap :: real
  gs_calibrated :: bool

datatype throttle = Burst real | Bucket real | Unknown real

fun throttle_wait :: "throttle \<Rightarrow> real" where
  "throttle_wait (Burst w) = w"
| "throttle_wait (Bucket w) = w"
| "throttle_wait (Unknown w) = w"

definition BURST_RECOVERY_WINDOWS :: nat where
  "BURST_RECOVERY_WINDOWS = 12"

definition MAX_WAIT_MS :: real where
  "MAX_WAIT_MS = 60000"

definition or_default :: "real option \<Rightarrow> real \<Rightarrow> real" where
  "or_default x d = (case x of None \<Rightarrow> d | Some v \<Rightarrow> v)"

definition new_governor :: "governor_options \<Rightarrow> real \<Rightarrow> governor" where
  "new_governor options now =
     \<lparr>capacity = or_default (opt_capacity options) 60, drip_rate = or_default (opt_drip_rate options) 1,
      level = 0, last_drip_at = now, calibrated = False,
      burst_cap = or_default (opt_burst_cap options) 6, min_burst_cap = or_default (opt_min_burst_cap options) 1,
      burst_start = 0, burst_count = 0, clean_windows = 0, headroom = or_default (opt_headroom options) 2\<rparr>"

definition governor_snapshot :: "governor \<Rightarrow> governor_state" where
  "governor_snapshot g =
     \<lparr>gs_capacity = capacity g, gs_drip_rate = drip_rate g, gs_level = level g, gs_burst_cap = burst_cap g,
      gs_calibrated = calibrated g\<rparr>"

definition drip :: "real \<Rightarrow> governor \<Rightarrow> governor" where
  "drip now g =
     (let elapsed = now - last_drip_at g
      in if elapsed \<le> 0 then g
         else g\<lparr>level := max 0 (level g - elapsed / 1000 * drip_rate g), last_drip_at := now\<rparr>)"

definition usable :: "governor \<Rightarrow> real" where
  "usable g = max 1 (capacity g - headroom g)"

definition delay_for :: "real \<Rightarrow> real \<Rightarrow> governor \<Rightarrow> real \<times> governor" where
  "delay_for cost now g0 =
     (let g = drip now g0;
          bucket_wait = (if level g + cost \<le> usable g then 0
                         else of_int \<lceil>(level g + cost - usable g) / drip_rate g * 1000\<rceil>);
          elapsed = now - burst_start g;
          burst_wait = (if elapsed < 1000 \<and> real (burst_count g) \<ge> burst_cap g then 1000 - elapsed else 0)
      in (min MAX_WAIT_MS (max bucket_wait burst_wait), g))"

definition commit :: "real \<Rightarrow> real \<Rightarrow> governor \<Rightarrow> governor" where
  "commit cost now g0 =
     (let g = (drip now g0)\<lparr>level := level (drip now g0) + cost\<rparr>;
          g1 = (if now - burst_start g \<ge> 1000
                then let clean = clean_windows g + 1;
                         g2 = (if burst_count g > 0
                               then (if clean \<ge> BURST_RECOVERY_WINDOWS
                                     then g\<lparr>burst_cap := burst_cap g + 1, clean_windows := 0\<rparr>
                                     else g\<lparr>clean_windows := clean\<rparr>)
                               else g)
                     in g2\<lparr>burst_start := now, burst_count := 0\<rparr>
                else g)
      in g1\<lparr>burst_count := burst_count g1 + 1\<rparr>)"

definition number_of :: "string option \<Rightarrow> js_num" where
  "number_of s = (case s of None \<Rightarrow> NaN | Some t \<Rightarrow> js_number t)"

text \<open>\<open>Number(null)\<close> is 0, which is not a positive drip rate.\<close>

definition observe :: "(string \<Rightarrow> string option) \<Rightarrow> real \<Rightarrow> governor \<Rightarrow> governor" where
  "observe headers now g0 =
     (let g = (case headers ''X-LS-API-Drip-Rate'' of
                 None \<Rightarrow> g0
               | Some t \<Rightarrow> (case js_number t of Fin d \<Rightarrow> if d > 0 then g0\<lparr>drip_rate := d\<rparr> else g0 | _ \<Rightarrow> g0))
      in case headers ''X-LS-API-Bucket-Level'' of
           None \<Rightarrow> g
         | Some bucket \<Rightarrow>
             if bucket = [] then g
             else (let parts = split_on (CHR ''/'') bucket
                   in case (js_number (hd parts), number_of (if length parts < 2 then None else Some (parts ! 1))) of
                        (Fin l, Fin c) \<Rightarrow>
                          if c \<le> 0 then g
                          else g\<lparr>capacity := c, level := max 0 l, last_drip_at := now, calibrated := True\<rparr>
                      | _ \<Rightarrow> g))"

text \<open>\<open>/burst\s+rate\s+limit/i\<close>, searched in the body.\<close>

definition ascii_lower :: "char \<Rightarrow> char" where
  "ascii_lower c = (if 65 \<le> code c \<and> code c \<le> 90 then char_of (code c + 32) else c)"

definition skip_word :: "string \<Rightarrow> string \<Rightarrow> string option" where
  "skip_word w s = (if take (length w) (map ascii_lower s) = w then Some (drop (length w) s) else None)"

definition skip_spaces :: "string \<Rightarrow> string option" where
  "skip_spaces s = (if s \<noteq> [] \<and> is_space (hd s) then Some (dropWhile is_space s) else None)"

definition burst_here :: "string \<Rightarrow> bool" where
  "burst_here s =
     (case skip_word ''burst'' s of None \<Rightarrow> False | Some a \<Rightarrow>
     (case skip_spaces a of None \<Rightarrow> False | Some b \<Rightarrow>
     (case skip_word ''rate'' b of None \<Rightarrow> False | Some c \<Rightarrow>
     (case skip_spaces c of None \<Rightarrow> False | Some d \<Rightarrow> skip_word ''limit'' d \<noteq> None))))"

fun burst_rejection :: "string \<Rightarrow> bool" where
  "burst_rejection [] = False"
| "burst_rejection (c # cs) = (burst_here (c # cs) \<or> burst_rejection cs)"

definition classify_throttle ::
    "string \<Rightarrow> (string \<Rightarrow> string option) option \<Rightarrow> real \<Rightarrow> governor \<Rightarrow> throttle \<times> governor" where
  "classify_throttle body headers now g0 =
     (let g = (case headers of None \<Rightarrow> g0 | Some h \<Rightarrow> observe h now g0)
      in if burst_rejection body
         then (Burst 1000, g\<lparr>burst_cap := max (min_burst_cap g) (of_int \<lfloor>burst_cap g / 2\<rfloor>), clean_windows := 0\<rparr>)
         else if level g \<ge> usable g
         then (Bucket (min MAX_WAIT_MS (of_int \<lceil>(level g - usable g + 1) / drip_rate g * 1000\<rceil>)), g)
         else (Unknown (min MAX_WAIT_MS (of_int \<lceil>1 / drip_rate g * 1000\<rceil>)), g))"

section \<open>The registry\<close>

record registry =
  registry_options :: governor_options
  governors :: "(string \<times> governor) list"

definition registry_for :: "string \<Rightarrow> real \<Rightarrow> registry \<Rightarrow> governor \<times> registry" where
  "registry_for connection now r =
     (case map_of (governors r) connection of
        Some g \<Rightarrow> (g, r)
      | None \<Rightarrow> (let g = new_governor (registry_options r) now
                in (g, r\<lparr>governors := AList.update connection g (governors r)\<rparr>)))"

definition registry_snapshot :: "registry \<Rightarrow> (string \<times> governor_state) list" where
  "registry_snapshot r = map (\<lambda>ig. (fst ig, governor_snapshot (snd ig))) (governors r)"

section \<open>Invariant\<close>

definition governor_ok :: "governor \<Rightarrow> bool" where
  "governor_ok g \<longleftrightarrow> 0 \<le> level g \<and> 0 < drip_rate g \<and> min_burst_cap g \<le> burst_cap g"

definition options_ok :: "governor_options \<Rightarrow> bool" where
  "options_ok options \<longleftrightarrow> 0 < or_default (opt_drip_rate options) 1 \<and>
     or_default (opt_min_burst_cap options) 1 \<le> or_default (opt_burst_cap options) 6"

lemma new_governor_ok: "options_ok options \<Longrightarrow> governor_ok (new_governor options now)"
  by (simp add: governor_ok_def new_governor_def options_ok_def)

lemma drip_keeps [simp]:
  "capacity (drip now g) = capacity g" "drip_rate (drip now g) = drip_rate g" "burst_cap (drip now g) = burst_cap g"
  "min_burst_cap (drip now g) = min_burst_cap g" "burst_start (drip now g) = burst_start g"
  "burst_count (drip now g) = burst_count g" "headroom (drip now g) = headroom g"
  by (simp_all add: drip_def Let_def)

lemma usable_drip [simp]: "usable (drip now g) = usable g"
  by (simp add: usable_def)

lemma drip_ok: "governor_ok g \<Longrightarrow> governor_ok (drip now g)"
  by (simp add: governor_ok_def drip_def Let_def)

lemma delay_for_ok: "governor_ok g \<Longrightarrow> governor_ok (snd (delay_for cost now g))"
  by (simp add: delay_for_def Let_def drip_ok)

lemma commit_ok: "governor_ok g \<Longrightarrow> 0 \<le> cost \<Longrightarrow> governor_ok (commit cost now g)"
  using drip_ok [of g now] by (auto simp: commit_def Let_def governor_ok_def)

lemma observe_ok: "governor_ok g \<Longrightarrow> governor_ok (observe headers now g)"
  by (auto simp: observe_def Let_def governor_ok_def split: option.splits js_num.splits)

lemma classify_ok: "governor_ok g \<Longrightarrow> governor_ok (snd (classify_throttle body headers now g))"
  using observe_ok [of g _ now] by (auto simp: classify_throttle_def Let_def governor_ok_def split: option.splits)

text \<open>The operations of a governor, as they may be called in any order.\<close>

datatype governor_call =
    Delay real | Commit real | Observe "string \<Rightarrow> string option" | Classify string "(string \<Rightarrow> string option) option"

fun governor_step :: "governor \<Rightarrow> real \<times> governor_call \<Rightarrow> governor" where
  "governor_step g (now, Delay cost) = snd (delay_for cost now g)"
| "governor_step g (now, Commit cost) = commit cost now g"
| "governor_step g (now, Observe h) = observe h now g"
| "governor_step g (now, Classify body h) = snd (classify_throttle body h now g)"

fun costs_ok :: "real \<times> governor_call \<Rightarrow> bool" where
  "costs_ok (now, Delay cost) = (cost = 1 \<or> cost = 10)"
| "costs_ok (now, Commit cost) = (cost = 1 \<or> cost = 10)"
| "costs_ok _ = True"

lemma governor_step_ok: "governor_ok g \<Longrightarrow> costs_ok c \<Longrightarrow> governor_ok (governor_step g c)"
  by (cases "(g, c)" rule: governor_step.cases) (auto simp: delay_for_ok commit_ok observe_ok classify_ok)

lemma governor_run_ok: "governor_ok g \<Longrightarrow> \<forall>c \<in> set calls. costs_ok c \<Longrightarrow> governor_ok (foldl governor_step g calls)"
  by (induction calls arbitrary: g) (simp_all add: governor_step_ok)

lemma delay_for_bounds:
  assumes "governor_ok g"
  shows "0 \<le> fst (delay_for cost now g) \<and> fst (delay_for cost now g) \<le> 60000"
proof -
  let ?g = "drip now g"
  have "0 < drip_rate g" using assms by (simp add: governor_ok_def)
  then have "\<not> level ?g + cost \<le> usable g \<Longrightarrow> 0 \<le> (level ?g + cost - usable g) / drip_rate g * 1000"
    by simp
  then have "\<not> level ?g + cost \<le> usable g \<Longrightarrow> 0 \<le> \<lceil>(level ?g + cost - usable g) / drip_rate g * 1000\<rceil>"
    by (meson dual_order.strict_trans2 neg_less_0_iff_less zero_le_ceiling zero_less_one less_le_trans less_minus_one_simps(1))
  then show ?thesis by (auto simp: delay_for_def Let_def MAX_WAIT_MS_def)
qed


lemma last_drip_drip: "last_drip_at g \<le> now \<Longrightarrow> last_drip_at (drip now g) = now"
  by (simp add: drip_def Let_def)

lemma delay_for_enough:
  assumes ok: "governor_ok g" and cost: "0 \<le> cost" "cost \<le> usable g" and clock: "last_drip_at g \<le> now"
    and w: "fst (delay_for cost now g) = w" "w < 60000"
  shows "fst (delay_for cost (now + w) (snd (delay_for cost now g))) = 0"
proof -
  define g1 where "g1 = drip now g"
  define bucket where "bucket = (if level g1 + cost \<le> usable g then 0
      else real_of_int \<lceil>(level g1 + cost - usable g) / drip_rate g * 1000\<rceil>)"
  define burst where "burst = (if now - burst_start g < 1000 \<and> real (burst_count g) \<ge> burst_cap g
      then 1000 - (now - burst_start g) else 0)"
  have r: "0 < drip_rate g" using ok by (simp add: governor_ok_def)
  have w_eq: "w = max bucket burst" "w < 60000"
    using w by (auto simp: delay_for_def Let_def bucket_def burst_def g1_def MAX_WAIT_MS_def)
  have w0: "0 \<le> w" using delay_for_bounds [OF ok, of cost now] w by simp
  have last: "last_drip_at g1 = now" using last_drip_drip [OF clock] by (simp add: g1_def)
  have keep: "usable g1 = usable g" "drip_rate g1 = drip_rate g" "burst_start g1 = burst_start g"
    "burst_count g1 = burst_count g" "burst_cap g1 = burst_cap g" by (simp_all add: g1_def)
  have level2: "level (drip (now + w) g1) = max 0 (level g1 - w / 1000 * drip_rate g)"
  proof (cases "w = 0")
    case True
    have "0 \<le> level g1" using drip_ok [OF ok, of now] by (simp add: g1_def governor_ok_def)
    then show ?thesis using True last by (simp add: drip_def Let_def)
  qed (use w0 last keep in \<open>simp add: drip_def Let_def\<close>)
  have "level (drip (now + w) g1) + cost \<le> usable g"
  proof (cases "level g1 + cost \<le> usable g")
    case True
    have "0 \<le> w / 1000 * drip_rate g" using w0 r by simp
    then show ?thesis using True cost unfolding level2 by simp
  next
    case False
    then have "(level g1 + cost - usable g) / drip_rate g * 1000 \<le> w"
      using w_eq(1) unfolding bucket_def by (simp add: le_max_iff_disj)
    then have "level g1 + cost - usable g \<le> w / 1000 * drip_rate g" using r by (simp add: field_simps)
    then show ?thesis using cost unfolding level2 by simp
  qed
  moreover have "\<not> (now + w - burst_start g < 1000 \<and> real (burst_count g) \<ge> burst_cap g)"
    using w_eq(1) w0 unfolding burst_def by (auto split: if_splits)
  moreover have "snd (delay_for cost now g) = g1" by (simp add: delay_for_def Let_def g1_def)
  ultimately show ?thesis by (auto simp: delay_for_def Let_def keep MAX_WAIT_MS_def)
qed

section \<open>Properties\<close>


definition default_options :: governor_options where
  "default_options = \<lparr>opt_capacity = None, opt_drip_rate = None, opt_headroom = None, opt_burst_cap = None, opt_min_burst_cap = None\<rparr>"


text \<open>A wait that \<open>delayFor\<close> computes (below the one-minute ceiling) is enough: after it has
  passed, and nothing else was dispatched, a request of the same cost that fits the usable bucket
  may be issued at once.\<close>

theorem delay_is_enough:
  assumes "governor_ok g" "0 \<le> cost" "cost \<le> usable g" "last_drip_at g \<le> now"
    and "fst (delay_for cost now g) < 60000"
  shows "fst (delay_for cost (now + fst (delay_for cost now g)) (snd (delay_for cost now g))) = 0"
  by (rule delay_for_enough [OF assms(1-4) refl assms(5)])

definition busy_governor :: governor where
  "busy_governor = (new_governor default_options 0)\<lparr>level := 58, calibrated := True\<rparr>"

theorem delay_is_enough_witness:
  "fst (delay_for 10 (1000 + 9000) (snd (delay_for 10 1000 busy_governor))) = 0"
proof -
  have g: "governor_ok busy_governor" "usable busy_governor = 58" "last_drip_at busy_governor = 0"
    by (simp_all add: governor_ok_def busy_governor_def new_governor_def default_options_def or_default_def usable_def)
  have d: "fst (delay_for 10 1000 busy_governor) = 9000"
    by (simp add: delay_for_def drip_def usable_def busy_governor_def new_governor_def default_options_def or_default_def
        MAX_WAIT_MS_def Let_def)
  have h: "(0::real) \<le> 10" "10 \<le> usable busy_governor" "last_drip_at busy_governor \<le> 1000"
    "fst (delay_for 10 1000 busy_governor) < 60000"
    unfolding g d by simp_all
  show ?thesis using delay_is_enough [OF g(1) h] unfolding d .
qed

end
