(* ===== verification/Http_Client.thy ===== *)
theory Http_Client
  imports Connector_Errors
begin

text \<open>
  \<open>packages/connector-sdk/src/http.ts\<close>: the retrying fetch every connector uses, the reading of
  \<open>Retry-After\<close>, the adaptive bucket, and the concurrency limiter.

  The environment of a fetch is a record of functions of the attempt number: what the hooks, the
  network, the random source and the sleep do. A run is its outcome and the list of delays slept.
  The limiter is a step relation on its counter, its queue of waiters and the continuations that
  are resolved but have not run yet, since other code may run before them.
\<close>

section \<open>Retrying fetch\<close>

record response =
  status :: int
  retry_after_header :: "string option"

definition response_ok :: "response \<Rightarrow> bool" where
  "response_ok r \<longleftrightarrow> 200 \<le> status r \<and> status r \<le> 299"

datatype attempt = Answered response | Threw

record retry_options =
  max_attempts :: int
  base_delay_ms :: real
  max_delay_ms :: real
  attempt_timeout_ms :: real
  max_inline_retry_after_ms :: real

definition default_retry_options :: retry_options where
  "default_retry_options =
     \<lparr>max_attempts = 5, base_delay_ms = 250, max_delay_ms = 30000, attempt_timeout_ms = 30000,
      max_inline_retry_after_ms = 30000\<rparr>"

text \<open>\<open>hook_rejects\<close>: \<open>beforeRequest\<close> throws or the caller's signal aborts while it runs;
  \<open>observe_rejects\<close>: \<open>observeResponse\<close> throws; \<open>sleep_rejects\<close>: the sleep is aborted.\<close>

record environment =
  hook_rejects :: "nat \<Rightarrow> bool"
  fetch_attempt :: "nat \<Rightarrow> attempt"
  caller_aborted :: "nat \<Rightarrow> bool"
  observe_rejects :: "nat \<Rightarrow> bool"
  random :: "nat \<Rightarrow> real"
  sleep_rejects :: "nat \<Rightarrow> bool"
  clock_ms :: "nat \<Rightarrow> int"

datatype fetch_outcome = Returned response | Http_failure connector_error | Unreachable connector_error | Rejected

definition positive_duration :: "real \<Rightarrow> (connector_error, int) result" where
  "positive_duration v = (if v \<le> 0 then Inl (connector_error CONFIGURATION_INVALID False) else Inr \<lceil>v\<rceil>)"

definition positive_attempts :: "int \<Rightarrow> (connector_error, nat) result" where
  "positive_attempts v = (if v < 1 then Inl (connector_error CONFIGURATION_INVALID False) else Inr (nat v))"

definition parse_retry_after :: "(string \<Rightarrow> int option) \<Rightarrow> string option \<Rightarrow> int \<Rightarrow> int option" where
  "parse_retry_after date_parse v now =
     (case v of
        None \<Rightarrow> None
      | Some s \<Rightarrow>
          if s = [] then None
          else let by_date = map_option (\<lambda>instant. max 0 (instant - now)) (date_parse s)
               in case js_number s of
                    Fin x \<Rightarrow> if x \<ge> 0 then Some \<lceil>x * 1000\<rceil> else by_date
                  | _ \<Rightarrow> by_date)"

definition retryable_status :: "int \<Rightarrow> bool" where
  "retryable_status s \<longleftrightarrow> s = 408 \<or> s = 425 \<or> s = 429 \<or> s \<ge> 500"

record retry_limits =
  lim_attempts :: nat
  lim_base :: int
  lim_max_delay :: int
  lim_inline :: int

definition backoff :: "retry_limits \<Rightarrow> environment \<Rightarrow> nat \<Rightarrow> int" where
  "backoff l env n = \<lceil>random env n * of_int (min (lim_max_delay l) (lim_base l * 2 ^ (n - 1)))\<rceil>"

text \<open>The attempts from number \<open>n\<close> on, \<open>k\<close> of them at most.\<close>

fun attempts :: "(string \<Rightarrow> int option) \<Rightarrow> retry_limits \<Rightarrow> environment \<Rightarrow> nat \<Rightarrow> nat \<Rightarrow> fetch_outcome \<times> int list" where
  "attempts date_parse l env n 0 = (Unreachable (connector_error REMOTE_UNAVAILABLE True), [])"
| "attempts date_parse l env n (Suc k) =
     (if hook_rejects env n then (Rejected, [])
      else case fetch_attempt env n of
        Threw \<Rightarrow>
          if n = lim_attempts l \<or> caller_aborted env n
          then (Unreachable (connector_error REMOTE_UNAVAILABLE True), [])
          else let delay = backoff l env n
               in if sleep_rejects env n then (Rejected, [delay])
                  else let rest = attempts date_parse l env (n + 1) k in (fst rest, delay # snd rest)
      | Answered r \<Rightarrow>
          if observe_rejects env n then (Rejected, [])
          else if response_ok r then (Returned r, [])
          else let retry_after = parse_retry_after date_parse (retry_after_header r) (clock_ms env n)
               in if \<not> retryable_status (status r) \<or> n = lim_attempts l \<or>
                     (case retry_after of None \<Rightarrow> False | Some t \<Rightarrow> t > lim_inline l)
                  then (Http_failure (connector_http_error (status r) (retryable_status (status r)) retry_after), [])
                  else let delay = (case retry_after of Some t \<Rightarrow> t | None \<Rightarrow> backoff l env n)
                       in if sleep_rejects env n then (Rejected, [delay])
                          else let rest = attempts date_parse l env (n + 1) k in (fst rest, delay # snd rest))"

definition retry_limits :: "retry_options \<Rightarrow> (connector_error, retry_limits) result" where
  "retry_limits options =
     and_then (positive_attempts (max_attempts options)) (\<lambda>a.
     and_then (positive_duration (base_delay_ms options)) (\<lambda>b.
     and_then (positive_duration (max_delay_ms options)) (\<lambda>d.
     and_then (positive_duration (attempt_timeout_ms options)) (\<lambda>_.
     and_then (positive_duration (max_inline_retry_after_ms options)) (\<lambda>i.
       Inr \<lparr>lim_attempts = a, lim_base = b, lim_max_delay = d, lim_inline = i\<rparr>)))))"

definition fetch_with_retry ::
    "(string \<Rightarrow> int option) \<Rightarrow> environment \<Rightarrow> retry_options \<Rightarrow> (connector_error, fetch_outcome \<times> int list) result" where
  "fetch_with_retry date_parse env options =
     and_then (retry_limits options) (\<lambda>l. Inr (attempts date_parse l env 1 (lim_attempts l)))"

datatype 'v json_outcome = Json_value 'v response | Json_failure connector_error | Json_other fetch_outcome

definition request_json :: "(response \<Rightarrow> 'v option) \<Rightarrow> fetch_outcome \<Rightarrow> 'v json_outcome" where
  "request_json parse_body outcome =
     (case outcome of
        Returned r \<Rightarrow> (case parse_body r of
            Some v \<Rightarrow> Json_value v r
          | None \<Rightarrow> Json_failure (connector_error REMOTE_RESPONSE_INVALID False))
      | other \<Rightarrow> Json_other other)"

section \<open>Adaptive bucket\<close>

definition bucket_observe :: "(string \<Rightarrow> string option) \<Rightarrow> int \<Rightarrow> int \<Rightarrow> int" where
  "bucket_observe headers now not_before =
     (case (headers ''x-ls-api-bucket-level'', headers ''x-ls-api-drip-rate'') of
        (Some bucket, Some drip_text) \<Rightarrow>
          (case js_number drip_text of
             Fin d \<Rightarrow>
               if bucket = [] \<or> d \<le> 0 then not_before
               else (let parts = split_on (CHR ''/'') bucket
                     in case (js_number (hd parts), if length parts < 2 then NaN else js_number (parts ! 1)) of
                          (Fin level, Fin capacity) \<Rightarrow>
                            if level + 2 - capacity > 0 then now + \<lceil>(level + 2 - capacity) / d * 1000\<rceil> else not_before
                        | _ \<Rightarrow> not_before)
           | _ \<Rightarrow> not_before)
      | _ \<Rightarrow> not_before)"

definition bucket_delay :: "int \<Rightarrow> int \<Rightarrow> int option" where
  "bucket_delay not_before now = (if not_before - now > 0 then Some (not_before - now) else None)"

section \<open>Concurrency limiter\<close>

record limiter =
  active :: nat
  waiters :: "nat list"
  resolved :: "nat list"
  running :: "nat list"

definition new_limiter :: limiter where
  "new_limiter = \<lparr>active = 0, waiters = [], resolved = [], running = []\<rparr>"

text \<open>A call of \<open>run\<close> either waits or enters; a waiter whose promise was resolved enters when its
  continuation runs; an operation that settles leaves and resolves the first waiter.\<close>

datatype limiter_event = Call nat | Resume nat | Settle nat

inductive limiter_step :: "nat \<Rightarrow> limiter \<Rightarrow> limiter_event \<Rightarrow> limiter \<Rightarrow> bool" for limit where
  call_waits: "active s \<ge> limit \<Longrightarrow> limiter_step limit s (Call i) (s\<lparr>waiters := waiters s @ [i]\<rparr>)"
| call_enters: "active s < limit \<Longrightarrow>
    limiter_step limit s (Call i) (s\<lparr>active := active s + 1, running := i # running s\<rparr>)"
| resume: "i \<in> set (resolved s) \<Longrightarrow>
    limiter_step limit s (Resume i)
      (s\<lparr>resolved := remove1 i (resolved s), active := active s + 1, running := i # running s\<rparr>)"
| settle_empty: "i \<in> set (running s) \<Longrightarrow> waiters s = [] \<Longrightarrow>
    limiter_step limit s (Settle i) (s\<lparr>active := active s - 1, running := remove1 i (running s)\<rparr>)"
| settle_wakes: "i \<in> set (running s) \<Longrightarrow> waiters s = j # ws \<Longrightarrow>
    limiter_step limit s (Settle i)
      (s\<lparr>active := active s - 1, running := remove1 i (running s), waiters := ws, resolved := resolved s @ [j]\<rparr>)"

inductive_cases limiter_stepE: "limiter_step limit s e t"

inductive limiter_reach :: "nat \<Rightarrow> limiter \<Rightarrow> bool" for limit where
  start: "limiter_reach limit new_limiter"
| step: "limiter_reach limit s \<Longrightarrow> limiter_step limit s e t \<Longrightarrow> limiter_reach limit t"

text \<open>Schedules in which no call of \<open>run\<close> comes between the resolution of a waiter and its
  continuation.\<close>

inductive prompt_reach :: "nat \<Rightarrow> limiter \<Rightarrow> bool" for limit where
  prompt_start: "prompt_reach limit new_limiter"
| prompt_step: "prompt_reach limit s \<Longrightarrow> limiter_step limit s e t \<Longrightarrow> (\<forall>i. e = Call i \<longrightarrow> resolved s = []) \<Longrightarrow>
    prompt_reach limit t"

definition limiter_inv :: "nat \<Rightarrow> limiter \<Rightarrow> bool" where
  "limiter_inv limit s \<longleftrightarrow> active s = length (running s) \<and>
     (waiters s \<noteq> [] \<longrightarrow> limit \<le> active s + length (resolved s))"

lemma limiter_step_inv:
  assumes "limiter_step limit s e t" "limiter_inv limit s"
  shows "limiter_inv limit t"
  using assms
proof (cases rule: limiter_step.cases)
  case (resume i)
  then have "0 < length (resolved s)" by (cases "resolved s") auto
  with resume assms(2) show ?thesis by (auto simp: limiter_inv_def length_remove1)
next
  case (settle_empty i)
  with assms(2) show ?thesis by (auto simp: limiter_inv_def length_remove1)
next
  case (settle_wakes i j ws)
  then have "0 < length (running s)" by (cases "running s") auto
  with settle_wakes assms(2) show ?thesis by (auto simp: limiter_inv_def length_remove1)
qed (auto simp: limiter_inv_def)

lemma limiter_reach_inv: "limiter_reach limit s \<Longrightarrow> limiter_inv limit s"
proof (induction rule: limiter_reach.induct)
  case start
  show ?case by (simp add: limiter_inv_def new_limiter_def)
next
  case (step s e t)
  then show ?case using limiter_step_inv by blast
qed

lemma prompt_reach_inv: "prompt_reach limit s \<Longrightarrow> limiter_inv limit s \<and> active s + length (resolved s) \<le> limit"
proof (induction rule: prompt_reach.induct)
  case prompt_start
  show ?case by (simp add: limiter_inv_def new_limiter_def)
next
  case (prompt_step s e t)
  then have inv: "limiter_inv limit t" "active s = length (running s)" "active s + length (resolved s) \<le> limit"
    using limiter_step_inv by (auto simp: limiter_inv_def)
  have "active t + length (resolved t) \<le> limit"
    using prompt_step(2)
  proof (cases rule: limiter_step.cases)
    case (resume i)
    then have "Suc (length (resolved s) - Suc 0) = length (resolved s)" by (cases "resolved s") auto
    with resume inv show ?thesis by (auto simp: length_remove1)
  next
    case (settle_wakes i j ws)
    then have "Suc (length (running s) - Suc 0) = length (running s)" by (cases "running s") auto
    with settle_wakes inv show ?thesis by auto
  qed (use inv prompt_step in auto)
  with inv show ?case by blast
qed

section \<open>Lemmas on the fetch\<close>

definition env_ok :: "environment \<Rightarrow> bool" where
  "env_ok env \<longleftrightarrow> (\<forall>n. 0 \<le> random env n \<and> random env n < 1)"

lemma backoff_bounds:
  assumes "env_ok env" "0 < lim_base l" "0 < lim_max_delay l"
  shows "0 \<le> backoff l env n \<and> backoff l env n \<le> lim_max_delay l"
proof -
  let ?c = "min (lim_max_delay l) (lim_base l * 2 ^ (n - 1))"
  have c: "0 \<le> ?c" "?c \<le> lim_max_delay l" using assms by simp_all
  have r: "0 \<le> random env n" "random env n \<le> 1" using assms(1) by (auto simp: env_ok_def less_imp_le)
  have "0 \<le> random env n * of_int ?c" using r c by simp
  moreover have "random env n * of_int ?c \<le> of_int ?c" using r c by (simp add: mult_left_le_one_le)
  ultimately show ?thesis using c unfolding backoff_def by (simp add: ceiling_le_iff)
qed

lemma parse_retry_after_nonneg: "parse_retry_after date_parse v now = Some t \<Longrightarrow> 0 \<le> t"
  by (auto simp: parse_retry_after_def Let_def split: option.splits if_splits js_num.splits)

definition delays_ok :: "retry_limits \<Rightarrow> int list \<Rightarrow> bool" where
  "delays_ok l ds \<longleftrightarrow> (\<forall>d \<in> set ds. 0 \<le> d \<and> d \<le> max (lim_max_delay l) (lim_inline l))"

definition outcome_ok :: "retry_limits \<Rightarrow> fetch_outcome \<Rightarrow> bool" where
  "outcome_ok l out =
     (case out of
        Returned r \<Rightarrow> response_ok r
      | Http_failure e \<Rightarrow> (\<exists>s. err_status e = Some s \<and> \<not> (200 \<le> s \<and> s \<le> 299) \<and> err_retryable e = retryable_status s \<and>
          (err_code e = RATE_LIMITED \<longleftrightarrow> s = 429))
      | Unreachable e \<Rightarrow> err_code e = REMOTE_UNAVAILABLE \<and> err_retryable e
      | Rejected \<Rightarrow> True)"

lemma attempts_ok:
  assumes "env_ok env" "0 < lim_base l" "0 < lim_max_delay l"
  shows "length (snd (attempts date_parse l env n k)) \<le> k \<and> delays_ok l (snd (attempts date_parse l env n k)) \<and>
    outcome_ok l (fst (attempts date_parse l env n k))"
proof (induction k arbitrary: n)
  case 0
  then show ?case by (simp add: delays_ok_def outcome_ok_def connector_error_def)
next
  case (Suc k)
  note IH = Suc.IH [of "n + 1"] and b = backoff_bounds [OF assms, of n]
  show ?case
  proof (cases "fetch_attempt env n")
    case Threw
    then show ?thesis using IH b by (auto simp: Let_def delays_ok_def outcome_ok_def connector_error_def)
  next
    case (Answered r)
    let ?ra = "parse_retry_after date_parse (retry_after_header r) (clock_ms env n)"
    have d: "0 \<le> (case ?ra of Some t \<Rightarrow> t | None \<Rightarrow> backoff l env n)"
      using b parse_retry_after_nonneg by (auto split: option.splits)
    show ?thesis
      using Answered IH b d
      by (cases ?ra) (auto simp: Let_def delays_ok_def outcome_ok_def connector_http_error_def response_ok_def)
  qed
qed

text \<open>With \<open>k = lim_attempts - n + 1\<close> the loop's bound is never what ends it.\<close>

lemma attempts_last:
  assumes "k = lim_attempts l + 1 - n" "n \<le> lim_attempts l" "env_ok env" "0 < lim_base l" "0 < lim_max_delay l"
  shows "length (snd (attempts date_parse l env n k)) \<le> k - 1 \<or> fst (attempts date_parse l env n k) = Rejected"
  using assms(1,2)
proof (induction k arbitrary: n)
  case (Suc k)
  then have k: "n \<noteq> lim_attempts l \<Longrightarrow> k = lim_attempts l + 1 - (n + 1) \<and> n + 1 \<le> lim_attempts l \<and> 0 < k" by auto
  note IH = Suc.IH [of "n + 1"]
  show ?case
  proof (cases "n = lim_attempts l")
    case True
    then show ?thesis by (auto simp: Let_def split: attempt.splits)
  next
    case False
    then show ?thesis using IH k by (auto simp: Let_def split: attempt.splits)
  qed
qed simp


lemma retry_limits_pos:
  "retry_limits options = Inr l \<Longrightarrow> 1 \<le> lim_attempts l \<and> 0 < lim_base l \<and> 0 < lim_max_delay l \<and> 0 < lim_inline l \<and>
     int (lim_attempts l) = max_attempts options"
  by (auto simp: retry_limits_def and_then_Inr_iff positive_attempts_def positive_duration_def split: if_splits)

section \<open>Properties\<close>


definition flaky :: environment where
  "flaky = \<lparr>hook_rejects = (\<lambda>_. False),
     fetch_attempt = (\<lambda>n. if n = 1 then Threw
        else if n = 2 then Answered \<lparr>status = 429, retry_after_header = Some ''2''\<rparr>
        else Answered \<lparr>status = 200, retry_after_header = None\<rparr>),
     caller_aborted = (\<lambda>_. False), observe_rejects = (\<lambda>_. False), random = (\<lambda>_. 1/2),
     sleep_rejects = (\<lambda>_. False), clock_ms = (\<lambda>_. 0)\<rparr>"


text \<open>C35. In every reachable state of the concurrency limiter the counter is the number of running
  operations, and while somebody waits, the operations running or about to resume are at least
  the limit, so no wake-up is lost. On schedules where no call of \<open>run\<close> slips in between the
  resolution of a waiter and its continuation, at most \<open>limit\<close> operations run.\<close>

theorem limiter_no_lost_wakeup:
  "(limiter_reach limit s \<longrightarrow> active s = length (running s) \<and>
      (waiters s \<noteq> [] \<longrightarrow> limit \<le> length (running s) + length (resolved s))) \<and>
   (prompt_reach limit s \<longrightarrow> length (running s) \<le> limit)"
  using limiter_reach_inv [of limit s] prompt_reach_inv [of limit s] by (auto simp: limiter_inv_def)

theorem limiter_no_lost_wakeup_witness:
  "length (running (new_limiter\<lparr>active := 1, running := [7]\<rparr>)) \<le> 1"
proof -
  have "limiter_step 1 new_limiter (Call 7) (new_limiter\<lparr>active := 1, running := [7]\<rparr>)"
    using call_enters [of new_limiter 1 7] by (simp add: new_limiter_def)
  then have "prompt_reach 1 (new_limiter\<lparr>active := 1, running := [7]\<rparr>)"
    by (rule prompt_step [OF prompt_start]) (simp add: new_limiter_def)
  then show ?thesis using limiter_no_lost_wakeup by blast
qed

text \<open>C36. The limiter does not keep its limit on every schedule: with limit 1, a call that runs after
  an operation settled but before the resolved waiter's continuation enters, and then the waiter
  enters too, so two operations run at once.\<close>

theorem limiter_overshoot:
  "\<exists>s. limiter_reach 1 s \<and> running s = [2, 3] \<and> active s = 2"
proof -
  let ?s1 = "\<lparr>active = 1, waiters = [], resolved = [], running = [1]\<rparr>"
  let ?s2 = "\<lparr>active = 1, waiters = [2], resolved = [], running = [1]\<rparr>"
  let ?s3 = "\<lparr>active = 0, waiters = [], resolved = [2], running = []\<rparr>"
  let ?s4 = "\<lparr>active = 1, waiters = [], resolved = [2], running = [3]\<rparr>"
  let ?s5 = "\<lparr>active = 2, waiters = [], resolved = [], running = [2, 3]\<rparr>"
  have "limiter_step 1 new_limiter (Call 1) ?s1" using call_enters [of new_limiter 1 1] by (simp add: new_limiter_def)
  then have 1: "limiter_reach 1 ?s1" by (rule step [OF start])
  have "limiter_step 1 ?s1 (Call 2) ?s2" using call_waits [of 1 ?s1 2] by simp
  then have 2: "limiter_reach 1 ?s2" by (rule step [OF 1])
  have "limiter_step 1 ?s2 (Settle 1) ?s3" using settle_wakes [of 1 ?s2 2 "[]" 1] by simp
  then have 3: "limiter_reach 1 ?s3" by (rule step [OF 2])
  have "limiter_step 1 ?s3 (Call 3) ?s4" using call_enters [of ?s3 1 3] by simp
  then have 4: "limiter_reach 1 ?s4" by (rule step [OF 3])
  have "limiter_step 1 ?s4 (Resume 2) ?s5" using resume [of 2 ?s4 1] by (simp add: numeral_2_eq_2)
  then have "limiter_reach 1 ?s5" by (rule step [OF 4])
  then show ?thesis by (intro exI [of _ ?s5]) simp
qed

end
