(* ===== verification/Stable_Json.thy ===== *)
theory Stable_Json
  imports Json "HOL-Library.List_Lexorder"
begin

text \<open>
  The stable rendering of JSON values is unambiguous: two values with the same rendering are equal
  up to the order of the entries of their objects. This is what makes a digest of the rendering an
  identity. The rendering is the sorted value printed in order, and printing in order is injective,
  also in front of any text that a following element could start.
\<close>

fun stringify :: "json \<Rightarrow> string" where
  "stringify JNull = ''null''"
| "stringify (JBool b) = (if b then ''true'' else ''false'')"
| "stringify (JNum n) = string_of_int n"
| "stringify (JStr s) = quote s"
| "stringify (JArr xs) = CHR ''['' # join_with '','' (map stringify xs) @ '']''"
| "stringify (JObj m) = CHR 0x7B # join_with '','' (map (\<lambda>e. quote (fst e) @ '':'' @ stringify (snd e)) m) @ [CHR 0x7D]"

fun norm_json :: "json \<Rightarrow> json" where
  "norm_json (JArr xs) = JArr (map norm_json xs)"
| "norm_json (JObj m) = JObj (sort_key fst (map (\<lambda>e. (fst e, norm_json (snd e))) m))"
| "norm_json v = v"

text \<open>\<open>stableValue\<close> of the connector SDK sorts the entries too, but puts them back into an object, whose
  array indices come first whatever the order they were added in.\<close>

definition is_index_key :: "string \<Rightarrow> bool" where
  "is_index_key k \<longleftrightarrow> k \<noteq> [] \<and> list_all is_digit k \<and> (hd k = CHR ''0'' \<longrightarrow> k = ''0'') \<and> nat_of_digits k < 2 ^ 32 - 1"

definition own_order :: "(string \<times> 'a) list \<Rightarrow> (string \<times> 'a) list" where
  "own_order m = sort_key (\<lambda>e. nat_of_digits (fst e)) (filter (\<lambda>e. is_index_key (fst e)) m) @ filter (\<lambda>e. \<not> is_index_key (fst e)) m"

fun stable_value :: "json \<Rightarrow> json" where
  "stable_value (JArr xs) = JArr (map stable_value xs)"
| "stable_value (JObj m) = JObj (own_order (sort_key fst (map (\<lambda>e. (fst e, stable_value (snd e))) m)))"
| "stable_value v = v"

abbreviation stable :: "json \<Rightarrow> string" where
  "stable \<equiv> stable_stringify (\<lambda>k. k)"

lemma insort_key_map: "insort_key f (g x) (map g xs) = map g (insort_key (f \<circ> g) x xs)"
  by (induction xs) simp_all

lemma sort_key_map: "sort_key f (map g xs) = map g (sort_key (\<lambda>x. f (g x)) xs)"
  by (induction xs) (simp_all add: insort_key_map [unfolded comp_def])

lemma stable_norm: "stable v = stringify (norm_json v)"
proof (induction v)
  case (JArr xs)
  then have "map stable xs = map (\<lambda>x. stringify (norm_json x)) xs" by simp
  then show ?case by (simp cong: map_cong)
next
  case (JObj m)
  have "map (\<lambda>e. (fst e, stable (snd e))) m = map (\<lambda>e. (fst e, stringify (snd e))) (map (\<lambda>e. (fst e, norm_json (snd e))) m)"
    using JObj by (auto simp: snds.simps)
  then show ?case using JObj by (auto simp: sort_key_map comp_def snds.simps intro!: arg_cong [of _ _ "join_with _"])
qed simp_all

section \<open>Strings\<close>

definition delimited :: "string \<Rightarrow> bool" where
  "delimited u \<longleftrightarrow> u = [] \<or> hd u = CHR '','' \<or> hd u = CHR '']'' \<or> hd u = CHR 0x7D"

lemma delimited_simps [simp]:
  "delimited []" "delimited (CHR '','' # u)" "delimited (CHR '']'' # u)" "delimited (CHR 0x7D # u)"
  by (simp_all add: delimited_def)

lemma hex_digit_inject: "d < 16 \<Longrightarrow> e < 16 \<Longrightarrow> hex_digit d = hex_digit e \<Longrightarrow> d = e"
proof -
  assume "d < 16" "e < 16" "hex_digit d = hex_digit e"
  moreover have "hex_val (hex_digit k) = Some k" if "k < 16" for k
    using that by (auto simp: hex_val_def hex_digit_def is_digit_def code_def digit_char_def digit_val_def)
  ultimately have "hex_val (hex_digit d) = Some d" "hex_val (hex_digit e) = Some e" by blast+
  with \<open>hex_digit d = hex_digit e\<close> show ?thesis by (metis option.inject)
qed

lemma code_inject: "code c = code d \<longleftrightarrow> c = d"
  by (simp add: code_def)

lemma escape_control:
  assumes "code c < 32" "code d < 32" "hex_digit (code c div 16) = hex_digit (code d div 16)"
    "hex_digit (code c mod 16) = hex_digit (code d mod 16)"
  shows "c = d"
proof -
  have "code c div 16 = code d div 16" "code c mod 16 = code d mod 16"
    using assms by (auto intro!: hex_digit_inject)
  then have "code c = code d" by (metis div_mult_mod_eq)
  then show ?thesis by (simp add: code_inject)
qed

lemma code_chars [simp]:
  "code backslash = 92" "code (CHR 0x22) = 34" "code (CHR ''b'') = 98" "code (CHR ''t'') = 116" "code (CHR ''n'') = 110"
  "code (CHR ''f'') = 102" "code (CHR ''r'') = 114" "code (CHR ''u'') = 117"
  by (simp_all add: code_def backslash_def)

lemma escape_char_hd: "escape_char c \<noteq> [] \<and> hd (escape_char c) \<noteq> CHR 0x22"
  by (auto simp: escape_char_def backslash_def code_def)

lemma escape_shape:
  "escape_char c = [c] \<and> c \<noteq> backslash \<or>
   escape_char c = [backslash, c] \<and> (code c = 34 \<or> code c = 92) \<or>
   (\<exists>x. escape_char c = [backslash, x] \<and> (code c, x) \<in> {(8, CHR ''b''), (9, CHR ''t''), (10, CHR ''n''), (12, CHR ''f''), (13, CHR ''r'')}) \<or>
   escape_char c = backslash # ''u00'' @ [hex_digit (code c div 16), hex_digit (code c mod 16)] \<and> code c < 32"
  unfolding escape_char_def by (auto simp: backslash_def code_def)

lemma escape_prefix: "escape_char c @ u = escape_char d @ v \<Longrightarrow> c = d \<and> u = v"
  using escape_shape [of c] escape_shape [of d]
  by (elim disjE conjE exE) (auto simp: iffD1 [OF code_inject] dest: escape_control)

lemma escape_string:
  "concat (map escape_char s) @ CHR 0x22 # u = concat (map escape_char t) @ CHR 0x22 # v \<Longrightarrow> s = t \<and> u = v"
proof (induction s arbitrary: t)
  case Nil
  show ?case
  proof (cases t)
    case (Cons d t')
    with Nil show ?thesis using escape_char_hd [of d] by (auto simp: hd_append dest!: arg_cong [of _ _ hd])
  qed (use Nil in simp)
next
  case (Cons c s)
  then show ?case
  proof (cases t)
    case Nil
    with Cons show ?thesis using escape_char_hd [of c] by (auto simp: hd_append dest!: arg_cong [of _ _ hd])
  next
    case (Cons d t')
    with Cons.prems have "c = d" "concat (map escape_char s) @ CHR 0x22 # u = concat (map escape_char t') @ CHR 0x22 # v"
      using escape_prefix [of c "concat (map escape_char s) @ CHR 0x22 # u" d] by simp_all
    with Cons.IH Cons show ?thesis by simp
  qed
qed

lemma quote_prefix: "quote s @ u = quote t @ v \<Longrightarrow> s = t \<and> u = v"
  using escape_string [of s u t v] by (simp add: quote_def)

section \<open>Numbers, lists and values\<close>

lemma string_of_int_hd: "\<exists>c r. string_of_int n = c # r \<and> (is_digit c \<or> c = CHR ''-'')"
proof -
  have "\<exists>c r. string_of_nat m = c # r \<and> is_digit c" for m
    using string_of_nat_digits [of m] string_of_nat_nonempty [of m] by (cases "string_of_nat m") auto
  from this [of "nat n"] show ?thesis by (auto simp: string_of_int_def)
qed

lemma delimited_not_digit: "delimited u \<Longrightarrow> takeWhile is_digit u = [] \<and> dropWhile is_digit u = u"
  by (cases u) (auto simp: delimited_def is_digit_def code_def)

lemma nat_prefix:
  "string_of_nat n @ u = string_of_nat m @ v \<Longrightarrow> delimited u \<Longrightarrow> delimited v \<Longrightarrow> n = m \<and> u = v"
proof -
  assume eq: "string_of_nat n @ u = string_of_nat m @ v" and d: "delimited u" "delimited v"
  have all: "\<forall>c\<in>set (string_of_nat k). is_digit c" for k using string_of_nat_digits by (simp add: list_all_iff)
  have "takeWhile is_digit (string_of_nat n @ u) = string_of_nat n" "takeWhile is_digit (string_of_nat m @ v) = string_of_nat m"
    using all d by (simp_all add: takeWhile_append2 delimited_not_digit)
  with eq have "string_of_nat n = string_of_nat m" by simp
  with eq show ?thesis by simp
qed

lemma string_of_nat_not_minus: "string_of_nat k @ w \<noteq> CHR ''-'' # w'"
  using string_of_nat_digits [of k] string_of_nat_nonempty [of k]
  by (cases "string_of_nat k") (auto simp: is_digit_def code_def)

lemma int_prefix:
  assumes "string_of_int n @ u = string_of_int m @ v" "delimited u" "delimited v"
  shows "n = m \<and> u = v"
proof (cases "n < 0"; cases "m < 0")
  assume "n < 0" "m < 0"
  with assms have "string_of_nat (nat (- n)) @ u = string_of_nat (nat (- m)) @ v" by (simp add: string_of_int_def)
  with \<open>n < 0\<close> \<open>m < 0\<close> show ?thesis using nat_prefix [of "nat (- n)" u "nat (- m)" v] assms(2,3) by auto
next
  assume "n < 0" "\<not> m < 0"
  with assms(1) have "string_of_nat (nat m) @ v = CHR ''-'' # string_of_nat (nat (- n)) @ u" by (simp add: string_of_int_def)
  then show ?thesis using string_of_nat_not_minus by blast
next
  assume "\<not> n < 0" "m < 0"
  with assms(1) have "string_of_nat (nat n) @ u = CHR ''-'' # string_of_nat (nat (- m)) @ v" by (simp add: string_of_int_def)
  then show ?thesis using string_of_nat_not_minus by blast
next
  assume "\<not> n < 0" "\<not> m < 0"
  with assms have "string_of_nat (nat n) @ u = string_of_nat (nat m) @ v" by (simp add: string_of_int_def)
  with \<open>\<not> n < 0\<close> \<open>\<not> m < 0\<close> show ?thesis using nat_prefix [of "nat n" u "nat m" v] assms(2,3) by auto
qed

lemma join_Cons: "join_with sep (x # xs) = x @ concat (map (\<lambda>y. sep @ y) xs)"
  by (induction xs arbitrary: x) simp_all

text \<open>A rendering is unambiguous in front of a delimiter, and a list of such renderings up to its
  closing bracket is too.\<close>

definition unambiguous :: "('a \<Rightarrow> string) \<Rightarrow> 'a \<Rightarrow> bool" where
  "unambiguous f x \<longleftrightarrow> (\<forall>y u v. delimited u \<longrightarrow> delimited v \<longrightarrow> f x @ u = f y @ v \<longrightarrow> x = y \<and> u = v)"

lemma unambiguousD:
  "unambiguous f x \<Longrightarrow> f x @ u = f y @ v \<Longrightarrow> delimited u \<Longrightarrow> delimited v \<Longrightarrow> x = y \<and> u = v"
  by (simp add: unambiguous_def)

lemma delimited_tail: "close = CHR '']'' \<or> close = CHR 0x7D \<Longrightarrow> delimited (concat (map (\<lambda>y. '','' @ f y) zs) @ close # w)"
  by (cases zs) auto

lemma tail_prefix:
  assumes "\<forall>x\<in>set xs. unambiguous f x" "close = CHR '']'' \<or> close = CHR 0x7D"
    and "concat (map (\<lambda>y. '','' @ f y) xs) @ close # u = concat (map (\<lambda>y. '','' @ f y) ys) @ close # v"
  shows "xs = ys \<and> u = v"
  using assms
proof (induction xs arbitrary: ys)
  case Nil
  then show ?case by (cases ys) auto
next
  case (Cons x xs)
  then obtain y ys' where ys: "ys = y # ys'" by (cases ys) auto
  have "f x @ (concat (map (\<lambda>y. '','' @ f y) xs) @ close # u) = f y @ (concat (map (\<lambda>y. '','' @ f y) ys') @ close # v)"
    using Cons.prems(3) unfolding ys by simp
  then have xy: "x = y \<and> concat (map (\<lambda>y. '','' @ f y) xs) @ close # u = concat (map (\<lambda>y. '','' @ f y) ys') @ close # v"
    using Cons.prems(1) delimited_tail [OF Cons.prems(2)] by (intro unambiguousD [of f x]) simp_all
  then have "x = y" and tail: "concat (map (\<lambda>y. '','' @ f y) xs) @ close # u = concat (map (\<lambda>y. '','' @ f y) ys') @ close # v"
    by simp_all
  have "xs = ys' \<and> u = v" by (rule Cons.IH [OF _ Cons.prems(2) tail]) (use Cons.prems(1) in simp)
  with \<open>x = y\<close> ys show ?case by simp
qed

lemma join_prefix:
  assumes amb: "\<forall>x\<in>set xs. unambiguous f x" and close: "close = CHR '']'' \<or> close = CHR 0x7D"
    and start: "\<And>x. f x \<noteq> [] \<and> hd (f x) \<noteq> close"
    and eq: "join_with '','' (map f xs) @ close # u = join_with '','' (map f ys) @ close # v"
  shows "xs = ys \<and> u = v"
proof -
  have no: "f z @ w \<noteq> close # w'" for z w w' using start [of z] by (cases "f z") auto
  show ?thesis
  proof (cases xs)
    case Nil
    show ?thesis
    proof (cases ys)
      case (Cons y ys')
      with Nil eq have "f y @ (concat (map (\<lambda>y. '','' @ f y) ys') @ close # v) = close # u"
        by (simp add: join_Cons comp_def del: join_with.simps(3))
      with no show ?thesis by blast
    qed (use Nil eq in simp)
  next
    case (Cons x xs')
    then have x: "join_with '','' (map f xs) @ close # u = f x @ (concat (map (\<lambda>y. '','' @ f y) xs') @ close # u)"
      by (simp add: join_Cons comp_def del: join_with.simps(3))
    show ?thesis
    proof (cases ys)
      case Nil
      with eq x have "f x @ (concat (map (\<lambda>y. '','' @ f y) xs') @ close # u) = close # v" by simp
      with no show ?thesis by blast
    next
      case ys: (Cons y ys')
      then have "join_with '','' (map f ys) @ close # v = f y @ (concat (map (\<lambda>y. '','' @ f y) ys') @ close # v)"
        by (simp add: join_Cons comp_def del: join_with.simps(3))
      with eq x have "f x @ (concat (map (\<lambda>y. '','' @ f y) xs') @ close # u) = f y @ (concat (map (\<lambda>y. '','' @ f y) ys') @ close # v)"
        by simp
      then have xy: "x = y \<and> concat (map (\<lambda>y. '','' @ f y) xs') @ close # u = concat (map (\<lambda>y. '','' @ f y) ys') @ close # v"
        using amb Cons delimited_tail [OF close] by (intro unambiguousD [of f x]) simp_all
      then have "x = y" and tail: "concat (map (\<lambda>y. '','' @ f y) xs') @ close # u = concat (map (\<lambda>y. '','' @ f y) ys') @ close # v"
        by simp_all
      have "xs' = ys' \<and> u = v" by (rule tail_prefix [OF _ close tail]) (use amb Cons in simp)
      with \<open>x = y\<close> Cons ys show ?thesis by simp
    qed
  qed
qed

definition entry_text :: "string \<times> json \<Rightarrow> string" where
  "entry_text e = quote (fst e) @ '':'' @ stringify (snd e)"

lemma entry_unambiguous: "unambiguous stringify (snd e) \<Longrightarrow> unambiguous entry_text e"
  unfolding unambiguous_def entry_text_def
proof (intro allI impI)
  fix f :: "string \<times> json" and u v
  assume amb: "\<forall>y u v. delimited u \<longrightarrow> delimited v \<longrightarrow> stringify (snd e) @ u = stringify y @ v \<longrightarrow> snd e = y \<and> u = v"
    and d: "delimited u" "delimited v"
    and eq: "(quote (fst e) @ '':'' @ stringify (snd e)) @ u = (quote (fst f) @ '':'' @ stringify (snd f)) @ v"
  from eq have "fst e = fst f" "stringify (snd e) @ u = stringify (snd f) @ v"
    using quote_prefix [of "fst e" "'':'' @ stringify (snd e) @ u" "fst f"] by simp_all
  with amb d show "e = f \<and> u = v" by (auto simp: prod_eq_iff)
qed

lemma stringify_hd:
  "stringify v \<noteq> [] \<and> hd (stringify v) \<noteq> CHR '']'' \<and> hd (stringify v) \<noteq> CHR 0x7D"
proof (cases v)
  case (JNum n)
  then show ?thesis using string_of_int_hd [of n] by (auto simp: is_digit_def code_def)
qed (simp_all add: quote_def)

text \<open>The first character tells the kind of value.\<close>

definition kind_char :: "json \<Rightarrow> char \<Rightarrow> bool" where
  "kind_char v c = (case v of JNull \<Rightarrow> c = CHR ''n'' | JBool b \<Rightarrow> c = (if b then CHR ''t'' else CHR ''f'')
     | JNum n \<Rightarrow> is_digit c \<or> c = CHR ''-'' | JStr s \<Rightarrow> c = CHR 0x22 | JArr xs \<Rightarrow> c = CHR ''['' | JObj m \<Rightarrow> c = CHR 0x7B)"

lemma stringify_kind: "kind_char v (hd (stringify v @ u))"
proof (cases v)
  case (JNum n)
  then show ?thesis using string_of_int_hd [of n] by (auto simp: kind_char_def)
qed (simp_all add: quote_def kind_char_def)

definition kind_of :: "json \<Rightarrow> nat" where
  "kind_of v = (case v of JNull \<Rightarrow> 0 | JBool b \<Rightarrow> 1 | JNum n \<Rightarrow> 2 | JStr s \<Rightarrow> 3 | JArr xs \<Rightarrow> 4 | JObj m \<Rightarrow> 5)"

lemma kind_char_kind: "kind_char v c \<Longrightarrow> kind_char w c \<Longrightarrow> kind_of v = kind_of w \<and> (\<forall>b. v = JBool b \<longrightarrow> w = JBool b)"
  by (cases v; cases w) (auto simp: kind_char_def kind_of_def is_digit_def code_def split: if_splits)

lemma stringify_same_kind:
  "stringify v @ u = stringify w @ u' \<Longrightarrow> kind_of v = kind_of w \<and> (\<forall>b. v = JBool b \<longrightarrow> w = JBool b)"
  by (rule kind_char_kind [of v "hd (stringify v @ u)"]) (rule stringify_kind, simp only: stringify_kind)

lemma kind_of_0: "0 = kind_of w \<longleftrightarrow> w = JNull" "kind_of JNull = 0"
  by (cases w, simp_all add: kind_of_def)

lemma stringify_unambiguous: "unambiguous stringify v"
proof (induction v)
  case (JArr xs)
  show ?case unfolding unambiguous_def
  proof (intro allI impI)
    fix y u v
    assume d: "delimited u" "delimited v" and eq: "stringify (JArr xs) @ u = stringify y @ v"
    have "kind_of (JArr xs) = kind_of y"
      using stringify_same_kind [OF eq] by blast
    then obtain ys where y: "y = JArr ys" by (cases y) (simp_all add: kind_of_def)
    have "join_with '','' (map stringify xs) @ CHR '']'' # u = join_with '','' (map stringify ys) @ CHR '']'' # v"
      using eq y by simp
    then have "xs = ys \<and> u = v" by (intro join_prefix) (use JArr stringify_hd in auto)
    with y show "JArr xs = y \<and> u = v" by simp
  qed
next
  case (JObj m)
  have amb: "\<forall>e\<in>set m. unambiguous entry_text e" using JObj by (auto intro!: entry_unambiguous simp: snds.simps)
  show ?case unfolding unambiguous_def
  proof (intro allI impI)
    fix y u v
    assume d: "delimited u" "delimited v" and eq: "stringify (JObj m) @ u = stringify y @ v"
    have "kind_of (JObj m) = kind_of y"
      using stringify_same_kind [OF eq] by blast
    then obtain n where y: "y = JObj n" by (cases y) (simp_all add: kind_of_def)
    have "join_with '','' (map entry_text m) @ CHR 0x7D # u = join_with '','' (map entry_text n) @ CHR 0x7D # v"
      using eq y unfolding entry_text_def [abs_def] by simp
    then have "m = n \<and> u = v" by (intro join_prefix) (use amb in \<open>auto simp: entry_text_def quote_def\<close>)
    with y show "JObj m = y \<and> u = v" by simp
  qed
next
  case JNull
  show ?case unfolding unambiguous_def by (intro allI impI) (frule stringify_same_kind, simp add: kind_of_0)
next
  case (JBool b)
  show ?case unfolding unambiguous_def by (intro allI impI) (frule stringify_same_kind, simp)
next
  case (JNum n)
  show ?case unfolding unambiguous_def
  proof (intro allI impI)
    fix y u v
    assume d: "delimited u" "delimited v" and eq: "stringify (JNum n) @ u = stringify y @ v"
    then obtain m where "y = JNum m" using stringify_same_kind [OF eq] by (cases y) (simp_all add: kind_of_def)
    with int_prefix [of n u m v] eq d show "JNum n = y \<and> u = v" by simp
  qed
next
  case (JStr s)
  show ?case unfolding unambiguous_def
  proof (intro allI impI)
    fix y u v
    assume eq: "stringify (JStr s) @ u = stringify y @ v"
    then obtain t where "y = JStr t" using stringify_same_kind [OF eq] by (cases y) (simp_all add: kind_of_def)
    with quote_prefix [of s u t v] eq show "JStr s = y \<and> u = v" by simp
  qed
qed

lemma stringify_inject: "stringify v = stringify w \<longleftrightarrow> v = w"
  using unambiguousD [OF stringify_unambiguous, of v "[]" w "[]"] by auto

lemma stable_inject: "stable v = stable w \<longleftrightarrow> norm_json v = norm_json w"
  by (simp add: stable_norm stringify_inject)

lemma stable_prefix:
  "stable v @ u = stable w @ u' \<Longrightarrow> delimited u \<Longrightarrow> delimited u' \<Longrightarrow> norm_json v = norm_json w \<and> u = u'"
  using unambiguousD [OF stringify_unambiguous] by (metis stable_norm)

section \<open>Records with optional fields\<close>

text \<open>The same rendering of a record some of whose fields may be \<open>undefined\<close>: \<open>JSON.stringify\<close> of
  \<open>undefined\<close> is \<open>undefined\<close>, which a template prints as that word.\<close>

definition field_text :: "string \<times> json option \<Rightarrow> string" where
  "field_text e = quote (fst e) @ '':'' @ (case snd e of None \<Rightarrow> ''undefined'' | Some v \<Rightarrow> stable v)"

definition stable_record :: "(string \<times> json option) list \<Rightarrow> string" where
  "stable_record kvs = CHR 0x7B # join_with '','' (map field_text (sort_key fst kvs)) @ [CHR 0x7D]"

definition norm_field :: "string \<times> json option \<Rightarrow> string \<times> json option" where
  "norm_field e = (fst e, map_option norm_json (snd e))"

definition plain_field :: "string \<times> json option \<Rightarrow> string" where
  "plain_field e = quote (fst e) @ '':'' @ (case snd e of None \<Rightarrow> ''undefined'' | Some v \<Rightarrow> stringify v)"

lemma field_text_norm: "field_text e = plain_field (norm_field e)"
  by (simp add: field_text_def plain_field_def norm_field_def stable_norm split: option.splits)

lemma stringify_not_undefined: "stringify v @ u \<noteq> ''undefined'' @ u'"
proof
  assume "stringify v @ u = ''undefined'' @ u'"
  then have "kind_char v (CHR ''u'')" using stringify_kind [of v u] by simp
  then show False by (cases v) (auto simp: kind_char_def is_digit_def code_def split: if_splits)
qed

lemma plain_field_unambiguous: "unambiguous plain_field e"
  unfolding unambiguous_def
proof (intro allI impI)
  fix f u v
  assume d: "delimited u" "delimited v" and eq: "plain_field e @ u = plain_field f @ v"
  let ?t = "\<lambda>e. case snd e of None \<Rightarrow> ''undefined'' | Some v \<Rightarrow> stringify v"
  from eq have fst: "fst e = fst f" and rest: "?t e @ u = ?t f @ v"
    using quote_prefix [of "fst e" "'':'' @ ?t e @ u" "fst f" "'':'' @ ?t f @ v"] by (simp_all add: plain_field_def)
  show "e = f \<and> u = v"
  proof (cases "snd e")
    case None
    with rest stringify_not_undefined [of _ v u] have "snd f = None" by (cases "snd f") (auto dest: sym)
    with None rest fst show ?thesis by (auto simp: prod_eq_iff)
  next
    case (Some x)
    with rest stringify_not_undefined obtain y where y: "snd f = Some y" by (cases "snd f") auto
    with Some rest unambiguousD [OF stringify_unambiguous _ d] have "x = y \<and> u = v" by simp
    with Some y fst show ?thesis by (auto simp: prod_eq_iff)
  qed
qed

lemma assoc_list_eqI:
  assumes "map fst xs = map fst ys" "distinct (map fst xs)" "set xs \<subseteq> set ys"
  shows "xs = ys"
proof (rule nth_equalityI)
  show len: "length xs = length ys" using assms(1) by (metis length_map)
  fix i assume i: "i < length xs"
  with len have key: "fst (xs ! i) = fst (ys ! i)" using assms(1) by (metis nth_map)
  have "xs ! i \<in> set ys" "ys ! i \<in> set ys" "distinct (map fst ys)" using assms i len by (auto simp: nth_mem)
  with key show "xs ! i = ys ! i" by (metis eq_key_imp_eq_value prod.collapse)
qed

text \<open>Two records over the same fields with the same rendering agree, field by field, up to the order
  of the entries inside their values.\<close>

lemma stable_record_inject:
  assumes "stable_record kvs = stable_record kvs'" "distinct (map fst kvs)" "map fst kvs' = map fst kvs"
  shows "map norm_field kvs = map norm_field kvs'"
proof -
  have f: "map field_text xs = map plain_field (map norm_field xs)" for xs by (simp add: field_text_norm)
  have "join_with '','' (map plain_field (map norm_field (sort_key fst kvs))) @ CHR 0x7D # [] =
      join_with '','' (map plain_field (map norm_field (sort_key fst kvs'))) @ CHR 0x7D # []"
    using assms(1) unfolding stable_record_def f by simp
  then have eq: "map norm_field (sort_key fst kvs) = map norm_field (sort_key fst kvs')"
    using join_prefix [of "map norm_field (sort_key fst kvs)" plain_field "CHR 0x7D" "[]" _ "[]"] plain_field_unambiguous
    by (auto simp: plain_field_def quote_def)
  then have "norm_field ` set (sort_key fst kvs) = norm_field ` set (sort_key fst kvs')"
    by (metis list.set_map)
  then have sets: "set (map norm_field kvs) = set (map norm_field kvs')" by simp
  have fsts: "map fst (map norm_field xs) = map fst xs" for xs by (simp add: norm_field_def comp_def)
  have "distinct (map fst (map norm_field kvs))" "map fst (map norm_field kvs') = map fst (map norm_field kvs)"
    using assms(2,3) by (simp_all only: fsts)
  then show ?thesis by (intro assoc_list_eqI) (use sets in simp_all)
qed

end
