(* ===== verification/Sync_Jobs.thy ===== *)
theory Sync_Jobs
  imports Stable_Json
begin

text \<open>
  \<open>packages/queue/src/contracts.ts\<close>: the sync jobs that travel through the durable queue. The
  validation of a queue payload works on the JSON value and returns it with its defaults filled
  in; the typed jobs below are what the orchestrator builds and the worker reads. \<open>Date.parse\<close>
  and the SHA-256 digest are parameters; identifiers and the current time, drawn by \<open>base\<close>, are
  arguments.
\<close>

section \<open>Jobs\<close>

record cursor =
  cursor_value :: string
  cursor_updated_at :: "string option"

record webhook_tombstone =
  tomb_stream :: string
  tomb_object_type :: string
  tomb_record_id :: string
  tomb_observed_at :: string

datatype backfill_phase = Recent | Thirteen_months | Full_history
datatype plan_mode = Progressive | Resume_verified | Single_pass
datatype reconciliation_phase = Late_edits | Identity_snapshot | Verify_snapshot | Apply_tombstones
datatype sync_reason = Webhook | Schedule | Manual | Continuation
datatype sync_priority = High_priority | Standard_priority | Backfill_priority

record sync_range =
  range_from :: string
  range_to :: string

text \<open>\<open>SyncJobBase\<close>, with the literal schema version left out.\<close>

record job_base =
  job_tenant :: string
  job_connection :: string
  job_connector :: string
  job_account :: string
  job_generation :: int
  job_run_id :: string
  job_batch_id :: string
  job_requested_at :: string

record backfill_fields =
  bf_stream :: "string option"
  bf_range :: sync_range
  bf_cursor :: "cursor option"
  bf_phase :: backfill_phase
  bf_replay :: int
  bf_mode :: plan_mode

record incremental_fields =
  inc_stream :: string
  inc_cursor :: "cursor option"
  inc_reason :: sync_reason
  inc_receipt :: "string option"
  inc_tombstones :: "webhook_tombstone list option"

record reconciliation_fields =
  rec_sweep_id :: string
  rec_phase :: reconciliation_phase
  rec_stream :: "string option"
  rec_cursor :: "cursor option"
  rec_lookback_from :: string
  rec_lookback_to :: string

datatype job_kind =
    Initial_backfill backfill_fields
  | Incremental_sync incremental_fields
  | Reconciliation_sweep reconciliation_fields

record sync_job =
  job_base :: job_base
  job_kind :: job_kind

text \<open>\<open>"stream" in job ? job.stream : undefined\<close>, and the same for the cursor.\<close>

definition job_stream :: "sync_job \<Rightarrow> string option" where
  "job_stream j = (case job_kind j of Initial_backfill b \<Rightarrow> bf_stream b | Incremental_sync i \<Rightarrow> Some (inc_stream i)
     | Reconciliation_sweep r \<Rightarrow> rec_stream r)"

definition job_cursor :: "sync_job \<Rightarrow> cursor option" where
  "job_cursor j = (case job_kind j of Initial_backfill b \<Rightarrow> bf_cursor b | Incremental_sync i \<Rightarrow> inc_cursor i
     | Reconciliation_sweep r \<Rightarrow> rec_cursor r)"

section \<open>Failure codes\<close>

definition SYNC_FAILURE_CODES :: "string list" where
  "SYNC_FAILURE_CODES =
     [''authentication_required'', ''backfill_completion_evidence_missing'', ''backfill_continuation_requires_stream'',
      ''backfill_plan_requires_coordinator'', ''backfill_phase_requires_stream'', ''backfill_successor_requires_stream'',
      ''capability_unavailable'', ''configuration_invalid'', ''connection_account_mismatch'',
      ''connection_generation_stale'', ''connection_not_ready'', ''connector_page_invalid_pagination_block'',
      ''connector_page_missing_continuation_cursor'', ''connector_page_non_advancing_cursor'',
      ''connector_stream_not_found'', ''credential_conflict'', ''cursor_invalid'', ''database_deadlock'',
      ''database_integrity_violation'', ''database_lock_timeout'', ''database_permission_denied'',
      ''database_serialization_conflict'', ''database_unavailable'', ''incremental_sync_requires_stream'',
      ''oauth_exchange_failed'', ''rate_limited'', ''reconnect_modified_watermark_missing'',
      ''reconciliation_snapshot_failed'', ''reconciliation_snapshot_incomplete'', ''remote_response_invalid'',
      ''remote_unavailable'', ''sync_analytical_capability_invalid'', ''sync_internal_error'',
      ''sync_operation_timeout'', ''sync_stream_phase_lease_stale'', ''sync_write_permit_invalid'',
      ''sync_write_permit_missing'', ''unexpected_sync_failure'', ''webhook_signature_invalid'']"

definition as_sync_failure_code :: "string \<Rightarrow> string" where
  "as_sync_failure_code v = (if v \<in> set SYNC_FAILURE_CODES then v else ''unexpected_sync_failure'')"

section \<open>Validation of a queue payload\<close>

datatype payload_error =
    Payload_not_object | Invalid_identifier string | Unsupported_schema | Invalid_connector | Invalid_metadata
  | Invalid_generation | Invalid_cursor | Invalid_backfill | Invalid_incremental | Invalid_reconciliation
  | Invalid_lifecycle | Invalid_tombstones | Duplicated_tombstones

definition SYNC_JOB_TYPES :: "string list" where
  "SYNC_JOB_TYPES = [''InitialBackfill'', ''IncrementalSync'', ''ReconciliationSweep'']"

definition CONNECTORS :: "string list" where
  "CONNECTORS = [''lightspeed-r'', ''xero'', ''deputy'', ''square'', ''shopify'', ''stripe'', ''momence'',
     ''meta-ads'', ''google-ads'']"

definition RECONCILIATION_PHASES :: "string list" where
  "RECONCILIATION_PHASES = [''late_edits'', ''identity_snapshot'', ''verify_snapshot'', ''apply_tombstones'']"

text \<open>\<open>/^[0-9A-HJKMNP-TV-Z]{26}$/\<close>: Crockford's alphabet has no I, L, O and U.\<close>

definition is_ulid_char :: "char \<Rightarrow> bool" where
  "is_ulid_char c \<longleftrightarrow> is_digit c \<or>
     (65 \<le> code c \<and> code c \<le> 90 \<and> c \<notin> {CHR ''I'', CHR ''L'', CHR ''O'', CHR ''U''})"

definition is_ulid :: "string \<Rightarrow> bool" where
  "is_ulid s \<longleftrightarrow> length s = 26 \<and> list_all is_ulid_char s"

definition ulid_field :: "json option \<Rightarrow> bool" where
  "ulid_field v = (case v of Some (JStr s) \<Rightarrow> is_ulid s | _ \<Rightarrow> False)"

definition is_record :: "json \<Rightarrow> bool" where
  "is_record v = (case v of JObj _ \<Rightarrow> True | _ \<Rightarrow> False)"

definition is_iso_timestamp :: "(string \<Rightarrow> int option) \<Rightarrow> json option \<Rightarrow> bool" where
  "is_iso_timestamp date_parse v = (case v of Some (JStr s) \<Rightarrow> date_parse s \<noteq> None | _ \<Rightarrow> False)"

text \<open>\<open>new Date(v)\<close> as a time value, for an accepted timestamp.\<close>

definition time_of :: "(string \<Rightarrow> int option) \<Rightarrow> json option \<Rightarrow> int" where
  "time_of date_parse v = (case v of Some (JStr s) \<Rightarrow> (case date_parse s of Some t \<Rightarrow> t | None \<Rightarrow> 0) | _ \<Rightarrow> 0)"

definition is_cursor :: "(string \<Rightarrow> int option) \<Rightarrow> json \<Rightarrow> bool" where
  "is_cursor date_parse v \<longleftrightarrow> is_record v \<and>
     (case js_get v ''value'' of Some (JStr s) \<Rightarrow> s \<noteq> [] | _ \<Rightarrow> False) \<and>
     (js_get v ''sourceUpdatedAt'' = None \<or> is_iso_timestamp date_parse (js_get v ''sourceUpdatedAt''))"

text \<open>\<open>typeof v === "string" && v.trim()\<close>, and \<open>v === undefined || ...\<close>.\<close>

definition non_blank :: "json option \<Rightarrow> bool" where
  "non_blank v = (case v of Some (JStr s) \<Rightarrow> trim s \<noteq> [] | _ \<Rightarrow> False)"

definition stream_or_absent :: "json option \<Rightarrow> bool" where
  "stream_or_absent v \<longleftrightarrow> v = None \<or> non_blank v"

text \<open>\<open>v ?? d\<close>, \<open>String(v)\<close> and \<open>Number.isSafeInteger(v) && v >= 1\<close>.\<close>

definition or_else :: "json option \<Rightarrow> json \<Rightarrow> json" where
  "or_else v d = (if nullish v then d else the v)"

definition text_of :: "json option \<Rightarrow> string" where
  "text_of v = (case v of None \<Rightarrow> ''undefined'' | Some j \<Rightarrow> js_text j)"

definition positive_safe :: "json \<Rightarrow> bool" where
  "positive_safe v = (case v of JNum n \<Rightarrow> 1 \<le> n \<and> n \<le> 2 ^ 53 - 1 | _ \<Rightarrow> False)"

definition deputy_resource :: "string \<Rightarrow> string option" where
  "deputy_resource = map_of
     [(''operational_units'', ''OperationalUnit''), (''employees'', ''Employee''), (''rosters'', ''Roster''),
      (''timesheets'', ''Timesheet''), (''leave'', ''Leave'')]"

definition is_control :: "char \<Rightarrow> bool" where
  "is_control c \<longleftrightarrow> code c < 32 \<or> code c = 127"

definition tombstone_json :: "string \<Rightarrow> string \<Rightarrow> json \<Rightarrow> json" where
  "tombstone_json stream resource candidate = JObj
     [(''kind'', JStr ''tombstone''), (''stream'', JStr stream), (''sourceObjectType'', JStr resource),
      (''sourceRecordId'', the (js_get candidate ''sourceRecordId'')), (''observedAt'', the (js_get candidate ''observedAt''))]"

definition tombstone_ok :: "(string \<Rightarrow> int option) \<Rightarrow> string \<Rightarrow> string \<Rightarrow> json \<Rightarrow> bool" where
  "tombstone_ok date_parse stream resource candidate \<longleftrightarrow> is_record candidate \<and>
     js_get candidate ''kind'' = Some (JStr ''tombstone'') \<and>
     js_get candidate ''stream'' = Some (JStr stream) \<and>
     js_get candidate ''sourceObjectType'' = Some (JStr resource) \<and>
     (case js_get candidate ''sourceRecordId'' of
        Some (JStr s) \<Rightarrow> trim s \<noteq> [] \<and> length s \<le> 300 \<and> \<not> list_ex is_control s | _ \<Rightarrow> False) \<and>
     is_iso_timestamp date_parse (js_get candidate ''observedAt'')"

fun parse_tombstones :: "(string \<Rightarrow> int option) \<Rightarrow> string \<Rightarrow> string \<Rightarrow> json list \<Rightarrow> json list \<Rightarrow> (payload_error, json list) result" where
  "parse_tombstones date_parse stream resource seen [] = Inr []"
| "parse_tombstones date_parse stream resource seen (c # cs) =
     (if \<not> tombstone_ok date_parse stream resource c then Inl Invalid_tombstones
      else let identity = the (js_get c ''sourceRecordId'')
           in if identity \<in> set seen then Inl Duplicated_tombstones
              else and_then (parse_tombstones date_parse stream resource (identity # seen) cs) (\<lambda>ts.
                     Inr (tombstone_json stream resource c # ts)))"

definition parse_webhook_tombstones ::
    "(string \<Rightarrow> int option) \<Rightarrow> json option \<Rightarrow> string \<Rightarrow> string \<Rightarrow> json option \<Rightarrow> json option \<Rightarrow> (payload_error, json option) result" where
  "parse_webhook_tombstones date_parse v stream connector reason receipt =
     (case v of
        None \<Rightarrow> Inr None
      | Some (JArr xs) \<Rightarrow>
          if xs = [] \<or> 5000 < length xs \<or> connector \<noteq> ''deputy'' \<or> reason \<noteq> Some (JStr ''webhook'') \<or> \<not> ulid_field receipt
          then Inl Invalid_tombstones
          else (case deputy_resource stream of
                  None \<Rightarrow> Inl Invalid_tombstones
                | Some resource \<Rightarrow> and_then (parse_tombstones date_parse stream resource [] xs) (\<lambda>ts. Inr (Some (JArr ts))))
      | Some _ \<Rightarrow> Inl Invalid_tombstones)"

definition missing_identifier :: "json \<Rightarrow> string option" where
  "missing_identifier v = find (\<lambda>key. \<not> ulid_field (js_get v key))
     [''tenantId'', ''connectionId'', ''syncRunId'', ''batchId'', ''jobRequestId'']"

definition backfill_ok :: "(string \<Rightarrow> int option) \<Rightarrow> json \<Rightarrow> bool" where
  "backfill_ok date_parse v \<longleftrightarrow>
     (case js_get v ''range'' of
        None \<Rightarrow> False
      | Some r \<Rightarrow> is_record r \<and> is_iso_timestamp date_parse (js_get r ''from'') \<and> is_iso_timestamp date_parse (js_get r ''to'') \<and>
          time_of date_parse (js_get r ''from'') \<le> time_of date_parse (js_get r ''to'')) \<and>
      text_of (js_get v ''phase'') \<in> {''recent'', ''thirteen_months'', ''full_history''} \<and>
      positive_safe (or_else (js_get v ''replayVersion'') (JNum 1)) \<and>
      js_text (or_else (js_get v ''planMode'') (JStr ''progressive'')) \<in> {''progressive'', ''resume_verified'', ''single_pass''} \<and>
      stream_or_absent (js_get v ''stream'')"

definition incremental_ok :: "json \<Rightarrow> bool" where
  "incremental_ok v \<longleftrightarrow> non_blank (js_get v ''stream'') \<and>
     text_of (js_get v ''reason'') \<in> {''webhook'', ''schedule'', ''manual'', ''continuation''}"

definition reconciliation_ok :: "(string \<Rightarrow> int option) \<Rightarrow> json \<Rightarrow> bool" where
  "reconciliation_ok date_parse v \<longleftrightarrow> stream_or_absent (js_get v ''stream'') \<and>
     is_iso_timestamp date_parse (js_get v ''lookbackFrom'') \<and> is_iso_timestamp date_parse (js_get v ''lookbackTo'') \<and>
     time_of date_parse (js_get v ''lookbackFrom'') \<le> time_of date_parse (js_get v ''lookbackTo'')"

definition sweep_id :: "json \<Rightarrow> json option" where
  "sweep_id v = (if nullish (js_get v ''reconciliationSweepId'') then js_get v ''syncRunId'' else js_get v ''reconciliationSweepId'')"

definition sweep_phase :: "json \<Rightarrow> json" where
  "sweep_phase v = or_else (js_get v ''phase'') (JStr ''late_edits'')"

text \<open>\<open>{ ...value, key: x }\<close>.\<close>

definition js_set :: "string \<Rightarrow> json \<Rightarrow> json \<Rightarrow> json" where
  "js_set k x v = (case v of JObj m \<Rightarrow> JObj (AList.update k x m) | _ \<Rightarrow> v)"

text \<open>The checks that all job types share, in the order of the source.\<close>

definition check_envelope :: "(string \<Rightarrow> int option) \<Rightarrow> json \<Rightarrow> (payload_error, unit) result" where
  "check_envelope date_parse v =
     (if \<not> is_record v then Inl Payload_not_object
      else case missing_identifier v of
        Some key \<Rightarrow> Inl (Invalid_identifier key)
      | None \<Rightarrow>
          if js_get v ''schemaVersion'' \<noteq> Some (JNum 1) \<or> js_get v ''type'' \<notin> set (map (Some \<circ> JStr) SYNC_JOB_TYPES)
          then Inl Unsupported_schema
          else if js_get v ''connectorId'' \<notin> set (map (Some \<circ> JStr) CONNECTORS) then Inl Invalid_connector
          else if \<not> non_blank (js_get v ''externalAccountReference'') \<or> \<not> is_iso_timestamp date_parse (js_get v ''requestedAt'')
          then Inl Invalid_metadata
          else if \<not> positive_safe (or_else (js_get v ''connectionGeneration'') (JNum 1)) then Inl Invalid_generation
          else if (case js_get v ''cursor'' of None \<Rightarrow> False | Some c \<Rightarrow> \<not> is_cursor date_parse c) then Inl Invalid_cursor
          else Inr ())"

text \<open>The checks and defaults of the job type \<open>ty\<close>; \<open>base\<close> is the value with its generation set.\<close>

definition check_kind :: "(string \<Rightarrow> int option) \<Rightarrow> string \<Rightarrow> json \<Rightarrow> json \<Rightarrow> (payload_error, json) result" where
  "check_kind date_parse ty v base =
     (if ty = ''InitialBackfill'' then
        if \<not> backfill_ok date_parse v then Inl Invalid_backfill
        else Inr (js_set ''planMode'' (JStr (js_text (or_else (js_get v ''planMode'') (JStr ''progressive''))))
                   (js_set ''replayVersion'' (or_else (js_get v ''replayVersion'') (JNum 1)) base))
      else if ty = ''IncrementalSync'' then
        if \<not> incremental_ok v then Inl Invalid_incremental
        else and_then (parse_webhook_tombstones date_parse (js_get v ''webhookTombstones'') (text_of (js_get v ''stream''))
                         (text_of (js_get v ''connectorId'')) (js_get v ''reason'') (js_get v ''webhookReceiptId'')) (\<lambda>ts.
               Inr (case ts of None \<Rightarrow> base | Some x \<Rightarrow> js_set ''webhookTombstones'' x base))
      else if \<not> reconciliation_ok date_parse v then Inl Invalid_reconciliation
      else if \<not> ulid_field (sweep_id v) \<or> sweep_phase v \<notin> set (map JStr RECONCILIATION_PHASES) then Inl Invalid_lifecycle
      else Inr (js_set ''phase'' (sweep_phase v) (js_set ''reconciliationSweepId'' (the (sweep_id v)) base)))"

definition parse_sync_job :: "(string \<Rightarrow> int option) \<Rightarrow> json \<Rightarrow> (payload_error, json) result" where
  "parse_sync_job date_parse v =
     and_then (check_envelope date_parse v) (\<lambda>_.
       check_kind date_parse (text_of (js_get v ''type'')) v
         (js_set ''connectionGeneration'' (or_else (js_get v ''connectionGeneration'') (JNum 1)) v))"

section \<open>What an accepted payload promises\<close>

named_theorems payload_defs
declare check_envelope_def [payload_defs] check_kind_def [payload_defs] missing_identifier_def [payload_defs]

lemma js_get_js_set [simp]:
  "is_record v \<Longrightarrow> js_get (js_set k x v) k' = (if k' = k then Some x else js_get v k')"
  by (cases v) (simp_all add: js_set_def is_record_def js_get_def update_conv')

lemma is_record_js_set [simp]: "is_record (js_set k x v) = is_record v"
  by (cases v) (simp_all add: js_set_def is_record_def)

lemma update_same: "map_of m k = Some x \<Longrightarrow> AList.update k x m = m"
  by (induction m) (auto split: if_splits)

lemma js_set_same: "js_get v k = Some x \<Longrightarrow> js_set k x v = v"
  by (cases v) (simp_all add: js_set_def js_get_def update_same)

lemma nullish_Some [simp]: "nullish (Some x) = (x = JNull)" "nullish None"
  by (simp_all add: nullish_def)

lemma or_else_positive: "positive_safe (or_else v d) \<Longrightarrow> or_else (Some (or_else v d)) d = or_else v d"
  by (auto simp: or_else_def positive_safe_def nullish_def)

lemma or_else_str: "or_else (Some (JStr s)) d = JStr s"
  by (simp add: or_else_def)

lemma js_text_or_else_twice: "js_text (or_else (Some (JStr (js_text x))) d) = js_text x"
  by (simp add: or_else_def)

lemma check_envelope_record: "check_envelope date_parse v = Inr u \<Longrightarrow> is_record v"
  by (simp add: check_envelope_def split: if_splits)

lemma check_envelope_generation:
  "check_envelope date_parse v = Inr u \<Longrightarrow> positive_safe (or_else (js_get v ''connectionGeneration'') (JNum 1))"
  by (simp add: check_envelope_def split: if_splits option.splits)

text \<open>The envelope check sees nine keys and the generation with its default.\<close>

definition envelope_keys :: "string list" where
  "envelope_keys = [''tenantId'', ''connectionId'', ''syncRunId'', ''batchId'', ''jobRequestId'', ''schemaVersion'',
     ''type'', ''connectorId'', ''externalAccountReference'', ''requestedAt'', ''cursor'']"

lemma check_envelope_cong:
  assumes "is_record w = is_record v" "\<And>k. k \<in> set envelope_keys \<Longrightarrow> js_get w k = js_get v k"
    and "or_else (js_get w ''connectionGeneration'') (JNum 1) = or_else (js_get v ''connectionGeneration'') (JNum 1)"
  shows "check_envelope date_parse w = check_envelope date_parse v"
proof -
  have "\<forall>k\<in>set envelope_keys. js_get w k = js_get v k" using assms(2) by blast
  then show ?thesis
    unfolding check_envelope_def missing_identifier_def envelope_keys_def by (simp only: assms(1,3) list.set ball_simps find.simps)
qed

lemma time_text: "text_of (Some (JStr s)) = s"
  by (simp add: text_of_def)

lemma iso_timestamp_the: "is_iso_timestamp date_parse v \<Longrightarrow> is_iso_timestamp date_parse (Some (the v))"
  by (cases v) (simp_all add: is_iso_timestamp_def)

lemma tombstone_ok_json:
  "tombstone_ok date_parse stream resource c \<Longrightarrow>
     tombstone_ok date_parse stream resource (tombstone_json stream resource c)"
  by (cases "js_get c ''sourceRecordId''") (simp_all add: tombstone_ok_def tombstone_json_def is_record_def iso_timestamp_the)

lemma tombstone_json_twice:
  "tombstone_json stream resource (tombstone_json stream resource c) = tombstone_json stream resource c"
  "js_get (tombstone_json stream resource c) ''sourceRecordId'' = Some (the (js_get c ''sourceRecordId''))"
  by (simp_all add: tombstone_json_def)

lemma parse_tombstones_fixed:
  "parse_tombstones date_parse stream resource seen cs = Inr ts \<Longrightarrow>
     parse_tombstones date_parse stream resource seen ts = Inr ts \<and> length ts = length cs"
proof (induction date_parse stream resource seen cs arbitrary: ts rule: parse_tombstones.induct)
  case (2 date_parse stream resource seen c cs)
  let ?id = "the (js_get c ''sourceRecordId'')"
  from 2(2) have ok: "tombstone_ok date_parse stream resource c" "?id \<notin> set seen"
    by (auto split: if_splits simp: Let_def)
  with 2(2) obtain us where us: "parse_tombstones date_parse stream resource (?id # seen) cs = Inr us"
      "ts = tombstone_json stream resource c # us"
    by (auto simp: Let_def and_then_Inr_iff)
  have "parse_tombstones date_parse stream resource (?id # seen) us = Inr us \<and> length us = length cs"
    using 2(1) ok us(1) by simp
  then show ?case using us(2) ok tombstone_ok_json [OF ok(1)] by (simp add: tombstone_json_twice)
qed simp

lemma parse_webhook_tombstones_array:
  assumes "parse_webhook_tombstones date_parse (Some (JArr xs)) s c r rc = Inr x"
  shows "parse_webhook_tombstones date_parse x s c r rc = Inr x"
proof -
  have guard: "xs \<noteq> [] \<and> length xs \<le> 5000 \<and> c = ''deputy'' \<and> r = Some (JStr ''webhook'') \<and> ulid_field rc"
    using assms unfolding parse_webhook_tombstones_def option.case json.case by (simp split: if_splits)
  obtain res where res: "deputy_resource s = Some res"
    using assms guard unfolding parse_webhook_tombstones_def option.case json.case
    by (cases "deputy_resource s") simp_all
  obtain ts where ts: "parse_tombstones date_parse s res [] xs = Inr ts" "x = Some (JArr ts)"
    using assms guard res unfolding parse_webhook_tombstones_def option.case json.case
    by (auto simp: and_then_Inr_iff)
  have fixed: "parse_tombstones date_parse s res [] ts = Inr ts" "length ts = length xs"
    using parse_tombstones_fixed [OF ts(1)] by simp_all
  then have "ts \<noteq> []" "length ts \<le> 5000" using guard by auto
  then show ?thesis
    unfolding ts(2) parse_webhook_tombstones_def option.case json.case using guard res fixed by simp
qed

lemma parse_webhook_tombstones_fixed:
  assumes "parse_webhook_tombstones date_parse v s c r rc = Inr x"
  shows "parse_webhook_tombstones date_parse x s c r rc = Inr x \<and> (x = None \<longleftrightarrow> v = None)"
proof (cases v)
  case None
  with assms show ?thesis by (simp add: parse_webhook_tombstones_def)
next
  case (Some j)
  show ?thesis
  proof (cases j)
    case (JArr xs)
    have "x \<noteq> None" using assms unfolding Some JArr parse_webhook_tombstones_def option.case json.case
      by (auto simp: and_then_Inr_iff split: if_splits option.splits)
    with parse_webhook_tombstones_array [OF assms [unfolded Some JArr]] Some show ?thesis by simp
  qed (use assms Some in \<open>simp_all add: parse_webhook_tombstones_def\<close>)
qed

text \<open>The keys that validation may set.\<close>

definition default_keys :: "string list" where
  "default_keys = [''connectionGeneration'', ''replayVersion'', ''planMode'', ''reconciliationSweepId'', ''phase'', ''webhookTombstones'']"

lemma default_not_envelope: "k \<in> set envelope_keys \<Longrightarrow> k \<notin> set default_keys"
  unfolding envelope_keys_def default_keys_def by (simp only: list.set insert_iff empty_iff) (elim disjE; simp)

lemma positive_safe_the: "positive_safe (or_else v d) \<Longrightarrow> or_else v d \<noteq> JNull"
  by (auto simp: positive_safe_def)

text \<open>One step of normalisation: the shape of the result for every job type.\<close>

lemma check_kind_backfill:
  assumes "check_kind date_parse ''InitialBackfill'' v base = Inr w"
  shows "backfill_ok date_parse v"
    "w = js_set ''planMode'' (JStr (js_text (or_else (js_get v ''planMode'') (JStr ''progressive''))))
           (js_set ''replayVersion'' (or_else (js_get v ''replayVersion'') (JNum 1)) base)"
  using assms by (simp_all add: check_kind_def split: if_splits)

lemma check_kind_incremental:
  assumes "check_kind date_parse ''IncrementalSync'' v base = Inr w"
  obtains ts where "incremental_ok v"
    "parse_webhook_tombstones date_parse (js_get v ''webhookTombstones'') (text_of (js_get v ''stream''))
       (text_of (js_get v ''connectorId'')) (js_get v ''reason'') (js_get v ''webhookReceiptId'') = Inr ts"
    "w = (case ts of None \<Rightarrow> base | Some x \<Rightarrow> js_set ''webhookTombstones'' x base)"
  using assms that by (auto simp: check_kind_def and_then_Inr_iff split: if_splits)

lemma check_kind_reconciliation:
  assumes "check_kind date_parse ''ReconciliationSweep'' v base = Inr w"
  shows "reconciliation_ok date_parse v \<and> ulid_field (sweep_id v) \<and> sweep_phase v \<in> set (map JStr RECONCILIATION_PHASES) \<and>
    w = js_set ''phase'' (sweep_phase v) (js_set ''reconciliationSweepId'' (the (sweep_id v)) base)"
  using assms by (simp add: check_kind_def split: if_splits)

lemma ulid_field_cases: "ulid_field v \<Longrightarrow> \<exists>s. v = Some (JStr s)"
  by (auto simp: ulid_field_def split: option.splits json.splits)

text \<open>Normalising twice is normalising once, given that \<open>base\<close> is \<open>v\<close> with its generation.\<close>

lemma check_kind_twice:
  assumes ty: "ty \<in> set SYNC_JOB_TYPES" and rec: "is_record v"
    and base: "base = js_set ''connectionGeneration'' g v" and w: "check_kind date_parse ty v base = Inr w"
  shows "check_kind date_parse ty w w = Inr w \<and> is_record w \<and> js_get w ''connectionGeneration'' = Some g \<and>
    (\<forall>k. k \<notin> set default_keys \<longrightarrow> js_get w k = js_get v k)"
proof -
  consider "ty = ''InitialBackfill''" | "ty = ''IncrementalSync''" | "ty = ''ReconciliationSweep''"
    using ty by (auto simp: SYNC_JOB_TYPES_def)
  then show ?thesis
  proof cases
    case 1
    note b = check_kind_backfill [OF w [unfolded 1]]
    let ?m = "js_text (or_else (js_get v ''planMode'') (JStr ''progressive''))"
    let ?r = "or_else (js_get v ''replayVersion'') (JNum 1)"
    have get: "js_get w k = (if k = ''planMode'' then Some (JStr ?m) else if k = ''replayVersion'' then Some ?r
        else if k = ''connectionGeneration'' then Some g else js_get v k)" for k
      using rec unfolding b(2) base by simp
    have r: "or_else (Some ?r) (JNum 1) = ?r"
      by (rule or_else_positive) (use b(1) in \<open>simp add: backfill_ok_def\<close>)
    have "backfill_ok date_parse w"
      using b(1) unfolding backfill_ok_def by (simp add: get r or_else_str)
    then have "check_kind date_parse ty w w = Inr w"
      unfolding 1 check_kind_def by (simp add: get r or_else_str js_set_same)
    moreover have "is_record w" unfolding b(2) base using rec by simp
    ultimately show ?thesis by (simp add: get default_keys_def)
  next
    case 2
    obtain ts where i: "incremental_ok v"
      "parse_webhook_tombstones date_parse (js_get v ''webhookTombstones'') (text_of (js_get v ''stream''))
         (text_of (js_get v ''connectorId'')) (js_get v ''reason'') (js_get v ''webhookReceiptId'') = Inr ts"
      "w = (case ts of None \<Rightarrow> base | Some x \<Rightarrow> js_set ''webhookTombstones'' x base)"
      using check_kind_incremental [OF w [unfolded 2]] by metis
    note fixed = parse_webhook_tombstones_fixed [OF i(2)]
    have get: "js_get w k = (if k = ''webhookTombstones'' then ts else if k = ''connectionGeneration'' then Some g else js_get v k)" for k
      using rec fixed unfolding i(3) base by (cases ts) simp_all
    have "is_record w" unfolding i(3) base using rec by (cases ts) simp_all
    moreover have "incremental_ok w" using i(1) by (simp add: incremental_ok_def get)
    then have "check_kind date_parse ty w w = Inr w"
      unfolding 2 check_kind_def using fixed by (cases ts) (simp_all add: get js_set_same)
    ultimately show ?thesis by (simp add: get default_keys_def)
  next
    case 3
    note r = check_kind_reconciliation [OF w [unfolded 3]]
    obtain s where s: "sweep_id v = Some (JStr s)" using ulid_field_cases r by blast
    obtain ph where ph: "sweep_phase v = JStr ph" using r by auto
    have weq: "w = js_set ''phase'' (JStr ph) (js_set ''reconciliationSweepId'' (JStr s) base)"
      using r by (simp add: s ph)
    have get: "js_get w k = (if k = ''phase'' then Some (JStr ph) else if k = ''reconciliationSweepId'' then Some (JStr s)
        else if k = ''connectionGeneration'' then Some g else js_get v k)" for k
      using rec by (simp add: base weq)
    have sw: "sweep_id w = sweep_id v" "sweep_phase w = sweep_phase v"
      by (simp_all add: s ph) (simp_all add: sweep_id_def sweep_phase_def get or_else_str)
    moreover have "reconciliation_ok date_parse v" using r by blast
    then have "reconciliation_ok date_parse w" by (simp add: reconciliation_ok_def get)
    moreover have "ulid_field (sweep_id v)" "sweep_phase v \<in> set (map JStr RECONCILIATION_PHASES)" using r by blast+
    ultimately have "check_kind date_parse ty w w = Inr w"
      unfolding 3 check_kind_def by (simp add: get js_set_same s ph)
    moreover have "is_record w" using rec by (simp add: base weq)
    ultimately show ?thesis by (simp add: get default_keys_def)
  qed
qed


definition sample_payload :: json where
  "sample_payload = JObj
     [(''schemaVersion'', JNum 1), (''type'', JStr ''InitialBackfill''),
      (''tenantId'', JStr ''01HZZZZZZZZZZZZZZZZZZZZZZA''), (''connectionId'', JStr ''01HZZZZZZZZZZZZZZZZZZZZZZB''),
      (''syncRunId'', JStr ''01HZZZZZZZZZZZZZZZZZZZZZZC''), (''batchId'', JStr ''01HZZZZZZZZZZZZZZZZZZZZZZD''),
      (''jobRequestId'', JStr ''01HZZZZZZZZZZZZZZZZZZZZZZE''), (''connectorId'', JStr ''xero''),
      (''externalAccountReference'', JStr ''org-1''), (''requestedAt'', JStr ''2024-05-01T00:00:00.000Z''),
      (''stream'', JStr ''invoices''), (''phase'', JStr ''recent''),
      (''range'', JObj [(''from'', JStr ''2024-04-01T00:00:00.000Z''), (''to'', JStr ''2024-05-01T00:00:00.000Z'')])]"


section \<open>The idempotency key\<close>

definition cursor_json :: "cursor \<Rightarrow> json" where
  "cursor_json c = JObj ([(''value'', JStr (cursor_value c))] @
     (case cursor_updated_at c of None \<Rightarrow> [] | Some t \<Rightarrow> [(''sourceUpdatedAt'', JStr t)]))"

definition range_json :: "sync_range \<Rightarrow> json" where
  "range_json r = JObj [(''from'', JStr (range_from r)), (''to'', JStr (range_to r))]"

definition webhook_tombstone_json :: "webhook_tombstone \<Rightarrow> json" where
  "webhook_tombstone_json t = JObj
     [(''kind'', JStr ''tombstone''), (''stream'', JStr (tomb_stream t)), (''sourceObjectType'', JStr (tomb_object_type t)),
      (''sourceRecordId'', JStr (tomb_record_id t)), (''observedAt'', JStr (tomb_observed_at t))]"

definition phase_text :: "backfill_phase \<Rightarrow> string" where
  "phase_text p = (case p of Recent \<Rightarrow> ''recent'' | Thirteen_months \<Rightarrow> ''thirteen_months'' | Full_history \<Rightarrow> ''full_history'')"

definition mode_text :: "plan_mode \<Rightarrow> string" where
  "mode_text m = (case m of Progressive \<Rightarrow> ''progressive'' | Resume_verified \<Rightarrow> ''resume_verified'' | Single_pass \<Rightarrow> ''single_pass'')"

definition reconciliation_text :: "reconciliation_phase \<Rightarrow> string" where
  "reconciliation_text p = (case p of Late_edits \<Rightarrow> ''late_edits'' | Identity_snapshot \<Rightarrow> ''identity_snapshot''
     | Verify_snapshot \<Rightarrow> ''verify_snapshot'' | Apply_tombstones \<Rightarrow> ''apply_tombstones'')"

definition type_text :: "job_kind \<Rightarrow> string" where
  "type_text k = (case k of Initial_backfill _ \<Rightarrow> ''InitialBackfill'' | Incremental_sync _ \<Rightarrow> ''IncrementalSync''
     | Reconciliation_sweep _ \<Rightarrow> ''ReconciliationSweep'')"

definition backfill_of :: "sync_job \<Rightarrow> backfill_fields option" where
  "backfill_of j = (case job_kind j of Initial_backfill b \<Rightarrow> Some b | _ \<Rightarrow> None)"

definition incremental_of :: "sync_job \<Rightarrow> incremental_fields option" where
  "incremental_of j = (case job_kind j of Incremental_sync i \<Rightarrow> Some i | _ \<Rightarrow> None)"

definition sweep_of :: "sync_job \<Rightarrow> reconciliation_fields option" where
  "sweep_of j = (case job_kind j of Reconciliation_sweep r \<Rightarrow> Some r | _ \<Rightarrow> None)"

definition replay_identity :: "sync_job \<Rightarrow> (string \<times> json option) list" where
  "replay_identity j =
     [(''schemaVersion'', Some (JNum 1)),
      (''type'', Some (JStr (type_text (job_kind j)))),
      (''tenantId'', Some (JStr (job_tenant (job_base j)))),
      (''connectionId'', Some (JStr (job_connection (job_base j)))),
      (''connectionGeneration'', Some (JNum (job_generation (job_base j)))),
      (''stream'', map_option JStr (job_stream j)),
      (''cursor'', map_option cursor_json (job_cursor j)),
      (''range'', map_option (\<lambda>b. range_json (bf_range b)) (backfill_of j)),
      (''phase'', map_option (\<lambda>b. JStr (phase_text (bf_phase b))) (backfill_of j)),
      (''replayVersion'', map_option (\<lambda>b. JNum (bf_replay b)) (backfill_of j)),
      (''planMode'', map_option (\<lambda>b. JStr (mode_text (bf_mode b))) (backfill_of j)),
      (''lookbackFrom'', map_option (\<lambda>r. JStr (rec_lookback_from r)) (sweep_of j)),
      (''lookbackTo'', map_option (\<lambda>r. JStr (rec_lookback_to r)) (sweep_of j)),
      (''reconciliationSweepId'', map_option (\<lambda>r. JStr (rec_sweep_id r)) (sweep_of j)),
      (''reconciliationPhase'', map_option (\<lambda>r. JStr (reconciliation_text (rec_phase r))) (sweep_of j)),
      (''webhookReceiptId'', map_option JStr (Option.bind (incremental_of j) inc_receipt)),
      (''webhookTombstones'', map_option (\<lambda>ts. JArr (map webhook_tombstone_json ts)) (Option.bind (incremental_of j) inc_tombstones))]"

definition sync_job_idempotency_key :: "(string \<Rightarrow> string) \<Rightarrow> sync_job \<Rightarrow> string" where
  "sync_job_idempotency_key sha256_hex j = ''sync:'' @ sha256_hex (stable_record (replay_identity j))"

section \<open>The orchestrator\<close>

text \<open>What \<open>queue.enqueue\<close> is called with. \<open>base\<close> draws the run and batch identifiers and the time.\<close>

record base_values =
  new_run_id :: string
  new_batch_id :: string
  now_iso :: string

record enqueue_options =
  opt_delay :: "int option"
  opt_key :: "string option"

record enqueue_request =
  req_job :: sync_job
  req_priority :: sync_priority
  req_key :: string
  req_delay :: "int option"

record target =
  tgt_tenant :: string
  tgt_connection :: string
  tgt_connector :: string
  tgt_account :: string
  tgt_generation :: int

definition make_base :: "base_values \<Rightarrow> target \<Rightarrow> job_base" where
  "make_base d t = \<lparr>job_tenant = tgt_tenant t, job_connection = tgt_connection t, job_connector = tgt_connector t,
     job_account = tgt_account t, job_generation = tgt_generation t, job_run_id = new_run_id d,
     job_batch_id = new_batch_id d, job_requested_at = now_iso d\<rparr>"

definition request_for :: "(string \<Rightarrow> string) \<Rightarrow> sync_job \<Rightarrow> sync_priority \<Rightarrow> enqueue_options \<Rightarrow> enqueue_request" where
  "request_for sha256_hex j p opts = \<lparr>req_job = j, req_priority = p,
     req_key = (case opt_key opts of Some k \<Rightarrow> k | None \<Rightarrow> sync_job_idempotency_key sha256_hex j), req_delay = opt_delay opts\<rparr>"

definition enqueue_initial_backfill ::
    "(string \<Rightarrow> string) \<Rightarrow> base_values \<Rightarrow> target \<Rightarrow> backfill_fields \<Rightarrow> enqueue_options \<Rightarrow> enqueue_request" where
  "enqueue_initial_backfill sha256_hex d t b opts =
     request_for sha256_hex \<lparr>job_base = make_base d t, job_kind = Initial_backfill b\<rparr> Backfill_priority opts"

definition enqueue_incremental_sync ::
    "(string \<Rightarrow> string) \<Rightarrow> base_values \<Rightarrow> target \<Rightarrow> incremental_fields \<Rightarrow> enqueue_options \<Rightarrow> enqueue_request" where
  "enqueue_incremental_sync sha256_hex d t i opts =
     request_for sha256_hex \<lparr>job_base = make_base d t, job_kind = Incremental_sync i\<rparr>
       (if inc_reason i = Webhook \<or> inc_reason i = Manual then High_priority else Standard_priority) opts"

text \<open>The sweep id and the phase are optional in the input: a new sweep takes its id from its run.\<close>

definition enqueue_reconciliation_sweep ::
    "(string \<Rightarrow> string) \<Rightarrow> base_values \<Rightarrow> target \<Rightarrow> string option \<Rightarrow> reconciliation_phase option \<Rightarrow> string option \<Rightarrow>
     cursor option \<Rightarrow> string \<Rightarrow> string \<Rightarrow> enqueue_options \<Rightarrow> enqueue_request" where
  "enqueue_reconciliation_sweep sha256_hex d t sweep phase stream cur from to opts =
     request_for sha256_hex
       \<lparr>job_base = make_base d t,
        job_kind = Reconciliation_sweep
          \<lparr>rec_sweep_id = (case sweep of Some s \<Rightarrow> s | None \<Rightarrow> new_run_id d),
           rec_phase = (case phase of Some p \<Rightarrow> p | None \<Rightarrow> Late_edits),
           rec_stream = stream, rec_cursor = cur, rec_lookback_from = from, rec_lookback_to = to\<rparr>\<rparr>
       Standard_priority opts"

section \<open>Equal keys, equal work\<close>

text \<open>The part of a job that its key is about: not the run, the batch, the request time, the
  connector, the account, nor the reason of an incremental sync.\<close>

definition work_of :: "sync_job \<Rightarrow> string \<times> string \<times> int \<times> job_kind" where
  "work_of j = (job_tenant (job_base j), job_connection (job_base j), job_generation (job_base j),
     (case job_kind j of Incremental_sync i \<Rightarrow> Incremental_sync (i\<lparr>inc_reason := Schedule\<rparr>) | k \<Rightarrow> k))"

lemma text_injects:
  "phase_text p = phase_text p' \<longleftrightarrow> p = p'" "mode_text m = mode_text m' \<longleftrightarrow> m = m'"
  "reconciliation_text r = reconciliation_text r' \<longleftrightarrow> r = r'"
  by (auto simp: phase_text_def mode_text_def reconciliation_text_def split: backfill_phase.splits plan_mode.splits reconciliation_phase.splits)

lemma norm_obj_get:
  assumes "norm_json (JObj m) = norm_json (JObj m')" "distinct (map fst m)" "distinct (map fst m')"
  shows "map_option norm_json (map_of m k) = map_option norm_json (map_of m' k)"
proof -
  let ?n = "map (\<lambda>e. (fst e, norm_json (snd e)))"
  have fsts: "map fst (?n xs) = map fst xs" for xs :: "(string \<times> json) list" by simp
  have eq: "sort_key fst (?n m) = sort_key fst (?n m')" using assms(1) by simp
  have "set (?n m) = set (?n m')" using arg_cong [OF eq, of set] by (simp only: set_sort)
  moreover have "distinct (map fst (?n m))" "distinct (map fst (?n m'))" using assms(2,3) by (simp_all only: fsts)
  ultimately have "map_of (?n m) = map_of (?n m')" by (simp only: map_of_inject_set)
  then have "map_of (?n m) k = map_of (?n m') k" by simp
  moreover have "map_of (?n xs) k = map_option norm_json (map_of xs k)" for xs by (induction xs) auto
  ultimately show ?thesis by simp
qed

lemma norm_cursor_inject: "norm_json (cursor_json c) = norm_json (cursor_json c') \<longleftrightarrow> c = c'"
proof
  assume eq: "norm_json (cursor_json c) = norm_json (cursor_json c')"
  have get: "map_option norm_json (js_get (cursor_json c) k) = map_option norm_json (js_get (cursor_json c') k)" for k
    unfolding cursor_json_def js_get_simps
    by (rule norm_obj_get [OF eq [unfolded cursor_json_def]]) (simp_all split: option.splits)
  have "cursor_value c = cursor_value c'" using get [of "''value''"] by (simp add: cursor_json_def)
  moreover have "cursor_updated_at c = cursor_updated_at c'"
    using get [of "''sourceUpdatedAt''"]
    by (cases "cursor_updated_at c"; cases "cursor_updated_at c'") (simp_all add: cursor_json_def)
  ultimately show "c = c'" by simp
qed simp

lemma norm_range_inject: "norm_json (range_json r) = norm_json (range_json r') \<longleftrightarrow> r = r'"
proof
  assume eq: "norm_json (range_json r) = norm_json (range_json r')"
  have get: "map_option norm_json (js_get (range_json r) k) = map_option norm_json (js_get (range_json r') k)" for k
    unfolding range_json_def js_get_simps
    by (rule norm_obj_get [OF eq [unfolded range_json_def]]) simp_all
  show "r = r'" using get [of "''from''"] get [of "''to''"] by (simp add: range_json_def)
qed simp

lemma norm_tombstone_inject: "norm_json (webhook_tombstone_json t) = norm_json (webhook_tombstone_json t') \<longleftrightarrow> t = t'"
proof
  assume eq: "norm_json (webhook_tombstone_json t) = norm_json (webhook_tombstone_json t')"
  have get: "map_option norm_json (js_get (webhook_tombstone_json t) k) = map_option norm_json (js_get (webhook_tombstone_json t') k)" for k
    unfolding webhook_tombstone_json_def js_get_simps
    by (rule norm_obj_get [OF eq [unfolded webhook_tombstone_json_def]]) simp_all
  show "t = t'"
    using get [of "''stream''"] get [of "''sourceObjectType''"] get [of "''sourceRecordId''"] get [of "''observedAt''"]
    by (simp add: webhook_tombstone_json_def)
qed simp

lemma option_inject:
  assumes "map_option f a = map_option f b" "\<And>x y. f x = f y \<Longrightarrow> g x = g y"
  shows "map_option g a = map_option g b"
proof (cases a)
  case (Some x)
  with assms(1) obtain y where "b = Some y" "f x = f y" by (cases b) simp_all
  with Some show ?thesis by (simp add: assms(2) [of x y])
qed (use assms(1) in simp)

lemma map_inject: "(\<And>x y. f x = f y \<longleftrightarrow> x = y) \<Longrightarrow> map f xs = map f ys \<longleftrightarrow> xs = ys"
  by (rule inj_map_eq_map) (simp add: inj_def)

lemma replay_names:
  "map fst (replay_identity j) =
     [''schemaVersion'', ''type'', ''tenantId'', ''connectionId'', ''connectionGeneration'', ''stream'', ''cursor'', ''range'',
      ''phase'', ''replayVersion'', ''planMode'', ''lookbackFrom'', ''lookbackTo'', ''reconciliationSweepId'',
      ''reconciliationPhase'', ''webhookReceiptId'', ''webhookTombstones'']"
  by (simp only: replay_identity_def list.map fst_conv)

lemma replay_distinct: "distinct (map fst (replay_identity j))"
  unfolding replay_names by code_simp

lemma replay_keys: "distinct (map fst (replay_identity j))" "map fst (replay_identity j') = map fst (replay_identity j)"
  by (rule replay_distinct) (simp only: replay_names)

text \<open>Equal renderings of two jobs give equal fields.\<close>

lemma replay_fields:
  assumes "stable_record (replay_identity j) = stable_record (replay_identity j')"
  shows "type_text (job_kind j) = type_text (job_kind j')" "job_tenant (job_base j) = job_tenant (job_base j')"
    "job_connection (job_base j) = job_connection (job_base j')" "job_generation (job_base j) = job_generation (job_base j')"
    "job_stream j = job_stream j'" "job_cursor j = job_cursor j'"
    "map_option bf_range (backfill_of j) = map_option bf_range (backfill_of j')"
    "map_option bf_phase (backfill_of j) = map_option bf_phase (backfill_of j')"
    "map_option bf_replay (backfill_of j) = map_option bf_replay (backfill_of j')"
    "map_option bf_mode (backfill_of j) = map_option bf_mode (backfill_of j')"
    "map_option rec_lookback_from (sweep_of j) = map_option rec_lookback_from (sweep_of j')"
    "map_option rec_lookback_to (sweep_of j) = map_option rec_lookback_to (sweep_of j')"
    "map_option rec_sweep_id (sweep_of j) = map_option rec_sweep_id (sweep_of j')"
    "map_option rec_phase (sweep_of j) = map_option rec_phase (sweep_of j')"
    "Option.bind (incremental_of j) inc_receipt = Option.bind (incremental_of j') inc_receipt"
    "Option.bind (incremental_of j) inc_tombstones = Option.bind (incremental_of j') inc_tombstones"
proof -
  note eq = stable_record_inject [OF assms replay_keys, unfolded replay_identity_def norm_field_def list.map fst_conv snd_conv
      list.inject prod.inject option.map option.inject norm_json.simps json.inject simp_thms option.map_comp comp_def list.map_comp]
  show "type_text (job_kind j) = type_text (job_kind j')" using eq by blast
  show "job_tenant (job_base j) = job_tenant (job_base j')" using eq by blast
  show "job_connection (job_base j) = job_connection (job_base j')" using eq by blast
  show "job_generation (job_base j) = job_generation (job_base j')" using eq by blast
  have "map_option (\<lambda>x. JStr x) (job_stream j) = map_option (\<lambda>x. JStr x) (job_stream j')"
    using eq by blast
  then have "map_option (\<lambda>x. x) (job_stream j) = map_option (\<lambda>x. x) (job_stream j')"
    by (rule option_inject) simp
  then show "job_stream j = job_stream j'" by (simp add: option.map_ident)
  have "map_option (\<lambda>x. norm_json (cursor_json x)) (job_cursor j) = map_option (\<lambda>x. norm_json (cursor_json x)) (job_cursor j')"
    using eq by blast
  then have "map_option (\<lambda>x. x) (job_cursor j) = map_option (\<lambda>x. x) (job_cursor j')"
    by (rule option_inject) (simp only: norm_cursor_inject)
  then show "job_cursor j = job_cursor j'" by (simp add: option.map_ident)
  have "map_option (\<lambda>x. norm_json (range_json (bf_range x))) (backfill_of j) = map_option (\<lambda>x. norm_json (range_json (bf_range x))) (backfill_of j')"
    using eq by blast
  then show "map_option bf_range (backfill_of j) = map_option bf_range (backfill_of j')"
    by (rule option_inject) (simp only: norm_range_inject)
  have "map_option (\<lambda>x. JStr (phase_text (bf_phase x))) (backfill_of j) = map_option (\<lambda>x. JStr (phase_text (bf_phase x))) (backfill_of j')"
    using eq by blast
  then show "map_option bf_phase (backfill_of j) = map_option bf_phase (backfill_of j')"
    by (rule option_inject) (simp add: text_injects)
  have "map_option (\<lambda>x. JNum (bf_replay x)) (backfill_of j) = map_option (\<lambda>x. JNum (bf_replay x)) (backfill_of j')"
    using eq by blast
  then show "map_option bf_replay (backfill_of j) = map_option bf_replay (backfill_of j')"
    by (rule option_inject) simp
  have "map_option (\<lambda>x. JStr (mode_text (bf_mode x))) (backfill_of j) = map_option (\<lambda>x. JStr (mode_text (bf_mode x))) (backfill_of j')"
    using eq by blast
  then show "map_option bf_mode (backfill_of j) = map_option bf_mode (backfill_of j')"
    by (rule option_inject) (simp add: text_injects)
  have "map_option (\<lambda>x. JStr (rec_lookback_from x)) (sweep_of j) = map_option (\<lambda>x. JStr (rec_lookback_from x)) (sweep_of j')"
    using eq by blast
  then show "map_option rec_lookback_from (sweep_of j) = map_option rec_lookback_from (sweep_of j')"
    by (rule option_inject) simp
  have "map_option (\<lambda>x. JStr (rec_lookback_to x)) (sweep_of j) = map_option (\<lambda>x. JStr (rec_lookback_to x)) (sweep_of j')"
    using eq by blast
  then show "map_option rec_lookback_to (sweep_of j) = map_option rec_lookback_to (sweep_of j')"
    by (rule option_inject) simp
  have "map_option (\<lambda>x. JStr (rec_sweep_id x)) (sweep_of j) = map_option (\<lambda>x. JStr (rec_sweep_id x)) (sweep_of j')"
    using eq by blast
  then show "map_option rec_sweep_id (sweep_of j) = map_option rec_sweep_id (sweep_of j')"
    by (rule option_inject) simp
  have "map_option (\<lambda>x. JStr (reconciliation_text (rec_phase x))) (sweep_of j) = map_option (\<lambda>x. JStr (reconciliation_text (rec_phase x))) (sweep_of j')"
    using eq by blast
  then show "map_option rec_phase (sweep_of j) = map_option rec_phase (sweep_of j')"
    by (rule option_inject) (simp add: text_injects)
  have "map_option (\<lambda>x. JStr x) (Option.bind (incremental_of j) inc_receipt) = map_option (\<lambda>x. JStr x) (Option.bind (incremental_of j') inc_receipt)"
    using eq by blast
  then have "map_option (\<lambda>x. x) (Option.bind (incremental_of j) inc_receipt) = map_option (\<lambda>x. x) (Option.bind (incremental_of j') inc_receipt)"
    by (rule option_inject) simp
  then show "Option.bind (incremental_of j) inc_receipt = Option.bind (incremental_of j') inc_receipt" by (simp add: option.map_ident)
  have "map_option (\<lambda>x. JArr (map (\<lambda>t. norm_json (webhook_tombstone_json t)) x)) (Option.bind (incremental_of j) inc_tombstones) = map_option (\<lambda>x. JArr (map (\<lambda>t. norm_json (webhook_tombstone_json t)) x)) (Option.bind (incremental_of j') inc_tombstones)"
    using eq by blast
  then have "map_option (\<lambda>x. x) (Option.bind (incremental_of j) inc_tombstones) = map_option (\<lambda>x. x) (Option.bind (incremental_of j') inc_tombstones)"
    by (rule option_inject) (simp add: map_inject norm_tombstone_inject)
  then show "Option.bind (incremental_of j) inc_tombstones = Option.bind (incremental_of j') inc_tombstones" by (simp add: option.map_ident)
qed

lemma backfill_eq:
  "(b::backfill_fields) = b' \<longleftrightarrow> bf_stream b = bf_stream b' \<and> bf_range b = bf_range b' \<and> bf_cursor b = bf_cursor b' \<and>
     bf_phase b = bf_phase b' \<and> bf_replay b = bf_replay b' \<and> bf_mode b = bf_mode b'"
  by (cases b; cases b') auto

lemma incremental_eq:
  "(i::incremental_fields)\<lparr>inc_reason := Schedule\<rparr> = i'\<lparr>inc_reason := Schedule\<rparr> \<longleftrightarrow> inc_stream i = inc_stream i' \<and>
     inc_cursor i = inc_cursor i' \<and> inc_receipt i = inc_receipt i' \<and> inc_tombstones i = inc_tombstones i'"
  by (cases i; cases i') auto

lemma sweep_eq:
  "(r::reconciliation_fields) = r' \<longleftrightarrow> rec_sweep_id r = rec_sweep_id r' \<and> rec_phase r = rec_phase r' \<and> rec_stream r = rec_stream r' \<and>
     rec_cursor r = rec_cursor r' \<and> rec_lookback_from r = rec_lookback_from r' \<and> rec_lookback_to r = rec_lookback_to r'"
  by (cases r; cases r') auto

lemmas job_views = backfill_of_def incremental_of_def sweep_of_def job_stream_def job_cursor_def

lemma work_of_eqI:
  assumes "job_tenant (job_base j) = job_tenant (job_base j')" "job_connection (job_base j) = job_connection (job_base j')"
    "job_generation (job_base j) = job_generation (job_base j')"
    and "case job_kind j of
       Initial_backfill b \<Rightarrow> job_kind j' = Initial_backfill b
     | Incremental_sync i \<Rightarrow> (\<exists>i'. job_kind j' = Incremental_sync i' \<and> i\<lparr>inc_reason := Schedule\<rparr> = i'\<lparr>inc_reason := Schedule\<rparr>)
     | Reconciliation_sweep r \<Rightarrow> job_kind j' = Reconciliation_sweep r"
  shows "work_of j = work_of j'"
  using assms by (auto simp: work_of_def split: job_kind.splits)

lemma replay_work: "stable_record (replay_identity j) = stable_record (replay_identity j') \<longleftrightarrow> work_of j = work_of j'"
proof
  assume "stable_record (replay_identity j) = stable_record (replay_identity j')"
  note f = replay_fields [OF this]
  have "type_text (job_kind j) = type_text (job_kind j')" by (rule f(1))
  show "work_of j = work_of j'"
  proof (rule work_of_eqI [OF f(2-4)])
    show "case job_kind j of
       Initial_backfill b \<Rightarrow> job_kind j' = Initial_backfill b
     | Incremental_sync i \<Rightarrow> (\<exists>i'. job_kind j' = Incremental_sync i' \<and> i\<lparr>inc_reason := Schedule\<rparr> = i'\<lparr>inc_reason := Schedule\<rparr>)
     | Reconciliation_sweep r \<Rightarrow> job_kind j' = Reconciliation_sweep r"
    proof (cases "job_kind j")
      case (Initial_backfill b)
      with f(1) obtain b' where b': "job_kind j' = Initial_backfill b'" by (cases "job_kind j'") (simp_all add: type_text_def)
      have "b = b'" unfolding backfill_eq using f(5-10) by (simp add: Initial_backfill b' job_views)
      then show ?thesis by (simp add: Initial_backfill b')
    next
      case (Incremental_sync i)
      with f(1) obtain i' where i': "job_kind j' = Incremental_sync i'" by (cases "job_kind j'") (simp_all add: type_text_def)
      have "i\<lparr>inc_reason := Schedule\<rparr> = i'\<lparr>inc_reason := Schedule\<rparr>"
        unfolding incremental_eq using f(5,6,15,16) by (simp add: Incremental_sync i' job_views)
      then show ?thesis by (simp add: Incremental_sync i')
    next
      case (Reconciliation_sweep r)
      with f(1) obtain r' where r': "job_kind j' = Reconciliation_sweep r'" by (cases "job_kind j'") (simp_all add: type_text_def)
      have "r = r'" unfolding sweep_eq using f(5,6,11-14) by (simp add: Reconciliation_sweep r' job_views)
      then show ?thesis by (simp add: Reconciliation_sweep r')
    qed
  qed
next
  assume work: "work_of j = work_of j'"
  then have base: "job_tenant (job_base j) = job_tenant (job_base j')" "job_connection (job_base j) = job_connection (job_base j')"
    "job_generation (job_base j) = job_generation (job_base j')"
    by (simp_all add: work_of_def)
  have "replay_identity j = replay_identity j'"
  proof (cases "job_kind j")
    case (Incremental_sync i)
    with work obtain i' where i': "job_kind j' = Incremental_sync i'" "i\<lparr>inc_reason := Schedule\<rparr> = i'\<lparr>inc_reason := Schedule\<rparr>"
      by (cases "job_kind j'") (simp_all add: work_of_def)
    from i'(2) [unfolded incremental_eq] show ?thesis
      by (simp add: replay_identity_def base Incremental_sync i'(1) job_views type_text_def)
  next
    case (Initial_backfill b)
    with work have "job_kind j' = Initial_backfill b" by (cases "job_kind j'") (simp_all add: work_of_def)
    with Initial_backfill show ?thesis by (simp add: replay_identity_def base job_views)
  next
    case (Reconciliation_sweep r)
    with work have "job_kind j' = Reconciliation_sweep r" by (cases "job_kind j'") (simp_all add: work_of_def)
    with Reconciliation_sweep show ?thesis by (simp add: replay_identity_def base job_views)
  qed
  then show "stable_record (replay_identity j) = stable_record (replay_identity j')" by simp
qed

text \<open>C17: the idempotency key of a job identifies its work. Unless
  SHA-256 collides on the two texts, two jobs have the same key exactly when they have the same
  tenant, connection and generation and the same type-specific fields; runs, batches, request
  times, connectors, accounts and the reason of an incremental sync do not show in the key.\<close>

theorem idempotency_key_identifies_work:
  assumes "sha256_hex (stable_record (replay_identity j)) = sha256_hex (stable_record (replay_identity j')) \<Longrightarrow>
      stable_record (replay_identity j) = stable_record (replay_identity j')"
  shows "sync_job_idempotency_key sha256_hex j = sync_job_idempotency_key sha256_hex j' \<longleftrightarrow> work_of j = work_of j'"
  unfolding replay_work [symmetric] sync_job_idempotency_key_def using assms by auto

definition sample_job :: "string \<Rightarrow> backfill_phase \<Rightarrow> sync_job" where
  "sample_job run ph =
     \<lparr>job_base = \<lparr>job_tenant = ''t'', job_connection = ''c'', job_connector = ''xero'', job_account = ''a'', job_generation = 2,
        job_run_id = run, job_batch_id = run, job_requested_at = ''2024-05-01T00:00:00.000Z''\<rparr>,
      job_kind = Initial_backfill \<lparr>bf_stream = Some ''invoices'',
        bf_range = \<lparr>range_from = ''2024-04-01T00:00:00.000Z'', range_to = ''2024-05-01T00:00:00.000Z''\<rparr>,
        bf_cursor = None, bf_phase = ph, bf_replay = 1, bf_mode = Progressive\<rparr>\<rparr>"

lemma idempotency_key_identifies_work_witness:
  "sync_job_idempotency_key (\<lambda>s. s) (sample_job ''1'' Recent) = sync_job_idempotency_key (\<lambda>s. s) (sample_job ''2'' Recent) \<and>
   sync_job_idempotency_key (\<lambda>s. s) (sample_job ''1'' Recent) \<noteq> sync_job_idempotency_key (\<lambda>s. s) (sample_job ''1'' Full_history)"
  by (simp add: idempotency_key_identifies_work [of "\<lambda>s. s"] work_of_def sample_job_def)

end
