(* ===== verification/Sync_Lifecycle.thy ===== *)
theory Sync_Lifecycle
  imports Sync_Jobs Civil_Dates
begin

text \<open>
  \<open>services/sync-workers/src/sync-lifecycle.ts\<close>: the phases of an initial backfill. A stream that
  can be read by date range is fetched newest first: the recent window, then thirteen months back,
  then the rest of history; a reconnected stream with trusted coverage only catches up; any other
  stream is read in one pass. \<open>Date.parse\<close> is a parameter; \<open>toISOString\<close> is \<open>iso_string\<close>.
\<close>

section \<open>Streams, coverage and plans\<close>

datatype backfill_strategy = Time_windowed | Snapshot | Exhaustive_offset
datatype availability = Required_stream | Optional_stream

text \<open>The fields of \<open>ConnectorStream\<close> that the planner and the worker read.\<close>

record connector_stream =
  strm_id :: string
  strm_domains :: "string list"
  strm_strategy :: backfill_strategy
  strm_availability :: availability
  strm_dependencies :: "string list"
  strm_product_domains :: "string list"
  strm_priority :: "int option"

datatype boundary_kind =
    Verified_oldest | Verified_empty | Account_start | Vendor_retention | Snapshot_at | Window_exhausted
datatype verification = Exhaustive_vendor_scan | Vendor_reported | Account_metadata | Point_in_time

record coverage =
  cov_kind :: boundary_kind
  cov_lower :: string
  cov_verification :: verification
  cov_detail :: "string option"

record stream_cursor =
  sc_cursor :: "cursor option"
  sc_watermark :: "string option"
  sc_complete :: bool
  sc_generation :: int
  sc_coverage :: "coverage option"

record phase_plan =
  plan_stream :: string
  plan_domains :: "string list"
  plan_dependencies :: "string list"
  plan_required :: bool
  plan_strategy :: backfill_strategy
  plan_phase :: backfill_phase
  plan_mode :: plan_mode
  plan_range :: sync_range
  plan_replay :: int
  plan_inherited :: "coverage option"

definition HISTORY_FLOOR :: string where
  "HISTORY_FLOOR = ''1970-01-01T00:00:00.000Z''"

definition COMPLETION_BOUNDARIES :: "boundary_kind list" where
  "COMPLETION_BOUNDARIES = [Verified_oldest, Verified_empty, Account_start, Vendor_retention, Snapshot_at]"

section \<open>Planning\<close>

datatype lifecycle_error = Timestamp_invalid | Time_out_of_range

text \<open>\<open>MakeDay\<close>: what \<open>setUTCMonth\<close> and \<open>setUTCDate\<close> compute; unlike \<open>Date.UTC\<close> it takes a year as it is.\<close>

definition make_day :: "int \<Rightarrow> int \<Rightarrow> int \<Rightarrow> int" where
  "make_day y m d = (let ym = y + m div 12 in days_from_year ym + month_start (leap ym) (m mod 12) + d - 1)"

definition months_before :: "int \<Rightarrow> int \<Rightarrow> int" where
  "months_before t months =
     (let d = civil_date (t div ms_per_day);
          f = civil_date (make_day (year_of d) (month_of d - 1 - months) 1);
          last_day = day_of (civil_date (utc_day (year_of f) (month_of f) 0))
      in make_day (year_of f) (month_of f - 1) (min (day_of d) last_day) * ms_per_day + t mod ms_per_day)"

text \<open>\<open>toISOString\<close> throws outside the range of time values.\<close>

definition subtract_utc_months :: "(string \<Rightarrow> int option) \<Rightarrow> string \<Rightarrow> int \<Rightarrow> (lifecycle_error, string) result" where
  "subtract_utc_months date_parse v months =
     (case date_parse v of
        None \<Rightarrow> Inl Timestamp_invalid
      | Some t \<Rightarrow> if \<bar>months_before t months\<bar> > 8640000000000000 then Inl Time_out_of_range
                  else Inr (iso_string (months_before t months)))"

definition is_completion_coverage :: "coverage option \<Rightarrow> bool" where
  "is_completion_coverage c = (case c of None \<Rightarrow> False | Some v \<Rightarrow> cov_kind v \<in> set COMPLETION_BOUNDARIES)"

definition text_present :: "string option \<Rightarrow> bool" where
  "text_present v \<longleftrightarrow> v \<noteq> None \<and> v \<noteq> Some []"

definition trusted_previous_coverage ::
    "(string \<Rightarrow> int option) \<Rightarrow> job_base \<Rightarrow> backfill_fields \<Rightarrow> stream_cursor option \<Rightarrow> bool" where
  "trusted_previous_coverage date_parse base job previous =
     (case previous of
        None \<Rightarrow> False
      | Some p \<Rightarrow> sc_generation p = job_generation base - 1 \<and>
          sc_cursor p \<noteq> None \<and> sc_complete p \<and> text_present (sc_watermark p) \<and> is_completion_coverage (sc_coverage p) \<and>
          (case (date_parse (the (sc_watermark p)), date_parse (range_to (bf_range job))) of
             (Some w, Some t) \<Rightarrow> w \<le> t | _ \<Rightarrow> False))"

definition base_plan :: "connector_stream \<Rightarrow> backfill_fields \<Rightarrow> backfill_phase \<Rightarrow> plan_mode \<Rightarrow> sync_range \<Rightarrow> coverage option \<Rightarrow> phase_plan" where
  "base_plan stream job ph mode rng inherited =
     \<lparr>plan_stream = strm_id stream, plan_domains = strm_product_domains stream, plan_dependencies = strm_dependencies stream,
      plan_required = (strm_availability stream = Required_stream), plan_strategy = strm_strategy stream,
      plan_phase = ph, plan_mode = mode, plan_range = rng, plan_replay = bf_replay job, plan_inherited = inherited\<rparr>"

definition non_empty_range :: "(string \<Rightarrow> int option) \<Rightarrow> sync_range \<Rightarrow> bool" where
  "non_empty_range date_parse r =
     (case (date_parse (range_from r), date_parse (range_to r)) of (Some a, Some b) \<Rightarrow> a < b | _ \<Rightarrow> False)"

definition progressive_plans :: "(string \<Rightarrow> int option) \<Rightarrow> connector_stream \<Rightarrow> backfill_fields \<Rightarrow> string \<Rightarrow> phase_plan list" where
  "progressive_plans date_parse stream job boundary =
     filter (\<lambda>p. non_empty_range date_parse (plan_range p))
       [base_plan stream job Recent Progressive (bf_range job) None,
        base_plan stream job Thirteen_months Progressive \<lparr>range_from = boundary, range_to = range_from (bf_range job)\<rparr> None,
        base_plan stream job Full_history Progressive \<lparr>range_from = HISTORY_FLOOR, range_to = boundary\<rparr> None]"

definition build_backfill_plan ::
    "(string \<Rightarrow> int option) \<Rightarrow> job_base \<Rightarrow> backfill_fields \<Rightarrow> connector_stream \<Rightarrow> stream_cursor option \<Rightarrow> (lifecycle_error, phase_plan list) result" where
  "build_backfill_plan date_parse base job stream previous =
     (if strm_strategy stream \<noteq> Time_windowed then Inr [base_plan stream job Recent Single_pass (bf_range job) None]
      else if trusted_previous_coverage date_parse base job previous
      then Inr [base_plan stream job Recent Resume_verified
                 \<lparr>range_from = the (sc_watermark (the previous)), range_to = range_to (bf_range job)\<rparr> (sc_coverage (the previous))]
      else and_then (subtract_utc_months date_parse (range_to (bf_range job)) 13) (\<lambda>boundary.
             Inr (progressive_plans date_parse stream job boundary)))"

section \<open>Completion and succession\<close>

definition phase_completes_backfill :: "backfill_fields \<Rightarrow> coverage option \<Rightarrow> coverage option \<Rightarrow> bool \<times> coverage option" where
  "phase_completes_backfill job page_coverage inherited =
     (if bf_mode job = Progressive \<and> bf_phase job \<noteq> Full_history then (False, None)
      else if bf_mode job = Resume_verified \<and> is_completion_coverage inherited then (True, inherited)
      else if is_completion_coverage page_coverage then (True, page_coverage) else (False, None))"

fun after_phase :: "phase_plan list \<Rightarrow> backfill_phase \<Rightarrow> phase_plan option" where
  "after_phase [] ph = None"
| "after_phase (p # ps) ph = (if plan_phase p = ph then (case ps of [] \<Rightarrow> None | q # _ \<Rightarrow> Some q) else after_phase ps ph)"

definition next_backfill_plan :: "phase_plan list \<Rightarrow> backfill_phase \<Rightarrow> phase_plan option" where
  "next_backfill_plan plans ph = after_phase plans ph"

section \<open>The phases of a progressive backfill tile the history\<close>

text \<open>The instants a plan fetches.\<close>

definition plan_covers :: "(string \<Rightarrow> int option) \<Rightarrow> phase_plan \<Rightarrow> int \<Rightarrow> bool" where
  "plan_covers date_parse p x =
     (case (date_parse (range_from (plan_range p)), date_parse (range_to (plan_range p))) of
        (Some a, Some b) \<Rightarrow> a \<le> x \<and> x < b | _ \<Rightarrow> False)"

text \<open>Following \<open>next_backfill_plan\<close> from a phase, as each completed phase does.\<close>

fun chain :: "nat \<Rightarrow> phase_plan list \<Rightarrow> backfill_phase \<Rightarrow> phase_plan list" where
  "chain 0 plans ph = []"
| "chain (Suc n) plans ph = (case next_backfill_plan plans ph of None \<Rightarrow> [] | Some p \<Rightarrow> p # chain n plans (plan_phase p))"

lemma history_floor: "iso_string 0 = HISTORY_FLOOR"
  unfolding HISTORY_FLOOR_def by code_simp

lemma base_plan_simps [simp]:
  "plan_phase (base_plan s j ph m r i) = ph" "plan_range (base_plan s j ph m r i) = r" "plan_mode (base_plan s j ph m r i) = m"
  "plan_inherited (base_plan s j ph m r i) = i" "plan_stream (base_plan s j ph m r i) = strm_id s"
  by (simp_all add: base_plan_def)

lemma progressive_plans_eq:
  assumes "date_parse (range_from (bf_range job)) = Some f" "date_parse (range_to (bf_range job)) = Some t"
    "date_parse boundary = Some b" "date_parse HISTORY_FLOOR = Some 0"
  shows "progressive_plans date_parse stream job boundary =
    (if f < t then [base_plan stream job Recent Progressive (bf_range job) None] else []) @
    (if b < f then [base_plan stream job Thirteen_months Progressive \<lparr>range_from = boundary, range_to = range_from (bf_range job)\<rparr> None] else []) @
    (if 0 < b then [base_plan stream job Full_history Progressive \<lparr>range_from = HISTORY_FLOOR, range_to = boundary\<rparr> None] else [])"
  using assms by (simp add: progressive_plans_def non_empty_range_def)

text \<open>Thirteen months before an instant of the epoch is before it, by less than 1100 days.\<close>

lemma months_before_13:
  assumes "0 \<le> t"
  shows "t - 1100 * ms_per_day \<le> months_before t 13 \<and> months_before t 13 \<le> t"
proof -
  let ?n = "t div ms_per_day"
  have n: "0 \<le> ?n" "days_from_year 100 \<le> ?n"
    using assms by (simp_all add: ms_per_day_def days_from_year_def)
  obtain y m dd where d: "civil_date ?n = Date_parts y m dd" by (cases "civil_date ?n")
  have v: "valid_date (Date_parts y m dd)" "day_number (Date_parts y m dd) = ?n"
    using civil_date_valid [OF n(2)] d by simp_all
  have "days_from_year y \<le> ?n" "?n < days_from_year (y + 1)" using day_number_year [OF v(1)] v(2) by simp_all
  have y: "1970 \<le> y"
  proof (rule ccontr)
    assume "\<not> 1970 \<le> y"
    then have "days_from_year (y + 1) \<le> days_from_year 1970" using days_from_year_mono [of "y + 1" 1970] by simp
    with \<open>?n < _\<close> n(1) show False by (simp add: days_from_year_def)
  qed
  have m: "1 \<le> m" "m \<le> 12" using v(1) by (simp_all add: valid_date_def)
  define yf mf where "yf = y + (m - 14) div 12" and "mf = (m - 14) mod 12"
  have yf: "y - 2 \<le> yf" "yf \<le> y - 1" "0 \<le> mf" "mf < 12" using m by (auto simp: yf_def mf_def)
  have mf_le: "mf \<le> 11" using yf(4) by simp
  have ml: "1 \<le> month_length (leap yf) (mf + 1)" using month_length_range [of "mf + 1" "leap yf"] yf by simp
  have first: "make_day y (m - 14) 1 = day_number (Date_parts yf (mf + 1) 1)" "valid_date (Date_parts yf (mf + 1) 1)"
    using yf y ml mf_le
    by (simp_all add: make_day_def yf_def [symmetric] mf_def [symmetric] day_number_def utc_day_def full_year_def Let_def valid_date_def)
  have f: "civil_date (make_day y (m - 14) 1) = Date_parts yf (mf + 1) 1"
    using civil_date_day_number [OF first(2)] first(1) by simp
  let ?last = "day_of (civil_date (utc_day yf (mf + 1) 0))"
  have start: "0 \<le> month_start l k" "month_start l k \<le> 366" if "0 \<le> k" "k \<le> 12" for l k
    using that by (auto simp: month_start_def)
  have carry: "days_from_year yf \<le> days_from_year (yf + (mf + 1) div 12)"
  proof -
    have "0 \<le> (mf + 1) div 12" using yf(3) by (simp add: pos_imp_zdiv_nonneg_iff)
    then show ?thesis using days_from_year_mono [of yf "yf + (mf + 1) div 12"] by fastforce
  qed
  have "utc_day yf (mf + 1) 0 = days_from_year (yf + (mf + 1) div 12) +
      month_start (leap (yf + (mf + 1) div 12)) ((mf + 1) mod 12) - 1"
    using yf y by (simp add: utc_day_def full_year_def Let_def)
  moreover have "0 \<le> month_start (leap (yf + (mf + 1) div 12)) ((mf + 1) mod 12)"
    by (rule start(1)) (simp_all add: order_less_imp_le)
  ultimately have "days_from_year yf - 1 \<le> utc_day yf (mf + 1) 0" using carry by linarith
  moreover have "days_from_year 100 + 1 \<le> days_from_year yf" using days_from_year_mono [of 100 yf] yf y by simp
  ultimately have "valid_date (civil_date (utc_day yf (mf + 1) 0))" by (intro conjunct1 [OF civil_date_valid]) simp
  then have last: "1 \<le> ?last" by (simp add: valid_date_def)
  have dd: "1 \<le> dd" "dd \<le> 31"
    using v(1) month_length_range [OF m, of "leap y"] by (simp_all add: valid_date_def)
  have res: "months_before t 13 = make_day yf mf (min dd ?last) * ms_per_day + t mod ms_per_day"
    by (simp add: months_before_def d f Let_def)
  have day: "make_day yf mf k = days_from_year yf + month_start (leap yf) mf + k - 1" for k
    using yf by (simp add: make_day_def)
  have mf11: "month_start (leap yf) mf \<le> 335"
    using month_cases [OF yf(3,4)] by (auto simp: month_start_def)
  have upper: "make_day yf mf (min dd ?last) \<le> ?n"
  proof -
    have "make_day yf mf (min dd ?last) \<le> days_from_year yf + 365" using dd mf11 unfolding day by linarith
    also have "\<dots> \<le> days_from_year y" using days_from_year_mono [of yf y] yf by simp
    finally show ?thesis using \<open>days_from_year y \<le> ?n\<close> by simp
  qed
  have lower: "?n - 1100 \<le> make_day yf mf (min dd ?last)"
  proof -
    have "days_from_year (y + 1) \<le> days_from_year (y - 2) + 1098"
      using days_from_year_Suc [of "y - 2"] days_from_year_Suc [of "y - 1"] days_from_year_Suc [of y] by (simp split: if_splits)
    moreover have "days_from_year (y - 2) \<le> days_from_year yf" using days_from_year_mono [of "y - 2" yf] yf by simp
    moreover have "0 \<le> month_start (leap yf) mf" using start(1) yf by simp
    ultimately show ?thesis using \<open>?n < _\<close> dd last unfolding day by linarith
  qed
  define z where "z = make_day yf mf (min dd ?last)"
  have "t div 86400000 * 86400000 + t mod 86400000 = t" by (rule div_mult_mod_eq)
  moreover have "z \<le> t div 86400000" "t div 86400000 - 1100 \<le> z"
    using upper lower unfolding z_def ms_per_day_def by simp_all
  ultimately show ?thesis unfolding res z_def [symmetric] ms_per_day_def by linarith
qed


definition sample_stream :: connector_stream where
  "sample_stream = \<lparr>strm_id = ''invoices'', strm_domains = [''finance''], strm_strategy = Time_windowed,
     strm_availability = Required_stream, strm_dependencies = [], strm_product_domains = [''finance''], strm_priority = None\<rparr>"

definition sample_backfill :: backfill_fields where
  "sample_backfill = \<lparr>bf_stream = None, bf_range = \<lparr>range_from = ''2024-04-30T00:00:00.000Z'', range_to = ''2024-05-31T00:00:00.000Z''\<rparr>,
     bf_cursor = None, bf_phase = Recent, bf_replay = 1, bf_mode = Progressive\<rparr>"

text \<open>The boundary is the last day of April 2023.\<close>

definition sample_dates :: "string \<Rightarrow> int option" where
  "sample_dates = map_of
     [(''2024-04-30T00:00:00.000Z'', 1714435200000), (''2024-05-31T00:00:00.000Z'', 1717113600000),
      (''2023-04-30T00:00:00.000Z'', 1682812800000), (''1970-01-01T00:00:00.000Z'', 0)]"


text \<open>C16: a backfill is declared complete only on evidence. The coverage
  recorded with a completed phase names a completion boundary; a progressive backfill completes in
  its oldest phase only, on the coverage of its last page; a resumed one inherits trusted coverage
  and otherwise needs that of its page; and a plan that inherits coverage is a resumed one that
  starts at the watermark of the preceding generation, whose coverage was itself complete.\<close>

theorem backfill_completion_sound:
  assumes "phase_completes_backfill job page_coverage inherited = (finished, cov)"
    and "build_backfill_plan date_parse base job stream previous = Inr plans" "p \<in> set plans"
  shows "(finished \<longleftrightarrow> cov \<noteq> None) \<and> (finished \<longrightarrow> is_completion_coverage cov) \<and>
    (finished \<and> bf_mode job = Progressive \<longrightarrow> bf_phase job = Full_history \<and> cov = page_coverage) \<and>
    (finished \<and> cov \<noteq> page_coverage \<longrightarrow> bf_mode job = Resume_verified \<and> cov = inherited) \<and>
    (plan_inherited p \<noteq> None \<longrightarrow> plan_mode p = Resume_verified \<and>
       (\<exists>q. previous = Some q \<and> sc_complete q \<and> sc_generation q = job_generation base - 1 \<and>
          plan_inherited p = sc_coverage q \<and> is_completion_coverage (sc_coverage q) \<and>
          sc_watermark q = Some (range_from (plan_range p))))"
proof -
  have "plan_inherited p = None \<or> trusted_previous_coverage date_parse base job previous \<and> plan_mode p = Resume_verified \<and>
      plan_inherited p = sc_coverage (the previous) \<and> range_from (plan_range p) = the (sc_watermark (the previous))"
    using assms(2,3) by (auto simp: build_backfill_plan_def progressive_plans_def and_then_Inr_iff split: if_splits)
  then have "plan_inherited p \<noteq> None \<longrightarrow> plan_mode p = Resume_verified \<and>
       (\<exists>q. previous = Some q \<and> sc_complete q \<and> sc_generation q = job_generation base - 1 \<and>
          plan_inherited p = sc_coverage q \<and> is_completion_coverage (sc_coverage q) \<and>
          sc_watermark q = Some (range_from (plan_range p)))"
    by (auto simp: trusted_previous_coverage_def text_present_def split: option.splits)
  moreover have "is_completion_coverage c \<Longrightarrow> c \<noteq> None" for c by (cases c) (simp_all add: is_completion_coverage_def)
  then have "(finished \<longleftrightarrow> cov \<noteq> None) \<and> (finished \<longrightarrow> is_completion_coverage cov) \<and>
    (finished \<and> bf_mode job = Progressive \<longrightarrow> bf_phase job = Full_history \<and> cov = page_coverage) \<and>
    (finished \<and> cov \<noteq> page_coverage \<longrightarrow> bf_mode job = Resume_verified \<and> cov = inherited)"
    using assms(1) by (auto simp: phase_completes_backfill_def split: if_splits)
  ultimately show ?thesis by blast
qed

definition sample_coverage :: "coverage option" where
  "sample_coverage = Some \<lparr>cov_kind = Verified_oldest, cov_lower = ''2019-01-01T00:00:00.000Z'',
     cov_verification = Vendor_reported, cov_detail = None\<rparr>"

definition sample_previous :: stream_cursor where
  "sample_previous = \<lparr>sc_cursor = Some \<lparr>cursor_value = ''7'', cursor_updated_at = None\<rparr>, sc_watermark = Some ''2024-04-30T00:00:00.000Z'',
     sc_complete = True, sc_generation = 1, sc_coverage = sample_coverage\<rparr>"

lemma backfill_completion_sound_witness:
  "\<exists>p. build_backfill_plan sample_dates (job_base (sample_job ''1'' Recent)) sample_backfill sample_stream (Some sample_previous) = Inr [p] \<and>
     plan_mode p = Resume_verified \<and> range_from (plan_range p) = ''2024-04-30T00:00:00.000Z''"
proof -
  let ?r = "build_backfill_plan sample_dates (job_base (sample_job ''1'' Recent)) sample_backfill sample_stream (Some sample_previous)"
  have t: "trusted_previous_coverage sample_dates (job_base (sample_job ''1'' Recent)) sample_backfill (Some sample_previous)"
    by code_simp
  have "\<exists>p. ?r = Inr [p] \<and> plan_inherited p \<noteq> None"
    using t by (simp add: build_backfill_plan_def sample_stream_def sample_previous_def sample_coverage_def)
  then obtain p where p: "?r = Inr [p]" "plan_inherited p \<noteq> None" by blast
  have c': "phase_completes_backfill sample_backfill None None = (False, None)" by code_simp
  from backfill_completion_sound [OF c' p(1), of p] p
  have "plan_mode p = Resume_verified" "sc_watermark sample_previous = Some (range_from (plan_range p))" by auto
  with p show ?thesis by (simp add: sample_previous_def)
qed

end
