(* ===== verification/Source_Evidence.thy ===== *)
theory Source_Evidence
  imports Sync_Lifecycle
begin

text \<open>
  What the sync worker derives from the records of a page: the tombstones of verified webhooks
  (\<open>services/sync-workers/src/webhook-tombstones.ts\<close>), those of a reconciliation sweep and the
  source watermark (\<open>worker.ts\<close>), and the connector quality results (\<open>connector-quality.ts\<close>).
  \<open>Date.parse\<close> and the payload digest are parameters.
\<close>

section \<open>Source records\<close>

datatype issue_code = Schema_invalid | Schema_drift | Normalization_invalid

text \<open>A projection with its money and timestamp maps kept as the objects they are.\<close>

record source_projection =
  proj_schema :: string
  proj_fields :: json
  proj_money :: "json option"
  proj_timestamps :: "json option"
  proj_tombstone :: "bool option"

datatype deletion_signal =
    Webhook_deletion "string option"
  | Sweep_deletion (sweep_of_signal: string) (evidence_batches: "string list") (expected_hash: string)
      (expected_updated_at: "string option") (expected_ingested_at: string)

record source_record =
  sr_type :: string
  sr_id :: string
  sr_updated_at :: "string option"
  sr_payload :: json
  sr_normalized :: "source_projection option"
  sr_deletion :: "deletion_signal option"
  sr_issues :: "issue_code list"
  sr_hash :: string

definition is_tombstone :: "source_record \<Rightarrow> bool" where
  "is_tombstone r = (case sr_normalized r of None \<Rightarrow> False | Some p \<Rightarrow> proj_tombstone p = Some True)"

section \<open>Tombstones of verified webhooks\<close>

record stream_contract =
  con_id :: string
  con_resource :: string
  con_record_id_field :: string
  con_strategy :: backfill_strategy
  con_availability :: "availability option"
  con_dependencies :: "string list"
  con_product_domains :: "string list"

record tombstone_policy =
  pol_reason :: sync_reason
  pol_require_receipt :: bool
  pol_signal_type :: string

record manifest =
  mf_id :: string
  mf_version :: string
  mf_streams :: "stream_contract list"
  mf_policy :: "tombstone_policy option"
  mf_capabilities :: "(string \<times> string list) list"

datatype tombstone_error = Tombstone_job_invalid | Tombstone_stream_unknown string | Tombstone_contract_mismatch | Tombstone_time_invalid

definition policy_allows :: "job_base \<Rightarrow> incremental_fields \<Rightarrow> manifest \<Rightarrow> bool" where
  "policy_allows base job m =
     (case mf_policy m of
        None \<Rightarrow> False
      | Some p \<Rightarrow> job_connector base = mf_id m \<and> inc_reason job = pol_reason p \<and>
          (pol_require_receipt p \<longrightarrow> text_present (inc_receipt job)))"

definition signal_payload :: "tombstone_policy \<Rightarrow> incremental_fields \<Rightarrow> webhook_tombstone \<Rightarrow> json" where
  "signal_payload p job s = JObj
     [(''schemaVersion'', JNum 1), (''signalType'', JStr (pol_signal_type p)),
      (''webhookReceiptId'', (case inc_receipt job of None \<Rightarrow> JNull | Some r \<Rightarrow> JStr r)),
      (''stream'', JStr (tomb_stream s)), (''sourceObjectType'', JStr (tomb_object_type s)),
      (''sourceRecordId'', JStr (tomb_record_id s)), (''observedAt'', JStr (tomb_observed_at s))]"

definition tombstone_of_signal ::
    "(string \<Rightarrow> string) \<Rightarrow> manifest \<Rightarrow> tombstone_policy \<Rightarrow> stream_contract \<Rightarrow> incremental_fields \<Rightarrow> webhook_tombstone \<Rightarrow> int \<Rightarrow> source_record" where
  "tombstone_of_signal sha256_hex m p c job s t =
     \<lparr>sr_type = tomb_object_type s, sr_id = tomb_record_id s, sr_updated_at = Some (iso_string t),
      sr_payload = signal_payload p job s,
      sr_normalized = Some \<lparr>proj_schema = mf_version m, proj_fields = JObj [(con_record_id_field c, JStr (tomb_record_id s))],
        proj_money = None, proj_timestamps = None, proj_tombstone = Some True\<rparr>,
      sr_deletion = Some (Webhook_deletion (if text_present (inc_receipt job) then inc_receipt job else None)),
      sr_issues = [], sr_hash = sha256_hex (stringify (signal_payload p job s))\<rparr>"

definition signal_recorded :: "source_record list \<Rightarrow> webhook_tombstone \<Rightarrow> bool" where
  "signal_recorded records s =
     list_ex (\<lambda>r. sr_type r = tomb_object_type s \<and> sr_id r = tomb_record_id s \<and> is_tombstone r) records"

text \<open>The loop over the signals, in order; the accumulator is \<open>tombstones\<close>.\<close>

definition tombstone_step ::
    "(string \<Rightarrow> int option) \<Rightarrow> (string \<Rightarrow> string) \<Rightarrow> manifest \<Rightarrow> tombstone_policy \<Rightarrow> stream_contract \<Rightarrow> incremental_fields \<Rightarrow>
     source_record list \<Rightarrow> source_record list \<Rightarrow> webhook_tombstone \<Rightarrow> (tombstone_error, source_record list) result" where
  "tombstone_step date_parse sha256_hex m p c job records acc s =
     (if tomb_stream s \<noteq> con_id c \<or> tomb_object_type s \<noteq> con_resource c then Inl Tombstone_contract_mismatch
      else if signal_recorded records s then Inr acc
      else case date_parse (tomb_observed_at s) of
             None \<Rightarrow> Inl Tombstone_time_invalid
           | Some t \<Rightarrow> Inr (acc @ [tombstone_of_signal sha256_hex m p c job s t]))"

definition append_verified_webhook_tombstones ::
    "(string \<Rightarrow> int option) \<Rightarrow> (string \<Rightarrow> string) \<Rightarrow> job_base \<Rightarrow> incremental_fields \<Rightarrow> manifest \<Rightarrow> source_record list \<Rightarrow>
     (tombstone_error, source_record list) result" where
  "append_verified_webhook_tombstones date_parse sha256_hex base job m records =
     (case inc_tombstones job of
        None \<Rightarrow> Inr records
      | Some signals \<Rightarrow>
          if signals = [] then Inr records
          else if \<not> policy_allows base job m then Inl Tombstone_job_invalid
          else case find (\<lambda>c. con_id c = inc_stream job) (mf_streams m) of
            None \<Rightarrow> Inl (Tombstone_stream_unknown (inc_stream job))
          | Some c \<Rightarrow>
              and_then (fold_r (tombstone_step date_parse sha256_hex m (the (mf_policy m)) c job records) [] signals) (\<lambda>ts.
                Inr (records @ ts)))"

section \<open>Tombstones of a reconciliation sweep, and the watermark\<close>

record tombstone_candidate =
  tc_key :: string
  tc_type :: string
  tc_id :: string
  tc_normalized :: source_projection
  tc_hash :: string
  tc_updated_at :: "string option"
  tc_ingested_at :: string
  tc_first_batch :: string
  tc_verification_batch :: string

definition reconciliation_payload :: "job_base \<Rightarrow> reconciliation_fields \<Rightarrow> tombstone_candidate \<Rightarrow> json" where
  "reconciliation_payload base job c = JObj
     ([(''kind'', JStr ''albert_reconciliation_tombstone''), (''reconciliationSweepId'', JStr (rec_sweep_id job)),
       (''connectionGeneration'', JNum (job_generation base))] @
      (case rec_stream job of None \<Rightarrow> [] | Some s \<Rightarrow> [(''stream'', JStr s)]) @
      [(''sourceObjectType'', JStr (tc_type c)), (''sourceRecordId'', JStr (tc_id c)),
       (''observedAt'', JStr (job_requested_at base)),
       (''evidenceBatchIds'', JArr [JStr (tc_first_batch c), JStr (tc_verification_batch c)])])"

text \<open>\<open>hashPayload\<close> digests the stable rendering.\<close>

definition hash_payload :: "(string \<Rightarrow> string) \<Rightarrow> json \<Rightarrow> string" where
  "hash_payload sha256_hex v = sha256_hex (stringify (stable_value v))"

definition reconciliation_tombstone_record ::
    "(string \<Rightarrow> string) \<Rightarrow> job_base \<Rightarrow> reconciliation_fields \<Rightarrow> tombstone_candidate \<Rightarrow> source_record" where
  "reconciliation_tombstone_record sha256_hex base job c =
     \<lparr>sr_type = tc_type c, sr_id = tc_id c, sr_updated_at = Some (job_requested_at base),
      sr_payload = reconciliation_payload base job c,
      sr_normalized = Some ((tc_normalized c)\<lparr>proj_tombstone := Some True\<rparr>),
      sr_deletion = Some (Sweep_deletion (rec_sweep_id job) [tc_first_batch c, tc_verification_batch c] (tc_hash c)
        (tc_updated_at c) (tc_ingested_at c)),
      sr_issues = [], sr_hash = hash_payload sha256_hex (reconciliation_payload base job c)\<rparr>"

text \<open>\<open>None\<close> is \<open>Number.NEGATIVE_INFINITY\<close>.\<close>

definition watermark_step :: "(string \<Rightarrow> int option) \<Rightarrow> int option \<Rightarrow> source_record \<Rightarrow> int option" where
  "watermark_step date_parse latest r =
     (if \<not> text_present (sr_updated_at r) then latest
      else case date_parse (the (sr_updated_at r)) of
             None \<Rightarrow> latest
           | Some t \<Rightarrow> (case latest of None \<Rightarrow> Some t | Some l \<Rightarrow> if t > l then Some t else latest))"

definition latest_source_watermark :: "(string \<Rightarrow> int option) \<Rightarrow> source_record list \<Rightarrow> string \<Rightarrow> string" where
  "latest_source_watermark date_parse records fallback =
     (case foldl (watermark_step date_parse) None records of None \<Rightarrow> fallback | Some t \<Rightarrow> iso_string t)"

section \<open>Connector quality results\<close>

datatype check_id =
    Cursor_completeness | Scope_available | Retention_limit_recorded | Webhook_gap_recovered | Delete_handling
  | Schema_drift_check | Enum_drift
datatype check_status = Passed | Warning | Failed | Blocked
datatype capability_support = Full_support | Partial_support | Unavailable_support | Unknown_support

record capability =
  cap_id :: string
  cap_support :: capability_support
  cap_reason :: string
  cap_scopes :: "string list option"

record quality_result =
  qr_check :: check_id
  qr_status :: check_status
  qr_observed :: "int option"
  qr_threshold :: "int option"
  qr_details :: "(string \<times> json) list"

definition make_quality_result :: "check_id \<Rightarrow> check_status \<Rightarrow> (string \<times> json) list \<Rightarrow> (int \<times> int) option \<Rightarrow> quality_result" where
  "make_quality_result c s d n = \<lparr>qr_check = c, qr_status = s, qr_observed = map_option fst n, qr_threshold = map_option snd n, qr_details = d\<rparr>"

definition support_text :: "capability_support \<Rightarrow> string" where
  "support_text s = (case s of Full_support \<Rightarrow> ''full'' | Partial_support \<Rightarrow> ''partial''
     | Unavailable_support \<Rightarrow> ''unavailable'' | Unknown_support \<Rightarrow> ''unknown'')"

definition issue_count :: "issue_code \<Rightarrow> source_record list \<Rightarrow> int" where
  "issue_count c records = int (length (filter (\<lambda>i. i = c) (concat (map sr_issues records))))"

definition observed_timestamps :: "(string \<Rightarrow> int option) \<Rightarrow> source_record list \<Rightarrow> string list" where
  "observed_timestamps date_parse records =
     sort_key (\<lambda>s. the (date_parse s))
       (map (\<lambda>r. the (sr_updated_at r))
         (filter (\<lambda>r. text_present (sr_updated_at r) \<and> date_parse (the (sr_updated_at r)) \<noteq> None) records))"

definition missing_scope :: "capability \<Rightarrow> bool" where
  "missing_scope c \<longleftrightarrow> cap_support c = Unavailable_support \<and> cap_reason c = ''required_scope_missing''"

definition scope_details :: "capability list \<Rightarrow> (string \<times> json) list" where
  "scope_details caps =
     [(''observedCapabilities'', JArr (map (\<lambda>c. JObj [(''id'', JStr (cap_id c)),
         (''support'', JStr (support_text (cap_support c))), (''reasonCode'', JStr (cap_reason c))]) caps)),
      (''missingScopes'', JArr (map JStr (concat (map (\<lambda>c. case cap_scopes c of None \<Rightarrow> [] | Some ss \<Rightarrow> ss) (filter missing_scope caps))))),
      (''reason'', JStr (if list_ex missing_scope caps then ''required_scope_missing''
         else if list_ex (\<lambda>c. cap_support c = Unknown_support) caps then ''live_probe_incomplete''
         else if list_ex (\<lambda>c. cap_support c = Full_support \<or> cap_support c = Partial_support) caps then ''live_capability_probe_supported''
         else ''no_stream_capabilities_observed''))]"

definition scope_status :: "capability list \<Rightarrow> check_status" where
  "scope_status caps =
     (if list_ex missing_scope caps then Blocked
      else if list_ex (\<lambda>c. cap_support c = Unknown_support) caps then Warning
      else if list_ex (\<lambda>c. cap_support c = Full_support \<or> cap_support c = Partial_support) caps then Passed else Warning)"

definition retention_details :: "job_kind \<Rightarrow> string list \<Rightarrow> (string \<times> json) list" where
  "retention_details k timestamps =
     [(''reason'', JStr ''vendor_retention_not_independently_reported''), (''jobType'', JStr (type_text k))] @
     (case k of Initial_backfill b \<Rightarrow>
        [(''phase'', JStr (phase_text (bf_phase b))), (''requestedFrom'', JStr (range_from (bf_range b))), (''requestedTo'', JStr (range_to (bf_range b)))]
      | _ \<Rightarrow> []) @
     (if timestamps = [] then [] else [(''firstObservedAt'', JStr (hd timestamps)), (''lastObservedAt'', JStr (last timestamps))])"

definition build_connector_quality_results ::
    "(string \<Rightarrow> int option) \<Rightarrow> job_kind \<Rightarrow> source_record list \<Rightarrow> nat \<Rightarrow> nat \<Rightarrow> bool \<Rightarrow> cursor option \<Rightarrow> capability list \<Rightarrow> quality_result list" where
  "build_connector_quality_results date_parse k records staged quarantine has_more next_cursor caps =
     (let tombstones = int (length (filter is_tombstone records));
          cursor_valid = (\<not> has_more \<or> next_cursor \<noteq> None);
          drift = issue_count Schema_drift records;
          invalid = issue_count Schema_invalid records;
          n = JNum (int (length records))
      in [make_quality_result Cursor_completeness (if cursor_valid then Passed else Blocked)
            [(''hasMore'', JBool has_more), (''continuationCursorPresent'', JBool (next_cursor \<noteq> None)), (''evidence'', JStr ''connector_page_contract'')]
            (Some (if cursor_valid then 0 else 1, 0)),
          make_quality_result Scope_available (scope_status caps) (scope_details caps) (Some (int (length (filter missing_scope caps)), 0)),
          make_quality_result Retention_limit_recorded Warning (retention_details k (observed_timestamps date_parse records)) None,
          make_quality_result Webhook_gap_recovered Warning
            [(''reason'', JStr (case k of Reconciliation_sweep _ \<Rightarrow> ''polling_reconciliation_sweep_observed_but_webhook_sequence_not_available''
                | _ \<Rightarrow> ''webhook_gap_state_not_observed_in_this_sync_run'')), (''jobType'', JStr (type_text k))] None,
          make_quality_result Delete_handling (if tombstones > 0 then Passed else Warning)
            [(''tombstonesObserved'', JNum tombstones),
             (''reason'', JStr (if tombstones > 0 then ''source_tombstones_landed'' else ''no_deletion_observation_in_this_run'')),
             (''jobType'', JStr (type_text k))] (Some (tombstones, 1)),
          make_quality_result Schema_drift_check (if drift > 0 then Blocked else if records \<noteq> [] then Passed else Warning)
            [(''recordsObserved'', n), (''stagedRecords'', JNum (int staged)), (''quarantinedRecords'', JNum (int quarantine)),
             (''schemaDriftFindings'', JNum drift),
             (''reason'', JStr (if drift > 0 then ''undeclared_source_fields_observed''
                else if records \<noteq> [] then ''all_observed_fields_dispositioned'' else ''empty_page_has_no_schema_evidence''))] (Some (drift, 0)),
          make_quality_result Enum_drift (if invalid > 0 then Blocked else Warning)
            [(''schemaInvalidFindings'', JNum invalid),
             (''reason'', JStr (if invalid > 0 then ''typed_source_contract_rejected_records'' else ''no_dedicated_vendor_enum_observation_available''))]
            (Some (invalid, 0))])"

section \<open>No deletion is lost\<close>

lemma tombstone_of_signal_recorded:
  "signal_recorded [tombstone_of_signal sha256_hex m p c job s t] s"
  by (simp add: signal_recorded_def tombstone_of_signal_def is_tombstone_def)

lemma tombstone_fold:
  "fold_r (tombstone_step date_parse sha256_hex m p c job records) acc signals = Inr ts \<Longrightarrow>
     (\<forall>s\<in>set signals. tomb_stream s = con_id c \<and> tomb_object_type s = con_resource c) \<and>
     (let fresh = filter (\<lambda>s. \<not> signal_recorded records s) signals
      in (\<forall>s\<in>set fresh. date_parse (tomb_observed_at s) \<noteq> None) \<and>
         ts = acc @ map (\<lambda>s. tombstone_of_signal sha256_hex m p c job s (the (date_parse (tomb_observed_at s)))) fresh)"
proof (induction signals arbitrary: acc)
  case (Cons s ss)
  then obtain acc' where acc': "tombstone_step date_parse sha256_hex m p c job records acc s = Inr acc'"
      "fold_r (tombstone_step date_parse sha256_hex m p c job records) acc' ss = Inr ts"
    by (auto simp: and_then_Inr_iff)
  from acc'(1) have "tomb_stream s = con_id c" "tomb_object_type s = con_resource c"
    and "acc' = (if signal_recorded records s then acc
        else acc @ [tombstone_of_signal sha256_hex m p c job s (the (date_parse (tomb_observed_at s)))])"
    and "\<not> signal_recorded records s \<longrightarrow> date_parse (tomb_observed_at s) \<noteq> None"
    by (auto simp: tombstone_step_def split: if_splits option.splits)
  with Cons.IH [OF acc'(2)] show ?case by (auto simp: Let_def)
qed simp

text \<open>C19: a page that leaves \<open>appendVerifiedWebhookTombstones\<close> keeps the
  records it had, in order, and ends with one tombstone for each signal of the job that the page
  did not already record as deleted; so every signalled record of the stream is a tombstone of the
  page, none is invented, and signals are only ever applied under the policy of the job's own
  connector and stream.\<close>

theorem webhook_tombstones_complete:
  assumes "append_verified_webhook_tombstones date_parse sha256_hex base job m records = Inr out"
    and "inc_tombstones job = Some signals" "signals \<noteq> []"
  shows "policy_allows base job m \<and>
    (\<exists>c\<in>set (mf_streams m). con_id c = inc_stream job \<and>
       (\<forall>s\<in>set signals. tomb_stream s = con_id c \<and> tomb_object_type s = con_resource c)) \<and>
    (\<exists>ts. out = records @ ts \<and>
       map (\<lambda>r. (sr_type r, sr_id r)) ts =
         map (\<lambda>s. (tomb_object_type s, tomb_record_id s)) (filter (\<lambda>s. \<not> signal_recorded records s) signals) \<and>
       (\<forall>r\<in>set ts. is_tombstone r)) \<and>
    (\<forall>s\<in>set signals. signal_recorded out s)"
proof -
  have allows: "policy_allows base job m"
    using assms by (auto simp: append_verified_webhook_tombstones_def split: if_splits)
  obtain c where c: "find (\<lambda>c. con_id c = inc_stream job) (mf_streams m) = Some c"
    using assms allows by (auto simp: append_verified_webhook_tombstones_def split: option.splits)
  obtain ts where ts: "fold_r (tombstone_step date_parse sha256_hex m (the (mf_policy m)) c job records) [] signals = Inr ts" "out = records @ ts"
    using assms allows c by (auto simp: append_verified_webhook_tombstones_def and_then_Inr_iff)
  have cm: "c \<in> set (mf_streams m)" "con_id c = inc_stream job" using c by (auto simp: find_Some_iff)
  let ?f = "\<lambda>s. tombstone_of_signal sha256_hex m (the (mf_policy m)) c job s (the (date_parse (tomb_observed_at s)))"
  note fold = tombstone_fold [OF ts(1), unfolded Let_def]
  have eq: "ts = map ?f (filter (\<lambda>s. \<not> signal_recorded records s) signals)" using fold by simp
  have "signal_recorded out s" if s: "s \<in> set signals" for s
  proof (cases "signal_recorded records s")
    case False
    with s have "?f s \<in> set ts" unfolding eq by auto
    moreover have "signal_recorded [?f s] s" by (rule tombstone_of_signal_recorded)
    ultimately show ?thesis unfolding ts(2) by (auto simp: signal_recorded_def list_ex_iff)
  qed (simp add: ts(2) signal_recorded_def)
  moreover have "map (\<lambda>r. (sr_type r, sr_id r)) ts =
      map (\<lambda>s. (tomb_object_type s, tomb_record_id s)) (filter (\<lambda>s. \<not> signal_recorded records s) signals)"
    unfolding eq by (simp add: tombstone_of_signal_def comp_def)
  moreover have "\<forall>r\<in>set ts. is_tombstone r" unfolding eq by (auto simp: is_tombstone_def tombstone_of_signal_def)
  ultimately show ?thesis using allows cm fold ts(2) by blast
qed

definition sample_manifest :: manifest where
  "sample_manifest = \<lparr>mf_id = ''deputy'', mf_version = ''1.0.0'',
     mf_streams = [\<lparr>con_id = ''rosters'', con_resource = ''Roster'', con_record_id_field = ''Id'', con_strategy = Time_windowed,
       con_availability = None, con_dependencies = [], con_product_domains = [''workforce'']\<rparr>],
     mf_policy = Some \<lparr>pol_reason = Webhook, pol_require_receipt = True, pol_signal_type = ''deputy_delete''\<rparr>, mf_capabilities = []\<rparr>"

definition sample_tombstone_base :: job_base where
  "sample_tombstone_base = \<lparr>job_tenant = ''t'', job_connection = ''c'', job_connector = ''deputy'', job_account = ''a'',
     job_generation = 1, job_run_id = ''r'', job_batch_id = ''b'', job_requested_at = ''n''\<rparr>"

definition sample_tombstone_job :: incremental_fields where
  "sample_tombstone_job = \<lparr>inc_stream = ''rosters'', inc_cursor = None, inc_reason = Webhook, inc_receipt = Some ''w'',
     inc_tombstones = Some [\<lparr>tomb_stream = ''rosters'', tomb_object_type = ''Roster'', tomb_record_id = ''17'',
       tomb_observed_at = ''2024-05-01T00:00:00.000Z''\<rparr>]\<rparr>"

lemma webhook_tombstones_complete_witness:
  "\<exists>out. append_verified_webhook_tombstones (\<lambda>_. Some 0) (\<lambda>s. s) sample_tombstone_base sample_tombstone_job sample_manifest [] = Inr out \<and>
     (\<forall>s\<in>set (the (inc_tombstones sample_tombstone_job)). signal_recorded out s)"
proof -
  have "case append_verified_webhook_tombstones (\<lambda>_. Some 0) (\<lambda>s. s) sample_tombstone_base sample_tombstone_job sample_manifest [] of
      Inl e \<Rightarrow> False | Inr out \<Rightarrow> True"
    by code_simp
  then obtain out where out:
    "append_verified_webhook_tombstones (\<lambda>_. Some 0) (\<lambda>s. s) sample_tombstone_base sample_tombstone_job sample_manifest [] = Inr out"
    by (auto dest: result_caseD)
  obtain signals where s: "inc_tombstones sample_tombstone_job = Some signals" "signals \<noteq> []"
    by (simp add: sample_tombstone_job_def)
  from webhook_tombstones_complete [OF out s] out s show ?thesis by simp
qed

end
