(* ===== verification/Sync_Failures.thy ===== *)
theory Sync_Failures
  imports Sync_Jobs Connector_Errors
begin

text \<open>
  \<open>services/sync-workers/src/worker.ts\<close>: the classification of whatever a sync operation may
  throw into a bounded failure record, and what it says about the health of the connection.
\<close>

section \<open>Thrown values\<close>

datatype auth_health = Healthy | Errored | Expired | Revoked

text \<open>A \<open>ConnectorError\<close> (with the \<open>authHealth\<close> of its details, a \<open>ConnectorHttpError\<close> when its status
  is set); any other object with its string \<open>code\<close> and \<open>name\<close> and, for an \<open>Error\<close>, its message; or a
  value that is not an object.\<close>

datatype thrown =
    Thrown_connector connector_error "auth_health option"
  | Thrown_object (thrown_code: "string option") (thrown_name: "string option") (thrown_message: "string option")
  | Thrown_value

definition plain_error :: "string \<Rightarrow> thrown" where
  "plain_error m = Thrown_object None (Some ''Error'') (Some m)"

section \<open>Classification\<close>

record sync_failure =
  fail_code :: string
  fail_retryable :: bool
  fail_delay :: int

definition MAX_QUEUE_RETRY_DELAY_SECONDS :: int where
  "MAX_QUEUE_RETRY_DELAY_SECONDS = 7 * 24 * 60 * 60"

definition DATABASE_FAILURE_CODES :: "(string \<times> (string \<times> bool)) list" where
  "DATABASE_FAILURE_CODES =
     [(''40001'', (''database_serialization_conflict'', True)),
      (''40P01'', (''database_deadlock'', True)),
      (''55P03'', (''database_lock_timeout'', True)),
      (''42501'', (''database_permission_denied'', False)),
      (''57P01'', (''database_unavailable'', True)),
      (''08000'', (''database_unavailable'', True)),
      (''08003'', (''database_unavailable'', True)),
      (''08006'', (''database_unavailable'', True)),
      (''53300'', (''database_unavailable'', True)),
      (''23503'', (''database_integrity_violation'', False)),
      (''23505'', (''database_integrity_violation'', False))]"

definition TRANSIENT_RUNTIME_CODES :: "string list" where
  "TRANSIENT_RUNTIME_CODES =
     [''ECONNABORTED'', ''ECONNREFUSED'', ''ECONNRESET'', ''EHOSTUNREACH'', ''ENETUNREACH'', ''ETIMEDOUT'']"

definition INTERNAL_FAILURE_CODES :: "(string \<times> (bool \<times> int option)) list" where
  "INTERNAL_FAILURE_CODES =
     [(''backfill_completion_evidence_missing'', (False, None)),
      (''backfill_continuation_requires_stream'', (False, None)),
      (''backfill_plan_requires_coordinator'', (False, None)),
      (''backfill_phase_requires_stream'', (False, None)),
      (''backfill_successor_requires_stream'', (False, None)),
      (''connection_account_mismatch'', (False, None)),
      (''connection_generation_stale'', (False, None)),
      (''connection_not_ready'', (False, None)),
      (''connector_page_invalid_pagination_block'', (False, None)),
      (''connector_page_missing_continuation_cursor'', (False, None)),
      (''connector_page_non_advancing_cursor'', (False, None)),
      (''connector_stream_not_found'', (False, None)),
      (''incremental_sync_requires_stream'', (False, None)),
      (''reconnect_modified_watermark_missing'', (False, None)),
      (''reconciliation_snapshot_failed'', (False, None)),
      (''reconciliation_snapshot_incomplete'', (False, None)),
      (''sync_analytical_capability_invalid'', (False, None)),
      (''sync_stream_phase_lease_stale'', (True, Some 15)),
      (''sync_write_permit_invalid'', (False, None)),
      (''sync_write_permit_missing'', (False, None))]"

text \<open>\<open>error.code.toLowerCase()\<close>.\<close>

definition connector_code_text :: "connector_error_code \<Rightarrow> string" where
  "connector_code_text c =
     (case c of AUTHENTICATION_REQUIRED \<Rightarrow> ''authentication_required'' | CAPABILITY_UNAVAILABLE \<Rightarrow> ''capability_unavailable''
      | CONFIGURATION_INVALID \<Rightarrow> ''configuration_invalid'' | CREDENTIAL_CONFLICT \<Rightarrow> ''credential_conflict''
      | CURSOR_INVALID \<Rightarrow> ''cursor_invalid'' | OAUTH_EXCHANGE_FAILED \<Rightarrow> ''oauth_exchange_failed''
      | RATE_LIMITED \<Rightarrow> ''rate_limited'' | REMOTE_RESPONSE_INVALID \<Rightarrow> ''remote_response_invalid''
      | REMOTE_UNAVAILABLE \<Rightarrow> ''remote_unavailable'' | WEBHOOK_SIGNATURE_INVALID \<Rightarrow> ''webhook_signature_invalid'')"

definition failure :: "string \<Rightarrow> bool \<Rightarrow> int \<Rightarrow> sync_failure" where
  "failure c r d = \<lparr>fail_code = c, fail_retryable = r, fail_delay = d\<rparr>"

text \<open>\<open>Math.ceil(ms / 1000)\<close>, clamped.\<close>

definition connector_delay :: "int option \<Rightarrow> int" where
  "connector_delay ms =
     min MAX_QUEUE_RETRY_DELAY_SECONDS (max 1 (- ((- (case ms of None \<Rightarrow> 30000 | Some n \<Rightarrow> n)) div 1000)))"

definition lower :: "char \<Rightarrow> char" where
  "lower c = (if 65 \<le> code c \<and> code c \<le> 90 then char_of (code c + 32) else c)"

text \<open>\<open>message.split(":", 1)[0].trim().toLowerCase()\<close>.\<close>

definition message_code :: "string option \<Rightarrow> string" where
  "message_code m = (case m of None \<Rightarrow> [] | Some s \<Rightarrow> map lower (trim (hd (split_on (CHR '':'') s))))"

definition internal_failure :: "string option \<Rightarrow> sync_failure" where
  "internal_failure m =
     (case map_of INTERNAL_FAILURE_CODES (message_code m) of
        Some (r, d) \<Rightarrow> failure (as_sync_failure_code (message_code m)) r (case d of Some n \<Rightarrow> n | None \<Rightarrow> if r then 30 else 1)
      | None \<Rightarrow> failure ''unexpected_sync_failure'' True 30)"

definition object_failure :: "string option \<Rightarrow> string option \<Rightarrow> string option \<Rightarrow> sync_failure" where
  "object_failure c n m =
     (case (case c of None \<Rightarrow> None | Some k \<Rightarrow> map_of DATABASE_FAILURE_CODES k) of
        Some (f, r) \<Rightarrow> failure f r (if r then 30 else 1)
      | None \<Rightarrow>
          if c \<noteq> None \<and> the c \<in> set TRANSIENT_RUNTIME_CODES then failure ''remote_unavailable'' True 30
          else if n = Some ''AbortError'' \<or> n = Some ''TimeoutError'' then failure ''sync_operation_timeout'' True 30
          else if n = Some ''TypeError'' \<or> n = Some ''SyntaxError'' then failure ''sync_internal_error'' False 1
          else internal_failure m)"

definition sync_failure_of :: "thrown \<Rightarrow> sync_failure" where
  "sync_failure_of e =
     (case e of
        Thrown_connector ce _ \<Rightarrow>
          (let c = as_sync_failure_code (connector_code_text (err_code ce))
           in failure c (if c = ''unexpected_sync_failure'' then True else err_retryable ce) (connector_delay (err_retry_after_ms ce)))
      | Thrown_object c n m \<Rightarrow> object_failure c n m
      | Thrown_value \<Rightarrow> internal_failure None)"

datatype connection_health = Health_healthy | Health_degraded | Health_expired | Health_revoked

definition persisted_auth_health :: "connection_health \<Rightarrow> auth_health" where
  "persisted_auth_health h = (case h of Health_degraded \<Rightarrow> Errored | Health_healthy \<Rightarrow> Healthy
     | Health_expired \<Rightarrow> Expired | Health_revoked \<Rightarrow> Revoked)"

definition auth_health_for_failure :: "thrown \<Rightarrow> bool \<Rightarrow> auth_health option" where
  "auth_health_for_failure e check_in_flight =
     (case e of
        Thrown_connector ce observed \<Rightarrow>
          if err_status ce = Some 401 then Some Expired
          else if err_status ce = Some 403 then Some Errored
          else if check_in_flight \<and> err_status ce = Some 400 then Some Expired
          else if observed = Some Expired \<or> observed = Some Revoked then observed
          else if err_code ce = AUTHENTICATION_REQUIRED \<or> err_code ce = OAUTH_EXCHANGE_FAILED then Some Expired
          else if check_in_flight then Some Errored else None
      | _ \<Rightarrow> if check_in_flight then Some Errored else None)"

section \<open>Bounds\<close>

lemma database_codes:
  "map_of DATABASE_FAILURE_CODES k = Some (f, r) \<Longrightarrow> f \<in> set SYNC_FAILURE_CODES"
proof -
  assume "map_of DATABASE_FAILURE_CODES k = Some (f, r)"
  then have "f \<in> set (map (fst \<circ> snd) DATABASE_FAILURE_CODES)" by (force dest: map_of_SomeD)
  moreover have "list_all (\<lambda>f. f \<in> set SYNC_FAILURE_CODES) (map (fst \<circ> snd) DATABASE_FAILURE_CODES)" by code_simp
  ultimately show ?thesis by (simp only: list_all_iff)
qed

lemma internal_codes_known: "list_all (\<lambda>e. fst e \<in> set SYNC_FAILURE_CODES) INTERNAL_FAILURE_CODES"
  by code_simp

lemma internal_delays: "list_all (\<lambda>e. case snd (snd e) of None \<Rightarrow> True | Some d \<Rightarrow> 1 \<le> d \<and> d \<le> 30) INTERNAL_FAILURE_CODES"
  by code_simp

lemma as_code_known: "as_sync_failure_code v \<in> set SYNC_FAILURE_CODES"
proof -
  have "''unexpected_sync_failure'' \<in> set SYNC_FAILURE_CODES" by code_simp
  then show ?thesis by (simp add: as_sync_failure_code_def)
qed

definition bounded_failure :: "sync_failure \<Rightarrow> bool" where
  "bounded_failure f \<longleftrightarrow> fail_code f \<in> set SYNC_FAILURE_CODES \<and> 1 \<le> fail_delay f \<and> fail_delay f \<le> MAX_QUEUE_RETRY_DELAY_SECONDS"

lemma bounded_failureI:
  "c \<in> set SYNC_FAILURE_CODES \<Longrightarrow> 1 \<le> d \<Longrightarrow> d \<le> 30 \<Longrightarrow> bounded_failure (failure c r d)"
  by (simp add: bounded_failure_def failure_def MAX_QUEUE_RETRY_DELAY_SECONDS_def)

lemma known_codes:
  "''unexpected_sync_failure'' \<in> set SYNC_FAILURE_CODES" "''remote_unavailable'' \<in> set SYNC_FAILURE_CODES"
  "''sync_operation_timeout'' \<in> set SYNC_FAILURE_CODES" "''sync_internal_error'' \<in> set SYNC_FAILURE_CODES"
  by code_simp+

lemma internal_failure_bounded: "bounded_failure (internal_failure m)"
proof (cases "map_of INTERNAL_FAILURE_CODES (message_code m)")
  case None
  then show ?thesis by (simp add: internal_failure_def bounded_failureI known_codes)
next
  case (Some e)
  obtain r d where e: "e = (r, d)" by (cases e)
  from Some e have m: "(message_code m, (r, d)) \<in> set INTERNAL_FAILURE_CODES" by (auto dest: map_of_SomeD)
  then have "case d of None \<Rightarrow> True | Some d \<Rightarrow> 1 \<le> d \<and> d \<le> 30" using internal_delays by (fastforce simp: list_all_iff)
  with Some e show ?thesis by (auto simp: internal_failure_def as_code_known intro!: bounded_failureI split: option.splits)
qed

lemma object_failure_bounded: "bounded_failure (object_failure c n m)"
proof (cases "case c of None \<Rightarrow> None | Some k \<Rightarrow> map_of DATABASE_FAILURE_CODES k")
  case None
  then show ?thesis by (simp add: object_failure_def bounded_failureI known_codes internal_failure_bounded)
next
  case (Some e)
  obtain f r where e: "e = (f, r)" by (cases e)
  with Some have "f \<in> set SYNC_FAILURE_CODES" by (auto simp: database_codes split: option.splits)
  with Some e show ?thesis by (simp add: object_failure_def bounded_failureI)
qed

lemma connector_delay_bounds: "1 \<le> connector_delay ms \<and> connector_delay ms \<le> MAX_QUEUE_RETRY_DELAY_SECONDS"
  by (simp add: connector_delay_def MAX_QUEUE_RETRY_DELAY_SECONDS_def)

text \<open>The delay is no shorter than the vendor asked for, up to the ceiling of a week.\<close>

lemma connector_delay_respects: "connector_delay (Some ms) = MAX_QUEUE_RETRY_DELAY_SECONDS \<or> ms \<le> connector_delay (Some ms) * 1000"
proof -
  have "ms \<le> - (- ms div 1000) * 1000" using div_bounds [of 1000 "- ms"] by linarith
  then show ?thesis by (auto simp: connector_delay_def min_def max_def)
qed

lemma internal_failure_unexpected:
  "fail_code (internal_failure m) = ''unexpected_sync_failure'' \<Longrightarrow> fail_retryable (internal_failure m)"
proof (cases "map_of INTERNAL_FAILURE_CODES (message_code m)")
  case (Some e)
  assume "fail_code (internal_failure m) = ''unexpected_sync_failure''"
  moreover from Some have "(message_code m, e) \<in> set INTERNAL_FAILURE_CODES" by (rule map_of_SomeD)
  then have "message_code m \<in> set SYNC_FAILURE_CODES" using internal_codes_known by (auto simp: list_all_iff)
  then have "fail_code (internal_failure m) = message_code m"
    using Some by (simp add: internal_failure_def failure_def as_sync_failure_code_def split: prod.splits)
  moreover have "map_of INTERNAL_FAILURE_CODES ''unexpected_sync_failure'' = None" by code_simp
  ultimately show ?thesis using Some by simp
qed (simp add: internal_failure_def failure_def)

lemma object_failure_unexpected:
  "fail_code (object_failure c n m) = ''unexpected_sync_failure'' \<Longrightarrow> fail_retryable (object_failure c n m)"
proof (cases "case c of None \<Rightarrow> None | Some k \<Rightarrow> map_of DATABASE_FAILURE_CODES k")
  case None
  assume "fail_code (object_failure c n m) = ''unexpected_sync_failure''"
  with None show ?thesis using internal_failure_unexpected [of m]
    by (simp add: object_failure_def failure_def split: if_splits)
next
  case (Some e)
  then obtain k where "map_of DATABASE_FAILURE_CODES k = Some e" by (auto split: option.splits)
  then have "fst e \<in> set (map (fst \<circ> snd) DATABASE_FAILURE_CODES)" by (force dest: map_of_SomeD)
  moreover have "''unexpected_sync_failure'' \<notin> set (map (fst \<circ> snd) DATABASE_FAILURE_CODES)" by code_simp
  ultimately have "fst e \<noteq> ''unexpected_sync_failure''" by metis
  moreover assume "fail_code (object_failure c n m) = ''unexpected_sync_failure''"
  ultimately show ?thesis using Some by (simp add: object_failure_def failure_def split: prod.splits)
qed



end
