(* ===== verification/Effects.thy ===== *)
theory Effects
  imports Sync_Failures
begin

text \<open>
  Procedures with effects. The services await calls to a queue, two databases, an object store and
  a vendor; a procedure is modelled as a function that reads the history of all calls so far and
  returns its result (or the value it threw), its local variables and the calls it added. The
  reply to a call is a function of the history, given by the environment, so a statement about
  every environment covers every sequence of replies and failures.

  A call is recorded with a flag that says whether it succeeded. Nothing is recorded twice and
  nothing is removed: the history of a sequence is the concatenation of those of its steps.
\<close>

type_synonym 'ev history = "('ev \<times> bool) list"
type_synonym ('l, 'ev, 'a) proc = "'l \<Rightarrow> 'ev history \<Rightarrow> (thrown, 'a) result \<times> 'l \<times> 'ev history"

definition ret :: "'a \<Rightarrow> ('l, 'ev, 'a) proc" where
  "ret x l h = (Inr x, l, [])"

definition raise :: "thrown \<Rightarrow> ('l, 'ev, 'a) proc" where
  "raise e l h = (Inl e, l, [])"

definition bind :: "('l, 'ev, 'a) proc \<Rightarrow> ('a \<Rightarrow> ('l, 'ev, 'b) proc) \<Rightarrow> ('l, 'ev, 'b) proc" where
  "bind m f l h =
     (case m l h of (Inl e, l', d) \<Rightarrow> (Inl e, l', d)
      | (Inr x, l', d) \<Rightarrow> (case f x l' (h @ d) of (r, l'', d') \<Rightarrow> (r, l'', d @ d')))"

definition perform :: "('ev history \<Rightarrow> (thrown, 'a) result) \<Rightarrow> 'ev \<Rightarrow> ('l, 'ev, 'a) proc" where
  "perform f ev l h = (case f h of Inl e \<Rightarrow> (Inl e, l, [(ev, False)]) | Inr x \<Rightarrow> (Inr x, l, [(ev, True)]))"

text \<open>\<open>try\<close> with the outcome as a value; and \<open>.catch(() => undefined)\<close>.\<close>

definition try_p :: "('l, 'ev, 'a) proc \<Rightarrow> ('l, 'ev, (thrown, 'a) result) proc" where
  "try_p m l h = (case m l h of (r, l', d) \<Rightarrow> (Inr r, l', d))"

definition ignoring :: "('l, 'ev, 'a) proc \<Rightarrow> ('l, 'ev, unit) proc" where
  "ignoring m = bind (try_p m) (\<lambda>_. ret ())"

definition get_local :: "('l, 'ev, 'l) proc" where
  "get_local l h = (Inr l, l, [])"

definition modify_local :: "('l \<Rightarrow> 'l) \<Rightarrow> ('l, 'ev, unit) proc" where
  "modify_local f l h = (Inr (), f l, [])"

definition get_history :: "('l, 'ev, 'ev history) proc" where
  "get_history l h = (Inr h, l, [])"

definition lift_result :: "(thrown, 'a) result \<Rightarrow> ('l, 'ev, 'a) proc" where
  "lift_result r = (case r of Inl e \<Rightarrow> raise e | Inr x \<Rightarrow> ret x)"

definition when_p :: "bool \<Rightarrow> ('l, 'ev, unit) proc \<Rightarrow> ('l, 'ev, unit) proc" where
  "when_p b m = (if b then m else ret ())"

fun for_each :: "('a \<Rightarrow> ('l, 'ev, unit) proc) \<Rightarrow> 'a list \<Rightarrow> ('l, 'ev, unit) proc" where
  "for_each f [] = ret ()"
| "for_each f (x # xs) = bind (f x) (\<lambda>_. for_each f xs)"

lemma bind_calls:
  "snd (snd (bind m f l h)) = (case fst (m l h) of Inl e \<Rightarrow> snd (snd (m l h))
     | Inr x \<Rightarrow> snd (snd (m l h)) @ snd (snd (f x (fst (snd (m l h))) (h @ snd (snd (m l h))))))"
  by (simp add: bind_def split: prod.splits sum.splits)

lemma bind_outcome:
  "fst (bind m f l h) = (case fst (m l h) of Inl e \<Rightarrow> Inl e
     | Inr x \<Rightarrow> fst (f x (fst (snd (m l h))) (h @ snd (snd (m l h)))))"
  by (simp add: bind_def split: prod.splits sum.splits)

lemma try_calls [simp]: "snd (snd (try_p m l h)) = snd (snd (m l h))" "fst (try_p m l h) = Inr (fst (m l h))"
  by (simp_all add: try_p_def split: prod.splits)

lemma perform_calls:
  "snd (snd (perform f ev l h)) = [(ev, (case f h of Inl _ \<Rightarrow> False | Inr _ \<Rightarrow> True))]" "fst (perform f ev l h) = f h"
  by (simp_all add: perform_def split: sum.splits)

lemma simple_calls [simp]:
  "snd (snd (ret x l h)) = []" "fst (ret x l h) = Inr x" "snd (snd (raise e l h)) = []" "fst (raise e l h) = Inl e"
  by (simp_all add: ret_def raise_def)

section \<open>What a procedure may call\<close>

text \<open>\<open>confined A m\<close>: every call of \<open>m\<close>, whatever the environment answers, satisfies \<open>A\<close>.\<close>

definition confined :: "('ev \<Rightarrow> bool) \<Rightarrow> ('l, 'ev, 'a) proc \<Rightarrow> bool" where
  "confined A m \<longleftrightarrow> (\<forall>l h. \<forall>c\<in>set (snd (snd (m l h))). A (fst c))"

named_theorems confined_intros

lemma confinedI: "(\<And>l h r l' d c. m l h = (r, l', d) \<Longrightarrow> c \<in> set d \<Longrightarrow> A (fst c)) \<Longrightarrow> confined A m"
  unfolding confined_def by (metis prod.collapse)

lemma confinedD: "confined A m \<Longrightarrow> m l h = (r, l', d) \<Longrightarrow> c \<in> set d \<Longrightarrow> A (fst c)"
  unfolding confined_def by (metis snd_conv)

lemma confined_ret [confined_intros]: "confined A (ret x)"
  by (simp add: confined_def ret_def)

lemma confined_raise [confined_intros]: "confined A (raise e)"
  by (simp add: confined_def raise_def)

lemma confined_bind [confined_intros]: "confined A m \<Longrightarrow> (\<And>x. confined A (f x)) \<Longrightarrow> confined A (bind m f)"
proof -
  assume m: "confined A m" and f: "\<And>x. confined A (f x)"
  have fc: "\<forall>c\<in>set (snd (snd (f x l h))). A (fst c)" for x l h using f [of x] by (simp add: confined_def)
  have mc: "\<forall>c\<in>set (snd (snd (m l h))). A (fst c)" for l h using m by (simp add: confined_def)
  show "confined A (bind m f)"
    unfolding confined_def bind_calls
  proof (intro allI)
    fix l h
    show "\<forall>c\<in>set (case fst (m l h) of Inl e \<Rightarrow> snd (snd (m l h))
        | Inr x \<Rightarrow> snd (snd (m l h)) @ snd (snd (f x (fst (snd (m l h))) (h @ snd (snd (m l h)))))). A (fst c)"
      using mc [of l h] fc by (cases "fst (m l h)") (simp_all add: ball_Un)
  qed
qed

lemma confined_perform [confined_intros]: "A ev \<Longrightarrow> confined A (perform f ev)"
  by (auto simp: confined_def perform_def split: sum.splits)

lemma confined_try [confined_intros]: "confined A m \<Longrightarrow> confined A (try_p m)"
  by (simp add: confined_def)

lemma confined_ignoring [confined_intros]: "confined A m \<Longrightarrow> confined A (ignoring m)"
  by (simp add: ignoring_def confined_bind confined_try confined_ret)

lemma confined_locals [confined_intros]: "confined A get_local" "confined A (modify_local g)" "confined A get_history"
  by (simp_all add: confined_def get_local_def modify_local_def get_history_def)

lemma confined_lift [confined_intros]: "confined A (lift_result r)"
  by (cases r) (simp_all add: lift_result_def confined_ret confined_raise)

lemma confined_when [confined_intros]: "(b \<Longrightarrow> confined A m) \<Longrightarrow> confined A (when_p b m)"
  by (simp add: when_p_def confined_ret)

lemma confined_if [confined_intros]: "(b \<Longrightarrow> confined A m) \<Longrightarrow> (\<not> b \<Longrightarrow> confined A n) \<Longrightarrow> confined A (if b then m else n)"
  by simp

lemma confined_for_each [confined_intros]: "(\<And>x. confined A (f x)) \<Longrightarrow> confined A (for_each f xs)"
  by (induction xs) (simp_all add: confined_ret confined_bind)

lemma confined_option [confined_intros]:
  "(x = None \<Longrightarrow> confined A m) \<Longrightarrow> (\<And>y. x = Some y \<Longrightarrow> confined A (f y)) \<Longrightarrow> confined A (case x of None \<Rightarrow> m | Some y \<Rightarrow> f y)"
  by (cases x) simp_all

lemma confined_sum [confined_intros]:
  "(\<And>y. x = Inl y \<Longrightarrow> confined A (f y)) \<Longrightarrow> (\<And>y. x = Inr y \<Longrightarrow> confined A (g y)) \<Longrightarrow> confined A (case x of Inl y \<Rightarrow> f y | Inr y \<Rightarrow> g y)"
  by (cases x) simp_all

lemma confined_weaken: "confined A m \<Longrightarrow> (\<And>ev. A ev \<Longrightarrow> B ev) \<Longrightarrow> confined B m"
  unfolding confined_def by blast

section \<open>Settling exactly once\<close>

text \<open>\<open>settles S R m\<close>: when \<open>m\<close> returns \<open>x\<close> it made exactly one successful call in \<open>S\<close>, and that call is
  related to \<open>x\<close> by \<open>R\<close>; when it throws it made none.\<close>

definition settled :: "('ev \<Rightarrow> bool) \<Rightarrow> 'ev history \<Rightarrow> 'ev list" where
  "settled S d = map fst (filter (\<lambda>c. S (fst c) \<and> snd c) d)"

lemma settled_simps [simp]:
  "settled S [] = []" "settled S (c # d) = (if S (fst c) \<and> snd c then fst c # settled S d else settled S d)"
  "settled S (d @ d') = settled S d @ settled S d'"
  by (simp_all add: settled_def)

definition settled_as :: "('ev \<Rightarrow> bool) \<Rightarrow> ('a \<Rightarrow> 'ev \<Rightarrow> bool) \<Rightarrow> (thrown, 'a) result \<Rightarrow> 'ev history \<Rightarrow> bool" where
  "settled_as S R r d \<longleftrightarrow> (case r of Inl _ \<Rightarrow> settled S d = [] | Inr x \<Rightarrow> \<exists>ev. settled S d = [ev] \<and> R x ev)"

definition settles :: "('ev \<Rightarrow> bool) \<Rightarrow> ('a \<Rightarrow> 'ev \<Rightarrow> bool) \<Rightarrow> ('l, 'ev, 'a) proc \<Rightarrow> bool" where
  "settles S R m \<longleftrightarrow> (\<forall>l h. settled_as S R (fst (m l h)) (snd (snd (m l h))))"

lemma settled_as_simps [simp]:
  "settled_as S R (Inl e) d \<longleftrightarrow> settled S d = []"
  "settled_as S R (Inr x) d \<longleftrightarrow> (\<exists>ev. settled S d = [ev] \<and> R x ev)"
  by (simp_all add: settled_as_def)

lemma settled_as_append: "settled S d = [] \<Longrightarrow> settled_as S R r (d @ d') = settled_as S R r d'"
  by (cases r) simp_all

named_theorems settles_intros

lemma confined_settled: "confined (\<lambda>ev. \<not> S ev) m \<Longrightarrow> settled S (snd (snd (m l h))) = []"
  by (auto simp: confined_def settled_def filter_empty_conv)

lemma settlesD: "settles S R m \<Longrightarrow> m l h = (r, l', d) \<Longrightarrow> settled_as S R r d"
  unfolding settles_def by (metis fst_conv snd_conv)

lemma settles_bind [settles_intros]:
  assumes "confined (\<lambda>ev. \<not> S ev) m" "\<And>x. settles S R (f x)"
  shows "settles S R (bind m f)"
  unfolding settles_def
proof (intro allI)
  fix l h
  have d: "settled S (snd (snd (m l h))) = []" by (rule confined_settled [OF assms(1)])
  show "settled_as S R (fst (bind m f l h)) (snd (snd (bind m f l h)))"
  proof (cases "fst (m l h)")
    case (Inl e)
    with d show ?thesis by (simp add: bind_calls bind_outcome)
  next
    case (Inr x)
    then show ?thesis using d assms(2) [of x] by (simp add: bind_calls bind_outcome settled_as_append settles_def)
  qed
qed

lemma settles_last [settles_intros]: "S ev \<Longrightarrow> R x ev \<Longrightarrow> settles S R (bind (perform f ev) (\<lambda>_. ret x))"
  unfolding settles_def bind_calls bind_outcome perform_calls by (auto split: sum.splits)

text \<open>After a settling call only calls outside \<open>S\<close> that cannot throw may follow.\<close>

lemma settles_then_ignoring:
  assumes "S ev" "\<And>x. confined (\<lambda>ev. \<not> S ev) (m x)" "\<And>x. R (g x) ev"
  shows "settles S R (bind (perform f ev) (\<lambda>x. bind (ignoring (m x)) (\<lambda>_. ret (g x))))"
  unfolding settles_def
proof (intro allI)
  fix l h
  let ?p = "bind (perform f ev) (\<lambda>x. bind (ignoring (m x)) (\<lambda>_. ret (g x)))"
  show "settled_as S R (fst (?p l h)) (snd (snd (?p l h)))"
  proof (cases "f h")
    case (Inr x)
    have "settled S (snd (snd (m x l (h @ [(ev, True)])))) = []" by (rule confined_settled [OF assms(2)])
    with Inr assms(1,3) show ?thesis
      by (simp add: bind_calls bind_outcome perform_calls ignoring_def) (simp add: perform_def)
  qed (simp add: bind_calls bind_outcome perform_calls)
qed

lemma settles_raise [settles_intros]: "settles S R (raise e)"
  by (simp add: settles_def)

lemma settles_if [settles_intros]: "(b \<Longrightarrow> settles S R m) \<Longrightarrow> (\<not> b \<Longrightarrow> settles S R n) \<Longrightarrow> settles S R (if b then m else n)"
  by simp

lemma settles_option [settles_intros]:
  "(x = None \<Longrightarrow> settles S R m) \<Longrightarrow> (\<And>y. x = Some y \<Longrightarrow> settles S R (f y)) \<Longrightarrow> settles S R (case x of None \<Rightarrow> m | Some y \<Rightarrow> f y)"
  by (cases x) simp_all

text \<open>\<open>try\<close>/\<open>catch\<close> with a handler that settles, and a \<open>finally\<close> that neither settles nor throws.\<close>

lemma settles_catch:
  assumes "settles S R m" "\<And>e. settles S R (g e)"
  shows "settles S R (bind (try_p m) (\<lambda>r. case r of Inr x \<Rightarrow> ret x | Inl e \<Rightarrow> g e))"
  unfolding settles_def
proof (intro allI)
  fix l h
  let ?p = "bind (try_p m) (\<lambda>r. case r of Inr x \<Rightarrow> ret x | Inl e \<Rightarrow> g e)"
  show "settled_as S R (fst (?p l h)) (snd (snd (?p l h)))"
  proof (cases "fst (m l h)")
    case (Inl e)
    then have "settled S (snd (snd (m l h))) = []" using assms(1) [unfolded settles_def, rule_format, of l h] by simp
    with Inl assms(2) [of e] show ?thesis by (simp add: bind_calls bind_outcome settled_as_append settles_def)
  next
    case (Inr x)
    then show ?thesis using assms(1) [unfolded settles_def, rule_format, of l h] by (simp add: bind_calls bind_outcome)
  qed
qed

definition total :: "('l, 'ev, 'a) proc \<Rightarrow> bool" where
  "total m \<longleftrightarrow> (\<forall>l h. \<exists>x. fst (m l h) = Inr x)"

lemma total_ret: "total (ret x)"
  by (simp add: total_def)

lemma total_ignoring: "total (ignoring m)"
  by (simp add: total_def ignoring_def bind_outcome)

lemma settles_finally:
  assumes "settles S R m" "\<And>l. confined (\<lambda>ev. \<not> S ev) (g l)" "\<And>l. total (g l)"
  shows "settles S R (bind (try_p m) (\<lambda>r. bind get_local (\<lambda>l. bind (g l) (\<lambda>_. lift_result r))))"
  unfolding settles_def
proof (intro allI)
  fix l h
  let ?p = "bind (try_p m) (\<lambda>r. bind get_local (\<lambda>l. bind (g l) (\<lambda>_. lift_result r)))"
  obtain r l' d where m: "m l h = (r, l', d)" by (metis prod.collapse)
  obtain x where x: "fst (g l' l' (h @ d)) = Inr x" using assms(3) [of l'] by (auto simp: total_def)
  obtain l'' d' where g: "g l' l' (h @ d) = (Inr x, l'', d')" using x by (metis prod.collapse)
  have "settled S d' = []" using confined_settled [OF assms(2), of l' l' "h @ d"] g by simp
  then show "settled_as S R (fst (?p l h)) (snd (snd (?p l h)))"
    using assms(1) [unfolded settles_def, rule_format, of l h]
    by (cases r) (simp_all add: m g bind_def try_p_def get_local_def lift_result_def ret_def raise_def)
qed

section \<open>Fenced writes\<close>

text \<open>\<open>fenced W F open d\<close>: every call of \<open>d\<close> that writes (\<open>W\<close>) directly follows a successful fence call
  (\<open>F\<close>); \<open>open\<close> says that one has just been made.\<close>

fun fenced :: "('ev \<Rightarrow> bool) \<Rightarrow> ('ev \<Rightarrow> bool) \<Rightarrow> bool \<Rightarrow> 'ev history \<Rightarrow> bool" where
  "fenced W F opened [] = True"
| "fenced W F opened (c # d) = ((W (fst c) \<longrightarrow> opened) \<and> fenced W F (F (fst c) \<and> snd c) d)"

lemma fenced_mono: "fenced W F False d \<Longrightarrow> fenced W F b d"
  by (cases d) auto

lemma fenced_append: "fenced W F b d \<Longrightarrow> fenced W F False d' \<Longrightarrow> fenced W F b (d @ d')"
  by (induction d arbitrary: b) (auto simp: fenced_mono)

lemma fenced_none: "\<forall>c\<in>set d. \<not> W (fst c) \<Longrightarrow> fenced W F b d"
  by (induction d arbitrary: b) auto

definition guarded :: "('ev \<Rightarrow> bool) \<Rightarrow> ('ev \<Rightarrow> bool) \<Rightarrow> ('l, 'ev, 'a) proc \<Rightarrow> bool" where
  "guarded W F m \<longleftrightarrow> (\<forall>l h. fenced W F False (snd (snd (m l h))))"

named_theorems guarded_intros

lemma guarded_within: "confined (\<lambda>ev. \<not> W ev) m \<Longrightarrow> guarded W F m"
  by (auto simp: confined_def guarded_def intro: fenced_none)

lemma guarded_bind [guarded_intros]: "guarded W F m \<Longrightarrow> (\<And>x. guarded W F (f x)) \<Longrightarrow> guarded W F (bind m f)"
  by (auto simp: guarded_def bind_calls intro: fenced_append split: sum.splits)

lemma guarded_simple [guarded_intros]:
  "guarded W F (ret x)" "guarded W F (raise e)" "guarded W F get_local" "guarded W F (modify_local g)"
  "guarded W F get_history" "guarded W F (lift_result r)"
  by (rule guarded_within, rule confined_intros)+

lemma guarded_perform [guarded_intros]: "\<not> W ev \<Longrightarrow> guarded W F (perform f ev)"
  by (rule guarded_within) (rule confined_perform)

lemma guarded_try [guarded_intros]: "guarded W F m \<Longrightarrow> guarded W F (try_p m)"
  by (simp add: guarded_def)

lemma guarded_ignoring [guarded_intros]: "guarded W F m \<Longrightarrow> guarded W F (ignoring m)"
  by (simp add: ignoring_def guarded_bind guarded_try guarded_simple)

lemma guarded_when [guarded_intros]: "(b \<Longrightarrow> guarded W F m) \<Longrightarrow> guarded W F (when_p b m)"
  by (simp add: when_p_def guarded_simple)

lemma guarded_if [guarded_intros]: "(b \<Longrightarrow> guarded W F m) \<Longrightarrow> (\<not> b \<Longrightarrow> guarded W F n) \<Longrightarrow> guarded W F (if b then m else n)"
  by simp

lemma guarded_for_each [guarded_intros]: "(\<And>x. guarded W F (f x)) \<Longrightarrow> guarded W F (for_each f xs)"
  by (induction xs) (simp_all add: guarded_simple guarded_bind)

lemma guarded_option [guarded_intros]:
  "(x = None \<Longrightarrow> guarded W F m) \<Longrightarrow> (\<And>y. x = Some y \<Longrightarrow> guarded W F (f y)) \<Longrightarrow> guarded W F (case x of None \<Rightarrow> m | Some y \<Rightarrow> f y)"
  by (cases x) simp_all

lemma guarded_sum [guarded_intros]:
  "(\<And>y. x = Inl y \<Longrightarrow> guarded W F (f y)) \<Longrightarrow> (\<And>y. x = Inr y \<Longrightarrow> guarded W F (g y)) \<Longrightarrow> guarded W F (case x of Inl y \<Rightarrow> f y | Inr y \<Rightarrow> g y)"
  by (cases x) simp_all

lemma guarded_fence:
  assumes "F fence" "\<not> W fence"
  shows "guarded W F (bind (perform f fence) (\<lambda>_. perform g ev))"
  using assms by (auto simp: guarded_def bind_def perform_def split: sum.splits)

end
