(* ===== verification/Raw_Batch.thy ===== *)
theory Raw_Batch
  imports Source_Evidence Effects
begin

text \<open>
  \<open>packages/storage/src/raw-batch.ts\<close>: what a page of vendor records becomes in immutable storage.
  The batch is validated, printed as one stable JSON line per record, and stored under a key made
  of its tenant, connection, stream, date and batch. \<open>Date.parse\<close>, SHA-256 and gzip are parameters;
  texts are digested as the bytes of their UTF-8 encoding.
\<close>

section \<open>Records and contexts\<close>

record raw_record =
  rr_type :: string
  rr_id :: string
  rr_updated_at :: "string option"
  rr_hash :: string
  rr_payload :: json

record raw_context =
  rc_tenant :: string
  rc_connection :: string
  rc_run :: string
  rc_batch :: string
  rc_connector :: string
  rc_connector_version :: string
  rc_api_version :: string
  rc_account :: string
  rc_stream :: string
  rc_extracted_at :: string
  rc_cursor_start :: json
  rc_cursor_end :: json

record batch_manifest =
  bm_context :: raw_context
  bm_content_hash :: string
  bm_fingerprint :: string
  bm_count :: nat
  bm_bytes :: nat
  bm_keys :: "string list"

definition raw_invalid :: "string \<Rightarrow> thrown" where
  "raw_invalid m = Thrown_object None (Some ''RawBatchValidationError'') (Some m)"

definition raw_conflict :: "string \<Rightarrow> thrown" where
  "raw_conflict m = Thrown_object None (Some ''RawBatchConflictError'') (Some m)"

section \<open>Validation\<close>

definition is_alnum :: "char \<Rightarrow> bool" where
  "is_alnum c \<longleftrightarrow> is_digit c \<or> (65 \<le> code c \<and> code c \<le> 90) \<or> (97 \<le> code c \<and> code c \<le> 122)"

text \<open>\<open>/^[A-Za-z0-9._-]{1,120}$/\<close> and \<open>/^[0-9a-f]{64}$/\<close>.\<close>

definition is_safe_segment :: "string \<Rightarrow> bool" where
  "is_safe_segment s \<longleftrightarrow> 1 \<le> length s \<and> length s \<le> 120 \<and>
     list_all (\<lambda>c. is_alnum c \<or> c = CHR ''.'' \<or> c = CHR ''_'' \<or> c = CHR ''-'') s"

definition is_sha256 :: "string \<Rightarrow> bool" where
  "is_sha256 s \<longleftrightarrow> length s = 64 \<and> list_all (\<lambda>c. is_digit c \<or> (97 \<le> code c \<and> code c \<le> 102)) s"

text \<open>\<open>assertJsonValue\<close>, with the path of its messages; a parsed number is finite.\<close>

fun assert_json_value :: "string \<Rightarrow> nat \<Rightarrow> json \<Rightarrow> (thrown, unit) result"
  and assert_json_items :: "string \<Rightarrow> nat \<Rightarrow> nat \<Rightarrow> json list \<Rightarrow> (thrown, unit) result"
  and assert_json_entries :: "string \<Rightarrow> nat \<Rightarrow> (string \<times> json) list \<Rightarrow> (thrown, unit) result" where
  "assert_json_value path depth v =
     (if depth > 80 then Inl (raw_invalid (path @ '' exceeds the maximum JSON depth.''))
      else case v of JArr xs \<Rightarrow> assert_json_items path depth 0 xs | JObj m \<Rightarrow> assert_json_entries path depth m | _ \<Rightarrow> Inr ())"
| "assert_json_items path depth i [] = Inr ()"
| "assert_json_items path depth i (x # xs) =
     and_then (assert_json_value (path @ ''['' @ string_of_nat i @ '']'') (Suc depth) x) (\<lambda>_. assert_json_items path depth (Suc i) xs)"
| "assert_json_entries path depth [] = Inr ()"
| "assert_json_entries path depth (e # m) =
     (if CHR 0x00 \<in> set (fst e) then Inl (raw_invalid (path @ '' contains an invalid object key.''))
      else and_then (assert_json_value (path @ ''.'' @ fst e) (Suc depth) (snd e)) (\<lambda>_. assert_json_entries path depth m))"

fun check_texts :: "(string \<Rightarrow> bool) \<Rightarrow> string \<Rightarrow> (string \<times> string) list \<Rightarrow> (thrown, unit) result" where
  "check_texts ok complaint [] = Inr ()"
| "check_texts ok complaint (e # es) =
     (if ok (snd e) then check_texts ok complaint es else Inl (raw_invalid (fst e @ complaint)))"

definition validate_context :: "(string \<Rightarrow> int option) \<Rightarrow> raw_context \<Rightarrow> (thrown, int) result" where
  "validate_context date_parse c =
     and_then (check_texts is_ulid '' must be a canonical uppercase ULID.''
       [(''tenantId'', rc_tenant c), (''connectionId'', rc_connection c), (''syncRunId'', rc_run c), (''batchId'', rc_batch c)]) (\<lambda>_.
     and_then (check_texts is_safe_segment '' is not safe for an immutable object key.''
       [(''connectorKey'', rc_connector c), (''stream'', rc_stream c)]) (\<lambda>_.
     and_then (check_texts (\<lambda>s. trim s \<noteq> []) '' must not be empty.''
       [(''connectorVersion'', rc_connector_version c), (''apiVersion'', rc_api_version c), (''externalAccountReference'', rc_account c)]) (\<lambda>_.
     case date_parse (rc_extracted_at c) of
       None \<Rightarrow> Inl (raw_invalid ''extractedAt must be an ISO-8601 timestamp.'')
     | Some t \<Rightarrow>
         and_then (assert_json_value ''cursorStart'' 0 (rc_cursor_start c)) (\<lambda>_.
         and_then (assert_json_value ''cursorEnd'' 0 (rc_cursor_end c)) (\<lambda>_. Inr t)))))"

definition object_key :: "raw_context \<Rightarrow> int \<Rightarrow> string" where
  "object_key c t = join_with ''/''
     [''tenant'', rc_tenant c, ''connection'', rc_connection c, ''stream'', rc_stream c, ''date'', take 10 (iso_string t),
      ''batch-'' @ rc_batch c @ ''.jsonl.gz'']"

definition build_raw_object_key :: "(string \<Rightarrow> int option) \<Rightarrow> raw_context \<Rightarrow> (thrown, string) result" where
  "build_raw_object_key date_parse c = and_then (validate_context date_parse c) (\<lambda>t. Inr (object_key c t))"

section \<open>Lines\<close>

text \<open>\<open>typeShape\<close>: the shape of every value, with the distinct shapes of an array's items sorted by
  their rendering. Parsing such a rendering gives the sorted value.\<close>

fun type_shape :: "json \<Rightarrow> json" where
  "type_shape JNull = JStr ''null''"
| "type_shape (JBool b) = JStr ''boolean''"
| "type_shape (JNum n) = JStr ''number''"
| "type_shape (JStr s) = JStr ''string''"
| "type_shape (JArr xs) = JObj [(''type'', JStr ''array''),
     (''items'', JArr (sort_key stringify (uniq (map (\<lambda>x. norm_json (type_shape x)) xs))))]"
| "type_shape (JObj m) = JObj (sort_key fst (map (\<lambda>e. (fst e, type_shape (snd e))) m))"

definition envelope :: "raw_record \<Rightarrow> json" where
  "envelope r = JObj
     ([(''sourceObjectType'', JStr (rr_type r)), (''sourceRecordId'', JStr (rr_id r))] @
      (if text_present (rr_updated_at r) then [(''sourceUpdatedAt'', JStr (the (rr_updated_at r)))] else []) @
      [(''payloadHash'', JStr (rr_hash r)), (''payload'', rr_payload r)])"

definition at_record :: "nat \<Rightarrow> string \<Rightarrow> thrown" where
  "at_record i complaint = raw_invalid (''records['' @ string_of_nat i @ '']'' @ complaint)"

definition check_record :: "(string \<Rightarrow> string) \<Rightarrow> nat \<Rightarrow> raw_record \<Rightarrow> (thrown, unit) result" where
  "check_record sha256_hex i r =
     (if trim (rr_type r) = [] \<or> trim (rr_id r) = [] then Inl (at_record i '' has no source identity.'')
      else if \<not> is_sha256 (rr_hash r) then Inl (at_record i ''.payloadHash is not SHA-256.'')
      else and_then (assert_json_value (''records['' @ string_of_nat i @ ''].payload'') 0 (rr_payload r)) (\<lambda>_.
        if sha256_hex (stable (rr_payload r)) \<noteq> rr_hash r
        then Inl (at_record i ''.payloadHash does not match the immutable payload bytes.'') else Inr ()))"

definition record_identity :: "raw_record \<Rightarrow> string" where
  "record_identity r = rr_type r @ CHR 0x00 # rr_id r"

fun raw_lines :: "(string \<Rightarrow> string) \<Rightarrow> nat \<Rightarrow> string list \<Rightarrow> raw_record list \<Rightarrow> (thrown, string list) result" where
  "raw_lines sha256_hex i seen [] = Inr []"
| "raw_lines sha256_hex i seen (r # rs) =
     and_then (check_record sha256_hex i r) (\<lambda>_.
       if record_identity r \<in> set seen
       then Inl (raw_invalid (''Batch contains duplicate source identity at records['' @ string_of_nat i @ ''].''))
       else and_then (raw_lines sha256_hex (Suc i) (record_identity r # seen) rs) (\<lambda>ls. Inr (stable (envelope r) # ls)))"

definition line_feed :: char where
  "line_feed = CHR 0x0A"

definition jsonl :: "string list \<Rightarrow> string" where
  "jsonl ls = join_with [line_feed] ls @ (if ls = [] then [] else [line_feed])"

definition raw_manifest_of ::
    "(string \<Rightarrow> string) \<Rightarrow> (string \<Rightarrow> string) \<Rightarrow> raw_context \<Rightarrow> int \<Rightarrow> raw_record list \<Rightarrow> string list \<Rightarrow> batch_manifest" where
  "raw_manifest_of sha256_hex gzip c t rs ls =
     \<lparr>bm_context = c\<lparr>rc_extracted_at := iso_string t\<rparr>, bm_content_hash = sha256_hex (jsonl ls),
      bm_fingerprint = sha256_hex (stable (JArr (map (\<lambda>r. type_shape (rr_payload r)) rs))),
      bm_count = length rs, bm_bytes = length (gzip (jsonl ls)), bm_keys = [object_key c t]\<rparr>"

text \<open>\<open>rawRecord\<close> of the worker.\<close>

definition raw_record_of :: "source_record \<Rightarrow> raw_record" where
  "raw_record_of r = \<lparr>rr_type = sr_type r, rr_id = sr_id r, rr_updated_at = sr_updated_at r, rr_hash = sr_hash r, rr_payload = sr_payload r\<rparr>"

section \<open>Keys name their batch\<close>

definition slash_free :: "string \<Rightarrow> bool" where
  "slash_free s \<longleftrightarrow> CHR ''/'' \<notin> set s"

lemma slash_segment: "slash_free a \<Longrightarrow> slash_free b \<Longrightarrow> a @ CHR ''/'' # u = b @ CHR ''/'' # v \<Longrightarrow> a = b \<and> u = v"
  unfolding slash_free_def by (induction a arbitrary: b) (auto simp: Cons_eq_append_conv append_eq_Cons_conv)

lemma check_texts_ok: "check_texts ok complaint es = Inr u \<longleftrightarrow> (\<forall>e\<in>set es. ok (snd e))"
  by (induction es) auto

declare check_texts.simps [simp del] check_texts_ok [simp] assert_json_value.simps [simp del]

lemma ulid_slash_free: "is_ulid s \<Longrightarrow> slash_free s"
  by (auto simp: is_ulid_def slash_free_def list_all_iff is_ulid_char_def is_digit_def code_def)

lemma segment_slash_free: "is_safe_segment s \<Longrightarrow> slash_free s"
  by (auto simp: is_safe_segment_def slash_free_def list_all_iff is_alnum_def is_digit_def code_def)

lemma validate_context_ok:
  assumes "validate_context date_parse c = Inr t"
  shows "is_ulid (rc_tenant c)" "is_ulid (rc_connection c)" "is_ulid (rc_batch c)" "is_safe_segment (rc_stream c)"
    "date_parse (rc_extracted_at c) = Some t"
  using assms by (auto simp: validate_context_def and_then_Inr_iff split: option.splits)

lemma same_suffix: "u @ b @ s = v @ b' @ s \<Longrightarrow> length b = length b' \<Longrightarrow> b = (b' :: 'a list)"
  by simp

lemma object_key_inject:
  assumes "validate_context date_parse c = Inr t" "validate_context date_parse c' = Inr t'" "object_key c t = object_key c' t'"
  shows "rc_tenant c = rc_tenant c' \<and> rc_connection c = rc_connection c' \<and> rc_stream c = rc_stream c' \<and> rc_batch c = rc_batch c'"
proof -
  note ok = validate_context_ok [OF assms(1)] and ok' = validate_context_ok [OF assms(2)]
  let ?r3 = "\<lambda>c t. ''date/'' @ take 10 (iso_string t) @ ''/batch-'' @ rc_batch c @ ''.jsonl.gz''"
  let ?r2 = "\<lambda>c t. ''stream/'' @ rc_stream c @ CHR ''/'' # ?r3 c t"
  let ?r1 = "\<lambda>c t. ''connection/'' @ rc_connection c @ CHR ''/'' # ?r2 c t"
  have "rc_tenant c @ CHR ''/'' # ?r1 c t = rc_tenant c' @ CHR ''/'' # ?r1 c' t'"
    using assms(3) by (simp add: object_key_def)
  from slash_segment [OF _ _ this] ok(1) ok'(1) have 1: "rc_tenant c = rc_tenant c'" "?r1 c t = ?r1 c' t'"
    by (blast intro: ulid_slash_free)+
  then have "rc_connection c @ CHR ''/'' # ?r2 c t = rc_connection c' @ CHR ''/'' # ?r2 c' t'" by simp
  from slash_segment [OF _ _ this] ok(2) ok'(2) have 2: "rc_connection c = rc_connection c'" "?r2 c t = ?r2 c' t'"
    by (blast intro: ulid_slash_free)+
  then have "rc_stream c @ CHR ''/'' # ?r3 c t = rc_stream c' @ CHR ''/'' # ?r3 c' t'" by simp
  from slash_segment [OF _ _ this] ok(4) ok'(4) have 3: "rc_stream c = rc_stream c'" "?r3 c t = ?r3 c' t'"
    by (blast intro: segment_slash_free)+
  have "(''date/'' @ take 10 (iso_string t) @ ''/batch-'') @ rc_batch c @ ''.jsonl.gz'' =
      (''date/'' @ take 10 (iso_string t') @ ''/batch-'') @ rc_batch c' @ ''.jsonl.gz''"
    using 3(2) by simp
  from same_suffix [OF this] ok(3) ok'(3) have "rc_batch c = rc_batch c'" by (simp add: is_ulid_def)
  with 1 2 3 show ?thesis by simp
qed

text \<open>C30: an immutable object key names its batch: two contexts that are
  given the same key agree on tenant, connection, stream and batch, so no tenant, connection or
  stream can ever be handed the object of another.\<close>

theorem raw_keys_name_their_batch:
  assumes "build_raw_object_key date_parse c = Inr key" "build_raw_object_key date_parse c' = Inr key"
  shows "rc_tenant c = rc_tenant c' \<and> rc_connection c = rc_connection c' \<and> rc_stream c = rc_stream c' \<and> rc_batch c = rc_batch c'"
proof -
  obtain t t' where "validate_context date_parse c = Inr t" "validate_context date_parse c' = Inr t'" "object_key c t = object_key c' t'"
    using assms by (auto simp: build_raw_object_key_def and_then_Inr_iff)
  then show ?thesis by (rule object_key_inject)
qed

definition sample_context :: raw_context where
  "sample_context =
     \<lparr>rc_tenant = ''01ARZ3NDEKTSV4RRFFQ69G5FAV'', rc_connection = ''01ARZ3NDEKTSV4RRFFQ69G5FAW'', rc_run = ''01ARZ3NDEKTSV4RRFFQ69G5FAX'',
      rc_batch = ''01ARZ3NDEKTSV4RRFFQ69G5FAY'', rc_connector = ''deputy'', rc_connector_version = ''1'', rc_api_version = ''v1'',
      rc_account = ''a'', rc_stream = ''rosters'', rc_extracted_at = ''2024-05-01'', rc_cursor_start = JNull, rc_cursor_end = JNull\<rparr>"

text \<open>The run of a batch and its connector do not show in the key.\<close>

lemma raw_keys_name_their_batch_witness:
  "build_raw_object_key (\<lambda>_. Some 0) sample_context = build_raw_object_key (\<lambda>_. Some 0) (sample_context\<lparr>rc_connector := ''xero''\<rparr>) \<and>
   rc_batch sample_context = rc_batch (sample_context\<lparr>rc_connector := ''xero''\<rparr>)"
proof -
  let ?c = "sample_context\<lparr>rc_connector := ''xero''\<rparr>"
  have "case build_raw_object_key (\<lambda>_. Some 0) sample_context of Inl _ \<Rightarrow> False
      | Inr key \<Rightarrow> build_raw_object_key (\<lambda>_. Some 0) ?c = Inr key" by code_simp
  then obtain key where key: "build_raw_object_key (\<lambda>_. Some 0) sample_context = Inr key" "build_raw_object_key (\<lambda>_. Some 0) ?c = Inr key"
    by (auto dest: result_caseD)
  from raw_keys_name_their_batch [OF key] key show ?thesis by simp
qed

section \<open>Content hashes name their records\<close>

definition printable :: "string \<Rightarrow> bool" where
  "printable s \<longleftrightarrow> list_all (\<lambda>c. 32 \<le> code c) s"

lemma printable_simps [simp]:
  "printable []" "printable (c # s) = (32 \<le> code c \<and> printable s)" "printable (s @ s') = (printable s \<and> printable s')"
  by (simp_all add: printable_def)

lemma printable_hex: "d < 16 \<Longrightarrow> 32 \<le> code (hex_digit d)"
proof -
  assume "d < 16"
  then have "code (char_of (87 + d)) = 87 + d" by (simp add: code_def)
  then show ?thesis by (simp add: hex_digit_def code_digit_char)
qed

lemma printable_digits: "list_all is_digit s \<Longrightarrow> printable s"
  by (auto simp: printable_def is_digit_def list_all_iff)

lemma printable_int: "printable (string_of_int n)"
  by (simp add: string_of_int_def printable_digits string_of_nat_digits code_def)

lemma printable_escape: "printable (escape_char c)"
proof -
  have "32 \<le> code (CHR ''b'')" "32 \<le> code (CHR ''t'')" "32 \<le> code (CHR ''n'')" "32 \<le> code (CHR ''f'')" "32 \<le> code (CHR ''r'')"
    "32 \<le> code (CHR ''u'')" "32 \<le> code (CHR ''0'')" "32 \<le> code backslash"
    by (simp_all add: code_def backslash_def)
  moreover have "32 \<le> code (hex_digit (code c mod 16))" by (rule printable_hex) simp
  moreover have "code c < 32 \<Longrightarrow> 32 \<le> code (hex_digit (code c div 16))" by (rule printable_hex) simp
  ultimately show ?thesis by (simp add: escape_char_def)
qed

lemma printable_quote: "printable (quote s)"
proof -
  have "printable (concat (map escape_char s))" by (induction s) (simp_all add: printable_escape)
  then show ?thesis by (simp add: quote_def code_def)
qed

lemma printable_join: "printable sep \<Longrightarrow> (\<And>x. x \<in> set xs \<Longrightarrow> printable x) \<Longrightarrow> printable (join_with sep xs)"
  by (induction sep xs rule: join_with.induct) auto

lemma printable_stringify: "printable (stringify v)"
proof (induction v)
  case (JArr xs)
  then have "printable (join_with '','' (map stringify xs))" by (intro printable_join) (auto simp: code_def)
  then show ?case by (simp add: code_def)
next
  case (JObj m)
  then have "printable (join_with '','' (map (\<lambda>e. quote (fst e) @ '':'' @ stringify (snd e)) m))"
    by (intro printable_join) (auto simp: code_def printable_quote snds.simps)
  then show ?case by (simp add: code_def)
qed (simp_all add: code_def printable_int printable_quote)

lemma jsonl_eq: "jsonl ls = concat (map (\<lambda>l. l @ [line_feed]) ls)"
proof -
  have "join_with [line_feed] (l # ls) @ [line_feed] = concat (map (\<lambda>l. l @ [line_feed]) (l # ls))" for l ls
    by (induction ls arbitrary: l) simp_all
  then show ?thesis by (cases ls) (simp_all add: jsonl_def)
qed

lemma line_prefix:
  assumes "printable a" "printable b" "a @ line_feed # u = b @ line_feed # v"
  shows "a = b \<and> u = v"
  using assms
proof (induction a arbitrary: b)
  case Nil
  then show ?case by (cases b) (auto simp: line_feed_def code_def)
next
  case (Cons x a)
  then show ?case by (cases b) (auto simp: line_feed_def code_def)
qed

lemma jsonl_inject:
  assumes "list_all printable ls" "list_all printable ls'" "jsonl ls = jsonl ls'"
  shows "ls = ls'"
  using assms unfolding jsonl_eq
proof (induction ls arbitrary: ls')
  case Nil
  then show ?case by (cases ls') simp_all
next
  case (Cons l ls)
  then obtain l' ls'' where ls': "ls' = l' # ls''" by (cases ls') simp_all
  with Cons.prems have "l @ line_feed # concat (map (\<lambda>l. l @ [line_feed]) ls) = l' @ line_feed # concat (map (\<lambda>l. l @ [line_feed]) ls'')"
    by simp
  from line_prefix [OF _ _ this] Cons.prems ls' show ?case using Cons.IH [of ls''] by simp
qed

lemma raw_lines_result:
  "raw_lines sha256_hex i seen rs = Inr ls \<Longrightarrow> ls = map (\<lambda>r. stable (envelope r)) rs \<and>
     (\<forall>r\<in>set rs. sha256_hex (stable (rr_payload r)) = rr_hash r \<and> record_identity r \<notin> set seen) \<and> distinct (map record_identity rs)"
proof (induction rs arbitrary: i seen ls)
  case (Cons r rs)
  then obtain ls' where ls': "check_record sha256_hex i r = Inr ()" "record_identity r \<notin> set seen"
      "raw_lines sha256_hex (Suc i) (record_identity r # seen) rs = Inr ls'" "ls = stable (envelope r) # ls'"
    by (auto simp: and_then_Inr_iff split: if_splits)
  moreover from ls'(1) have "sha256_hex (stable (rr_payload r)) = rr_hash r"
    by (auto simp: check_record_def and_then_Inr_iff split: if_splits)
  ultimately show ?case using Cons.IH [OF ls'(3)] by auto
qed simp

text \<open>What a stored line says: the record up to the order of the entries in its payload; an empty
  source time counts as none.\<close>

definition stored_content :: "raw_record \<Rightarrow> string \<times> string \<times> string option \<times> string \<times> json" where
  "stored_content r = (rr_type r, rr_id r, (if text_present (rr_updated_at r) then rr_updated_at r else None), rr_hash r, norm_json (rr_payload r))"

lemma map_eq_map_iff: "(\<And>x y. f x = f y \<longleftrightarrow> g x = g y) \<Longrightarrow> map f xs = map f ys \<longleftrightarrow> map g xs = map g ys"
proof (induction xs arbitrary: ys)
  case (Cons x xs)
  then show ?case by (cases ys) simp_all
qed simp

lemma envelope_distinct: "\<exists>m. envelope r = JObj m \<and> distinct (map fst m)"
  by (simp add: envelope_def)

lemma envelope_get:
  "js_get (envelope r) ''sourceObjectType'' = Some (JStr (rr_type r))" "js_get (envelope r) ''sourceRecordId'' = Some (JStr (rr_id r))"
  "js_get (envelope r) ''sourceUpdatedAt'' = map_option JStr (if text_present (rr_updated_at r) then rr_updated_at r else None)"
  "js_get (envelope r) ''payloadHash'' = Some (JStr (rr_hash r))" "js_get (envelope r) ''payload'' = Some (rr_payload r)"
  by (auto simp: envelope_def text_present_def split: option.splits)

lemma envelope_content: "norm_json (envelope r) = norm_json (envelope r') \<longleftrightarrow> stored_content r = stored_content r'"
proof
  assume eq: "norm_json (envelope r) = norm_json (envelope r')"
  have "map_option norm_json (js_get (envelope r) k) = map_option norm_json (js_get (envelope r') k)" for k
    using eq envelope_distinct [of r] envelope_distinct [of r'] norm_obj_get by (metis js_get_simps(1))
  from this [of "''sourceObjectType''"] this [of "''sourceRecordId''"] this [of "''sourceUpdatedAt''"] this [of "''payloadHash''"]
    this [of "''payload''"] show "stored_content r = stored_content r'"
    unfolding envelope_get by (auto simp: stored_content_def text_present_def split: if_splits option.splits)
next
  assume "stored_content r = stored_content r'"
  then show "norm_json (envelope r) = norm_json (envelope r')"
    by (auto simp: stored_content_def envelope_def text_present_def split: if_splits)
qed

text \<open>C31: unless SHA-256 collides on the two texts, two accepted batches
  have the same content hash exactly when they store the same records in the same order, up to the
  order of entries inside their payloads; and in an accepted batch every record has an identity of
  its own and carries the digest of the very bytes that are stored for its payload.\<close>

theorem content_hash_names_records:
  assumes "raw_lines sha256_hex 0 [] rs = Inr ls" "raw_lines sha256_hex 0 [] rs' = Inr ls'"
    and "sha256_hex (jsonl ls) = sha256_hex (jsonl ls') \<Longrightarrow> jsonl ls = jsonl ls'"
  shows "(bm_content_hash (raw_manifest_of sha256_hex gzip c t rs ls) = bm_content_hash (raw_manifest_of sha256_hex gzip c' t' rs' ls')
      \<longleftrightarrow> map stored_content rs = map stored_content rs') \<and>
    distinct (map record_identity rs) \<and> (\<forall>r\<in>set rs. rr_hash r = sha256_hex (stable (rr_payload r)))"
proof -
  note r = raw_lines_result [OF assms(1)] and r' = raw_lines_result [OF assms(2)]
  have "list_all printable (map (\<lambda>r. stable (envelope r)) xs)" for xs
    by (simp add: list_all_iff stable_norm printable_stringify)
  then have "jsonl ls = jsonl ls' \<longleftrightarrow> map (\<lambda>r. stable (envelope r)) rs = map (\<lambda>r. stable (envelope r)) rs'"
    using r r' jsonl_inject by metis
  also have "\<dots> \<longleftrightarrow> map stored_content rs = map stored_content rs'"
    by (rule map_eq_map_iff) (simp add: stable_inject envelope_content)
  finally show ?thesis using assms(3) r by (auto simp: raw_manifest_of_def)
qed


text \<open>A digest that tells texts of different parity apart, and two batches of one record.\<close>

definition sample_digest :: "string \<Rightarrow> string" where
  "sample_digest s = replicate 64 (if even (length s) then CHR ''0'' else CHR ''1'')"

definition sample_record :: "string \<Rightarrow> raw_record" where
  "sample_record i = \<lparr>rr_type = ''Roster'', rr_id = i, rr_updated_at = None, rr_hash = replicate 64 (CHR ''1''), rr_payload = JNum 1\<rparr>"

lemma content_hash_names_records_witness:
  "\<exists>ls ls'. raw_lines sample_digest 0 [] [sample_record ''7''] = Inr ls \<and> raw_lines sample_digest 0 [] [sample_record ''17''] = Inr ls' \<and>
     bm_content_hash (raw_manifest_of sample_digest (\<lambda>s. s) sample_context 0 [sample_record ''7''] ls) \<noteq>
     bm_content_hash (raw_manifest_of sample_digest (\<lambda>s. s) sample_context 0 [sample_record ''17''] ls')"
proof -
  have "case raw_lines sample_digest 0 [] [sample_record ''7''] of Inl _ \<Rightarrow> False | Inr ls \<Rightarrow>
      (case raw_lines sample_digest 0 [] [sample_record ''17''] of Inl _ \<Rightarrow> False | Inr ls' \<Rightarrow>
         sample_digest (jsonl ls) \<noteq> sample_digest (jsonl ls'))" by code_simp
  then obtain ls ls' where ls: "raw_lines sample_digest 0 [] [sample_record ''7''] = Inr ls"
      "raw_lines sample_digest 0 [] [sample_record ''17''] = Inr ls'" "sample_digest (jsonl ls) \<noteq> sample_digest (jsonl ls')"
    by (auto dest!: result_caseD)
  have "stored_content (sample_record ''7'') \<noteq> stored_content (sample_record ''17'')"
    by (simp add: stored_content_def sample_record_def)
  then have "bm_content_hash (raw_manifest_of sample_digest (\<lambda>s. s) sample_context 0 [sample_record ''7''] ls) \<noteq>
     bm_content_hash (raw_manifest_of sample_digest (\<lambda>s. s) sample_context 0 [sample_record ''17''] ls')"
    using content_hash_names_records [OF ls(1,2), of "\<lambda>s. s" sample_context 0 sample_context 0] ls(3) by simp
  with ls show ?thesis by blast
qed

section \<open>Which payload hashes the batch accepts\<close>

fun index_free :: "json \<Rightarrow> bool" where
  "index_free (JArr xs) = list_all index_free xs"
| "index_free (JObj m) = list_all (\<lambda>e. \<not> is_index_key (fst e) \<and> index_free (snd e)) m"
| "index_free _ = True"

lemma own_order_plain: "\<forall>e\<in>set m. \<not> is_index_key (fst e) \<Longrightarrow> own_order m = m"
  by (simp add: own_order_def filter_empty_conv)

lemma stable_value_plain: "index_free v \<Longrightarrow> stable_value v = norm_json v"
proof (induction v)
  case (JArr xs)
  then show ?case by (auto simp: list_all_iff)
next
  case (JObj m)
  then have eq: "map (\<lambda>e. (fst e, stable_value (snd e))) m = map (\<lambda>e. (fst e, norm_json (snd e))) m"
    by (auto simp: list_all_iff snds.simps)
  have "\<forall>e\<in>set (sort_key fst (map (\<lambda>e. (fst e, norm_json (snd e))) m)). \<not> is_index_key (fst e)"
    using JObj.prems by (auto simp: list_all_iff)
  then show ?case by (simp add: eq own_order_plain)
qed simp_all



section \<open>Webhook tombstones are refused\<close>

text \<open>The digest of a webhook tombstone is taken of its payload in the order it is written down, which
  is not the stable order.\<close>

lemma signal_payload_unsorted: "norm_json (signal_payload p job s) \<noteq> signal_payload p job s"
proof
  assume eq: "norm_json (signal_payload p job s) = signal_payload p job s"
  obtain m where m: "signal_payload p job s = JObj m" by (simp add: signal_payload_def)
  then have keys: "map fst m = [''schemaVersion'', ''signalType'', ''webhookReceiptId'', ''stream'', ''sourceObjectType'',
      ''sourceRecordId'', ''observedAt'']"
    by (auto simp: signal_payload_def)
  have "m = sort_key fst (map (\<lambda>e. (fst e, norm_json (snd e))) m)" using eq m by simp
  then have "sorted (map fst m)" by (metis sorted_sort_key)
  moreover have "\<not> sorted [''schemaVersion'', ''signalType'', ''webhookReceiptId'', ''stream'',
      ''sourceObjectType'', ''sourceRecordId'', ''observedAt'']" by code_simp
  ultimately show False by (simp only: keys)
qed

lemma raw_lines_refuse:
  assumes "r \<in> set rs" "rr_hash r \<noteq> sha256_hex (stable (rr_payload r))"
  shows "\<exists>e. raw_lines sha256_hex i seen rs = Inl e"
proof (rule ccontr)
  assume "\<nexists>e. raw_lines sha256_hex i seen rs = Inl e"
  then obtain ls where "raw_lines sha256_hex i seen rs = Inr ls" by (cases "raw_lines sha256_hex i seen rs") auto
  from raw_lines_result [OF this] assms show False by auto
qed

text \<open>C33: a page that gains a tombstone from a verified webhook is never
  stored: unless SHA-256 collides on the two renderings of the signal's payload, the batch writer refuses
  the digest the tombstone carries.\<close>

theorem webhook_tombstone_refused:
  assumes page: "append_verified_webhook_tombstones date_parse sha256_hex base job m records = Inr out"
    and signal: "inc_tombstones job = Some signals" "s \<in> set signals" "\<not> signal_recorded records s"
    and collision_free: "\<And>p. sha256_hex (stable (signal_payload p job s)) = sha256_hex (stringify (signal_payload p job s)) \<Longrightarrow>
      stable (signal_payload p job s) = stringify (signal_payload p job s)"
  shows "\<exists>e. raw_lines sha256_hex 0 [] (map raw_record_of out) = Inl e"
proof -
  have allows: "signals \<noteq> []" "policy_allows base job m"
    using page signal by (auto simp: append_verified_webhook_tombstones_def split: if_splits)
  obtain c where c: "find (\<lambda>c. con_id c = inc_stream job) (mf_streams m) = Some c"
    using page signal(1) allows by (auto simp: append_verified_webhook_tombstones_def split: option.splits)
  obtain ts where ts: "fold_r (tombstone_step date_parse sha256_hex m (the (mf_policy m)) c job records) [] signals = Inr ts" "out = records @ ts"
    using page signal(1) allows c by (auto simp: append_verified_webhook_tombstones_def and_then_Inr_iff)
  let ?r = "tombstone_of_signal sha256_hex m (the (mf_policy m)) c job s (the (date_parse (tomb_observed_at s)))"
  have "?r \<in> set out" using tombstone_fold [OF ts(1)] signal(2,3) ts(2) by (auto simp: Let_def)
  then have "raw_record_of ?r \<in> set (map raw_record_of out)" by simp
  moreover have "rr_hash (raw_record_of ?r) \<noteq> sha256_hex (stable (rr_payload (raw_record_of ?r)))"
    using signal_payload_unsorted [of "the (mf_policy m)" job s] collision_free [of "the (mf_policy m)"]
    by (auto simp: raw_record_of_def tombstone_of_signal_def stable_norm stringify_inject)
  ultimately show ?thesis by (rule raw_lines_refuse)
qed

text \<open>The deletion of a Deputy roster, with a digest that never collides.\<close>

lemma webhook_tombstone_refused_witness:
  "case append_verified_webhook_tombstones (\<lambda>_. Some 0) (\<lambda>s. s) sample_tombstone_base sample_tombstone_job sample_manifest [] of
     Inl _ \<Rightarrow> False
   | Inr out \<Rightarrow> length out = 1 \<and> (\<exists>e. raw_lines (\<lambda>s. s) 0 [] (map raw_record_of out) = Inl e)"
proof -
  let ?a = "append_verified_webhook_tombstones (\<lambda>_. Some 0) (\<lambda>s. s) sample_tombstone_base sample_tombstone_job sample_manifest []"
  have "case ?a of Inl _ \<Rightarrow> False | Inr out \<Rightarrow> length out = 1" by code_simp
  then obtain out where out: "?a = Inr out" "length out = 1" by (auto dest: result_caseD)
  obtain s where s: "inc_tombstones sample_tombstone_job = Some [s]" by (simp add: sample_tombstone_job_def)
  from webhook_tombstone_refused [OF out(1) s, of s] out show ?thesis by (simp add: signal_recorded_def)
qed

end
