(* ===== verification/Raw_Storage.thy ===== *)
theory Raw_Storage
  imports Raw_Batch
begin

text \<open>
  The immutable raw store: \<open>RawBatchWriter.write\<close> of \<open>packages/storage/src/raw-batch.ts\<close>, and the S3
  adapter \<open>S3RawIngestionObjectStore\<close> of \<open>s3-ingestion.ts\<close> that provides its object store. What the
  writer needs of a store and of the manifest repository are the locales \<open>object_store\<close> and
  \<open>manifest_repository\<close>; the adapter gives the first over any S3 that honours conditional puts.

  The outside world is a state that every call may change: other writers add objects and manifests
  at any time, and a call that failed may have taken effect.
\<close>

section \<open>Calls that may fail\<close>

type_synonym ('s, 'a) io = "'s \<Rightarrow> (thrown, 'a) result \<times> 's"

definition io_return :: "'a \<Rightarrow> ('s, 'a) io" where
  "io_return x s = (Inr x, s)"

definition io_throw :: "thrown \<Rightarrow> ('s, 'a) io" where
  "io_throw e s = (Inl e, s)"

definition io_bind :: "('s, 'a) io \<Rightarrow> ('a \<Rightarrow> ('s, 'b) io) \<Rightarrow> ('s, 'b) io" where
  "io_bind m f s = (case m s of (Inl e, s') \<Rightarrow> (Inl e, s') | (Inr x, s') \<Rightarrow> f x s')"

definition io_lift :: "(thrown, 'a) result \<Rightarrow> ('s, 'a) io" where
  "io_lift r s = (r, s)"

text \<open>\<open>try { m } catch (e) { h e }\<close>.\<close>

definition io_catch :: "('s, 'a) io \<Rightarrow> (thrown \<Rightarrow> ('s, 'a) io) \<Rightarrow> ('s, 'a) io" where
  "io_catch m h s = (case m s of (Inl e, s') \<Rightarrow> h e s' | (Inr x, s') \<Rightarrow> (Inr x, s'))"

section \<open>The S3 adapter\<close>

record s3_error =
  s3_status :: "nat option"
  s3_code :: "string option"
  s3_name :: "string option"
  s3_message :: "string option"

definition allowed_key_char :: "char \<Rightarrow> bool" where
  "allowed_key_char c \<longleftrightarrow> is_alnum c \<or> c = CHR ''.'' \<or> c = CHR ''_'' \<or> c = CHR ''-''"

text \<open>\<open>/^tenant\/[0-9A-HJKMNP-TV-Z]{26}(?:\/[A-Za-z0-9._-]+)+$/u\<close>.\<close>

definition is_safe_raw_key :: "string \<Rightarrow> bool" where
  "is_safe_raw_key k =
     (case split_on (CHR ''/'') k of
        a # t # rest \<Rightarrow> a = ''tenant'' \<and> is_ulid t \<and> rest \<noteq> [] \<and> list_all (\<lambda>s. s \<noteq> [] \<and> list_all allowed_key_char s) rest
      | _ \<Rightarrow> False)"

definition assert_raw_key :: "string \<Rightarrow> (thrown, unit) result" where
  "assert_raw_key k =
     (if int (length k) > 1024 \<or> \<not> is_safe_raw_key k \<or> sublist ''..'' k
      then Inl (plain_error ''Raw storage object key is outside the governed tenant prefix.'') else Inr ())"

definition assert_authorized_object :: "string option \<Rightarrow> string \<Rightarrow> (thrown, unit) result" where
  "assert_authorized_object scope k =
     (if scope = Some k then Inr () else Inl (plain_error ''Raw ingestion customer access requires an exact active session scope.''))"

definition lower_text :: "string option \<Rightarrow> string" where
  "lower_text m = (case m of None \<Rightarrow> [] | Some s \<Rightarrow> map lower s)"

definition is_immutable_collision :: "s3_error \<Rightarrow> bool" where
  "is_immutable_collision e \<longleftrightarrow> (s3_status e = Some 403 \<or> s3_status e = Some 409) \<and>
     (sublist ''row-level security'' (lower_text (s3_message e)) \<or> sublist ''policy'' (lower_text (s3_message e)) \<or>
      sublist ''already exists'' (lower_text (s3_message e)) \<or> sublist ''duplicate'' (lower_text (s3_message e)))"

definition safe_text :: "string \<Rightarrow> string" where
  "safe_text s = map (\<lambda>c. if allowed_key_char c then c else CHR ''_'') s"

definition safe_name :: "s3_error \<Rightarrow> string" where
  "safe_name e = (if text_present (s3_name e) then safe_text (the (s3_name e)) else ''storage_error'')"

definition safe_storage_code :: "s3_error \<Rightarrow> string" where
  "safe_storage_code e =
     (if s3_status e \<noteq> None \<and> s3_status e \<noteq> Some 0 then ''http_'' @ string_of_nat (the (s3_status e))
      else if text_present (s3_code e) then safe_text (the (s3_code e)) else safe_name e)"

definition upload_failed :: "string \<Rightarrow> thrown" where
  "upload_failed c = plain_error (''Immutable raw upload failed ('' @ c @ '').'')"

text \<open>\<open>send_put\<close> and \<open>send_get\<close> are \<open>client.send\<close> of a put with \<open>IfNoneMatch: "*"\<close> and of a get.\<close>

type_synonym 's s3_put = "string \<Rightarrow> string \<Rightarrow> 's \<Rightarrow> (s3_error, unit) result \<times> 's"
type_synonym 's s3_get = "string \<Rightarrow> 's \<Rightarrow> (s3_error, string option) result \<times> 's"

fun put_attempts :: "'s s3_put \<Rightarrow> nat \<Rightarrow> string \<Rightarrow> string \<Rightarrow> ('s, bool) io" where
  "put_attempts send_put 0 k body s = (Inl (upload_failed ''conditional_conflict''), s)"
| "put_attempts send_put (Suc n) k body s =
     (case send_put k body s of
        (Inr _, s') \<Rightarrow> (Inr True, s')
      | (Inl e, s') \<Rightarrow>
          if s3_status e = Some 412 \<or> is_immutable_collision e then (Inr False, s')
          else if s3_status e = Some 409 \<and> 0 < n then put_attempts send_put n k body s'
          else (Inl (upload_failed (safe_storage_code e)), s'))"

definition s3_put_if_absent :: "'s s3_put \<Rightarrow> string option \<Rightarrow> string \<Rightarrow> string \<Rightarrow> ('s, bool) io" where
  "s3_put_if_absent send_put scope k body =
     io_bind (io_lift (assert_raw_key k)) (\<lambda>_.
     io_bind (io_lift (assert_authorized_object scope k)) (\<lambda>_. put_attempts send_put 3 k body))"

definition s3_download :: "'s s3_get \<Rightarrow> string \<Rightarrow> ('s, string option) io" where
  "s3_download send_get k s =
     (case send_get k s of
        (Inr (Some b), s') \<Rightarrow> (Inr (Some b), s')
      | (Inr None, s') \<Rightarrow> (Inl (plain_error ''Immutable raw download failed (Error).''), s')
      | (Inl e, s') \<Rightarrow>
          if s3_status e = Some 404 \<or> s3_name e = Some ''NoSuchKey'' then (Inr None, s')
          else (Inl (plain_error (''Immutable raw download failed ('' @ safe_storage_code e @ '').'')), s'))"

definition s3_read :: "'s s3_get \<Rightarrow> string option \<Rightarrow> string \<Rightarrow> ('s, string option) io" where
  "s3_read send_get scope k =
     io_bind (io_lift (assert_raw_key k)) (\<lambda>_.
     io_bind (io_lift (assert_authorized_object scope k)) (\<lambda>_. s3_download send_get k))"

section \<open>The writer\<close>

record content_identity =
  ci_tenant :: string
  ci_run :: string
  ci_connection :: string
  ci_stream :: string
  ci_hash :: string
  ci_start :: json
  ci_end :: json

definition identity_of :: "raw_context \<Rightarrow> batch_manifest \<Rightarrow> content_identity" where
  "identity_of c m = \<lparr>ci_tenant = rc_tenant c, ci_run = rc_run c, ci_connection = rc_connection c, ci_stream = rc_stream c,
     ci_hash = bm_content_hash m, ci_start = rc_cursor_start c, ci_end = rc_cursor_end c\<rparr>"

definition assert_matching_manifest :: "batch_manifest \<Rightarrow> batch_manifest \<Rightarrow> (thrown, batch_manifest) result" where
  "assert_matching_manifest existing expected =
     (if bm_content_hash existing \<noteq> bm_content_hash expected \<or> bm_fingerprint existing \<noteq> bm_fingerprint expected \<or>
         hd (bm_keys existing) \<noteq> hd (bm_keys expected) \<or> bm_count existing \<noteq> bm_count expected
      then Inl (raw_conflict (''Batch '' @ rc_batch (bm_context expected) @ '' already exists with different immutable content.''))
      else Inr existing)"

definition find_replayed ::
    "(content_identity \<Rightarrow> ('s, batch_manifest option) io) option \<Rightarrow> raw_context \<Rightarrow> batch_manifest \<Rightarrow> ('s, batch_manifest option) io" where
  "find_replayed replay c m =
     (case replay of
        None \<Rightarrow> io_return None
      | Some f \<Rightarrow> io_bind (f (identity_of c m)) (\<lambda>r. case r of
            None \<Rightarrow> io_return None
          | Some x \<Rightarrow>
              if bm_fingerprint x \<noteq> bm_fingerprint m \<or> bm_count x \<noteq> bm_count m \<or> length (bm_keys x) \<noteq> 1
              then io_throw (raw_conflict (''Batch content for stream '' @ rc_stream c @ '' is already registered with different immutable evidence.''))
              else io_return (Some x)))"

definition verify_object :: "(string \<Rightarrow> string) \<Rightarrow> (string \<Rightarrow> ('s, string option) io) \<Rightarrow> string \<Rightarrow> string \<Rightarrow> string \<Rightarrow> ('s, unit) io" where
  "verify_object sha256_hex fetch_object key body complaint =
     io_bind (fetch_object key) (\<lambda>prior.
       if prior = None \<or> sha256_hex (the prior) \<noteq> sha256_hex body then io_throw (raw_conflict complaint) else io_return ())"

definition register_manifest ::
    "(string \<Rightarrow> string \<Rightarrow> ('s, batch_manifest option) io) \<Rightarrow> (content_identity \<Rightarrow> ('s, batch_manifest option) io) option \<Rightarrow>
     (batch_manifest \<Rightarrow> ('s, unit) io) \<Rightarrow> raw_context \<Rightarrow> string \<Rightarrow> batch_manifest \<Rightarrow> ('s, batch_manifest) io" where
  "register_manifest find_manifest replay register c key m =
     io_catch (io_bind (register m) (\<lambda>_. io_return m)) (\<lambda>e.
       io_bind (find_manifest (rc_tenant c) (rc_batch c)) (\<lambda>concurrent.
       case concurrent of
         Some x \<Rightarrow> io_lift (assert_matching_manifest x m)
       | None \<Rightarrow>
           io_bind (find_replayed replay c m) (\<lambda>replayed.
           case replayed of
             Some x \<Rightarrow> io_return x
           | None \<Rightarrow> io_throw (raw_conflict (''Raw object '' @ key @ '' was written but its manifest could not be registered: '' @
               (case e of Thrown_object _ _ (Some t) \<Rightarrow> t | _ \<Rightarrow> ''unknown manifest error''))))))"

text \<open>\<open>write\<close>, after validation: \<open>body\<close> is the compressed batch, \<open>m\<close> its manifest.\<close>

definition store_batch ::
    "(string \<Rightarrow> string \<Rightarrow> ('s, bool) io) \<Rightarrow> (string \<Rightarrow> ('s, string option) io) \<Rightarrow> (string \<Rightarrow> string \<Rightarrow> ('s, batch_manifest option) io) \<Rightarrow>
     (content_identity \<Rightarrow> ('s, batch_manifest option) io) option \<Rightarrow> (batch_manifest \<Rightarrow> ('s, unit) io) \<Rightarrow> (string \<Rightarrow> string) \<Rightarrow>
     raw_context \<Rightarrow> string \<Rightarrow> string \<Rightarrow> batch_manifest \<Rightarrow> ('s, batch_manifest) io" where
  "store_batch put fetch_object find_manifest replay register sha256_hex c key body m =
     io_bind (find_manifest (rc_tenant c) (rc_batch c)) (\<lambda>existing.
     case existing of
       Some x \<Rightarrow>
         io_bind (io_lift (assert_matching_manifest x m)) (\<lambda>matched.
         io_bind (verify_object sha256_hex fetch_object key body
           (''Manifest '' @ rc_batch c @ '' does not match an intact immutable raw object.'')) (\<lambda>_. io_return matched))
     | None \<Rightarrow>
         io_bind (find_replayed replay c m) (\<lambda>replayed.
         case replayed of
           Some x \<Rightarrow> io_return x
         | None \<Rightarrow>
             io_bind (put key body) (\<lambda>created.
             io_bind (if created then io_return ()
               else verify_object sha256_hex fetch_object key body
                 (''Raw object '' @ key @ '' already exists with different immutable bytes.'')) (\<lambda>_.
             register_manifest find_manifest replay register c key m))))"

definition raw_write ::
    "(string \<Rightarrow> string \<Rightarrow> ('s, bool) io) \<Rightarrow> (string \<Rightarrow> ('s, string option) io) \<Rightarrow> (string \<Rightarrow> string \<Rightarrow> ('s, batch_manifest option) io) \<Rightarrow>
     (content_identity \<Rightarrow> ('s, batch_manifest option) io) option \<Rightarrow> (batch_manifest \<Rightarrow> ('s, unit) io) \<Rightarrow>
     (string \<Rightarrow> int option) \<Rightarrow> (string \<Rightarrow> string) \<Rightarrow> (string \<Rightarrow> string) \<Rightarrow> raw_context \<Rightarrow> raw_record list \<Rightarrow> ('s, batch_manifest) io" where
  "raw_write put fetch_object find_manifest replay register date_parse sha256_hex gzip c records =
     io_bind (io_lift (validate_context date_parse c)) (\<lambda>t.
     io_bind (io_lift (raw_lines sha256_hex 0 [] records)) (\<lambda>ls.
     store_batch put fetch_object find_manifest replay register sha256_hex c (object_key c t) (gzip (jsonl ls))
       (raw_manifest_of sha256_hex gzip c t records ls)))"


section \<open>What the writer relies on\<close>

text \<open>A manifest is backed when the object it names is there. The world only grows: no object is
  overwritten or removed, no manifest is forgotten, and whatever manifest appears is backed.\<close>

definition backed :: "(string \<Rightarrow> string option) \<Rightarrow> batch_manifest \<Rightarrow> bool" where
  "backed objs m \<longleftrightarrow> objs (hd (bm_keys m)) \<noteq> None"

definition grows :: "('s \<Rightarrow> string \<Rightarrow> string option) \<Rightarrow> ('s \<Rightarrow> batch_manifest set) \<Rightarrow> 's \<Rightarrow> 's \<Rightarrow> bool" where
  "grows objects manifests s s' \<longleftrightarrow> objects s \<subseteq>\<^sub>m objects s' \<and> manifests s \<subseteq> manifests s' \<and>
     (\<forall>m\<in>manifests s' - manifests s. backed (objects s') m)"

lemma backed_mono: "backed objs m \<Longrightarrow> objs \<subseteq>\<^sub>m objs' \<Longrightarrow> backed objs' m"
  by (force simp: backed_def map_le_def)

lemma grows_trans: "grows objects manifests s s' \<Longrightarrow> grows objects manifests s' s'' \<Longrightarrow> grows objects manifests s s''"
  unfolding grows_def by (blast intro: map_le_trans backed_mono)

lemma grows_refl: "grows objects manifests s s"
  by (simp add: grows_def)

text \<open>\<open>RawObjectStore\<close>: a created object holds the body, and a read shows what is stored. S3 promises
  the same of conditional puts and of gets, and the adapter passes it on.\<close>

locale object_store =
  fixes objects :: "'s \<Rightarrow> string \<Rightarrow> string option" and manifests :: "'s \<Rightarrow> batch_manifest set"
    and put :: "string \<Rightarrow> string \<Rightarrow> ('s, bool) io"
    and fetch_object :: "string \<Rightarrow> ('s, string option) io"
  assumes put_grows: "put k b s = (r, s') \<Longrightarrow> grows objects manifests s s'"
    and put_created: "put k b s = (Inr True, s') \<Longrightarrow> objects s' k = Some b"
    and fetch_grows: "fetch_object k s = (q, s') \<Longrightarrow> grows objects manifests s s'"
    and fetch_found: "fetch_object k s = (Inr (Some b), s') \<Longrightarrow> objects s' k = Some b"

locale s3_api =
  fixes objects :: "'s \<Rightarrow> string \<Rightarrow> string option" and manifests :: "'s \<Rightarrow> batch_manifest set"
    and send_put :: "'s s3_put" and send_get :: "'s s3_get"
  assumes send_put_grows: "send_put k b s = (r, s') \<Longrightarrow> grows objects manifests s s'"
    and send_put_ok: "send_put k b s = (Inr u, s') \<Longrightarrow> objects s' k = Some b"
    and send_get_grows: "send_get k s = (q, s') \<Longrightarrow> grows objects manifests s s'"
    and send_get_ok: "send_get k s = (Inr (Some b), s') \<Longrightarrow> objects s' k = Some b"
begin

lemma put_attempts_ok:
  "put_attempts send_put n k body s = (r, s') \<Longrightarrow> grows objects manifests s s' \<and> (r = Inr True \<longrightarrow> objects s' k = Some body)"
proof (induction n arbitrary: s)
  case 0
  then show ?case by (auto simp: grows_refl)
next
  case (Suc n)
  obtain q s1 where q: "send_put k body s = (q, s1)" by (metis prod.collapse)
  note g = send_put_grows [OF q]
  show ?case
  proof (cases q)
    case (Inr u)
    with Suc.prems q g send_put_ok show ?thesis by auto
  next
    case (Inl e)
    show ?thesis
    proof (cases "\<not> (s3_status e = Some 412 \<or> is_immutable_collision e) \<and> s3_status e = Some 409 \<and> 0 < n")
      case True
      with Suc.prems q Inl have "put_attempts send_put n k body s1 = (r, s')" by simp
      from Suc.IH [OF this] g show ?thesis by (blast intro: grows_trans)
    next
      case False
      with Suc.prems q Inl g show ?thesis by (auto split: if_splits)
    qed
  qed
qed

lemma s3_put_ok:
  assumes "s3_put_if_absent send_put scope k body s = (r, s')"
  shows "grows objects manifests s s' \<and> (r = Inr True \<longrightarrow> objects s' k = Some body)"
  using assms put_attempts_ok [of 3 k body s r s']
  by (auto simp: s3_put_if_absent_def io_bind_def io_lift_def grows_refl split: prod.splits sum.splits)

lemma s3_download_ok:
  assumes "s3_download send_get k s = (r, s')"
  shows "grows objects manifests s s' \<and> (\<forall>b. r = Inr (Some b) \<longrightarrow> objects s' k = Some b)"
proof -
  obtain q s1 where q: "send_get k s = (q, s1)" by (metis prod.collapse)
  show ?thesis using assms q send_get_grows [OF q] send_get_ok
    by (auto simp: s3_download_def split: sum.splits option.splits if_splits)
qed

lemma s3_read_ok:
  assumes "s3_read send_get scope k s = (r, s')"
  shows "grows objects manifests s s' \<and> (\<forall>b. r = Inr (Some b) \<longrightarrow> objects s' k = Some b)"
  using assms s3_download_ok [of k s r s']
  by (auto simp: s3_read_def io_bind_def io_lift_def grows_refl split: prod.splits sum.splits)

lemma s3_provides_store: "object_store objects manifests (s3_put_if_absent send_put scope) (s3_read send_get scope)"
  by unfold_locales (use s3_put_ok s3_read_ok in blast)+

end

sublocale s3_api \<subseteq> store: object_store objects manifests "s3_put_if_absent send_put scope" "s3_read send_get scope" for scope
  by (rule s3_provides_store)

text \<open>\<open>RawManifestRepository\<close>: what is found is registered, and under the content it was looked up by; a
  registration that returns has registered the manifest, and one of a backed manifest leaves a world
  that only grew.\<close>

locale manifest_repository =
  fixes objects :: "'s \<Rightarrow> string \<Rightarrow> string option" and manifests :: "'s \<Rightarrow> batch_manifest set"
    and find_manifest :: "string \<Rightarrow> string \<Rightarrow> ('s, batch_manifest option) io"
    and replay :: "content_identity \<Rightarrow> ('s, batch_manifest option) io"
    and register :: "batch_manifest \<Rightarrow> ('s, unit) io"
  assumes find_grows: "find_manifest t b s = (r, s') \<Longrightarrow> grows objects manifests s s'"
    and find_found: "find_manifest t b s = (Inr (Some m), s') \<Longrightarrow> m \<in> manifests s'"
    and replay_grows: "replay i s = (r, s') \<Longrightarrow> grows objects manifests s s'"
    and replay_found: "replay i s = (Inr (Some m), s') \<Longrightarrow> m \<in> manifests s' \<and> bm_content_hash m = ci_hash i"
    and register_grows: "register m s = (q, s') \<Longrightarrow> backed (objects s) m \<Longrightarrow> grows objects manifests s s'"
    and register_done: "register m s = (Inr u, s') \<Longrightarrow> m \<in> manifests s'"

locale raw_stores = object_store objects manifests put fetch_object + manifest_repository objects manifests find_manifest replay register
  for objects :: "'s \<Rightarrow> string \<Rightarrow> string option" and manifests :: "'s \<Rightarrow> batch_manifest set"
    and put :: "string \<Rightarrow> string \<Rightarrow> ('s, bool) io" and fetch_object :: "string \<Rightarrow> ('s, string option) io"
    and find_manifest :: "string \<Rightarrow> string \<Rightarrow> ('s, batch_manifest option) io"
    and replay :: "content_identity \<Rightarrow> ('s, batch_manifest option) io" and register :: "batch_manifest \<Rightarrow> ('s, unit) io"
begin

abbreviation grown :: "'s \<Rightarrow> 's \<Rightarrow> bool" where
  "grown \<equiv> grows objects manifests"

text \<open>\<open>keeps P m s\<close>: whatever \<open>m\<close> does, the world only grows, and a result satisfies \<open>P\<close> in the state it
  is returned in.\<close>

definition ensures :: "('a \<Rightarrow> 's \<Rightarrow> bool) \<Rightarrow> ('s, 'a) io \<Rightarrow> 's \<Rightarrow> bool" where
  "ensures P m s \<longleftrightarrow> (case m s of (Inl _, s') \<Rightarrow> grown s s' | (Inr x, s') \<Rightarrow> grown s s' \<and> P x s')"

lemma ensuresI: "(\<And>r s'. m s = (r, s') \<Longrightarrow> grown s s' \<and> (\<forall>x. r = Inr x \<longrightarrow> P x s')) \<Longrightarrow> ensures P m s"
  by (auto simp: ensures_def split: prod.splits sum.splits)

lemma ensures_bind:
  assumes "ensures Q m s" "\<And>x s'. grown s s' \<Longrightarrow> Q x s' \<Longrightarrow> ensures P (f x) s'"
  shows "ensures P (io_bind m f) s"
proof -
  obtain r s' where m: "m s = (r, s')" by (metis prod.collapse)
  show ?thesis
  proof (cases r)
    case (Inl e)
    with m assms(1) show ?thesis by (simp add: ensures_def io_bind_def)
  next
    case (Inr x)
    with m assms(1) have g: "grown s s'" "Q x s'" by (simp_all add: ensures_def)
    from assms(2) [OF this] m Inr g(1) show ?thesis
      by (auto simp: ensures_def io_bind_def split: prod.splits sum.splits intro: grows_trans)
  qed
qed

lemma ensures_simple [simp]:
  "ensures P (io_return x) s = P x s" "ensures P (io_throw e) s" "ensures P (io_lift (Inl e)) s" "ensures P (io_lift (Inr x)) s = P x s"
  by (simp_all add: ensures_def io_return_def io_throw_def io_lift_def grows_refl)

lemma ensures_lift: "(\<And>x. r = Inr x \<Longrightarrow> P x s) \<Longrightarrow> ensures P (io_lift r) s"
  by (cases r) simp_all

lemma ensures_option:
  "(\<And>y. x = Some y \<Longrightarrow> ensures P (f y) s) \<Longrightarrow> (x = None \<Longrightarrow> ensures P m s) \<Longrightarrow> ensures P (case x of None \<Rightarrow> m | Some y \<Rightarrow> f y) s"
  by (cases x) simp_all

lemma ensures_weaken: "ensures P m s \<Longrightarrow> (\<And>x s'. P x s' \<Longrightarrow> Q x s') \<Longrightarrow> ensures Q m s"
  by (auto simp: ensures_def split: prod.splits sum.splits)

lemma ensures_find: "ensures (\<lambda>r s'. \<forall>m. r = Some m \<longrightarrow> m \<in> manifests s') (find_manifest t b) s"
  by (rule ensuresI) (blast dest: find_grows find_found)

lemma ensures_put: "ensures (\<lambda>created s'. created \<longrightarrow> objects s' k = Some body) (put k body) s"
  by (rule ensuresI) (auto dest: put_grows put_created)

lemma ensures_fetch: "ensures (\<lambda>r s'. \<forall>b. r = Some b \<longrightarrow> objects s' k = Some b) (fetch_object k) s"
  by (rule ensuresI) (blast dest: fetch_grows fetch_found)

lemma ensures_verify: "ensures (\<lambda>_ s'. objects s' k \<noteq> None) (verify_object sha256_hex fetch_object k body complaint) s"
  unfolding verify_object_def by (rule ensures_bind [OF ensures_fetch]) auto

text \<open>What the writer returns is registered and has the content it was asked to write.\<close>

definition same_content :: "batch_manifest \<Rightarrow> batch_manifest \<Rightarrow> 's \<Rightarrow> bool" where
  "same_content m x s \<longleftrightarrow> x \<in> manifests s \<and> bm_content_hash x = bm_content_hash m \<and> bm_fingerprint x = bm_fingerprint m \<and> bm_count x = bm_count m"

lemma matching_same: "x \<in> manifests s \<Longrightarrow> ensures (same_content m) (io_lift (assert_matching_manifest x m)) s"
  by (rule ensures_lift) (auto simp: assert_matching_manifest_def same_content_def split: if_splits)

lemma same_content_grown: "same_content m x s \<Longrightarrow> grown s s' \<Longrightarrow> same_content m x s'"
  by (auto simp: same_content_def grows_def)

lemma ensures_replayed: "ensures (\<lambda>r s'. \<forall>x. r = Some x \<longrightarrow> same_content m x s') (find_replayed (Some replay) c m) s"
proof -
  have "ensures (\<lambda>r s'. \<forall>x. r = Some x \<longrightarrow> x \<in> manifests s' \<and> bm_content_hash x = bm_content_hash m) (replay (identity_of c m)) s"
    by (rule ensuresI) (use replay_found in \<open>fastforce dest: replay_grows simp: identity_of_def\<close>)
  then show ?thesis
    unfolding find_replayed_def option.case
    by (rule ensures_bind, intro ensures_option) (simp_all add: same_content_def identity_of_def)
qed

lemma ensures_catch:
  assumes "ensures P m s" "\<And>e s'. grown s s' \<Longrightarrow> ensures P (h e) s'"
  shows "ensures P (io_catch m h) s"
proof -
  obtain r s' where m: "m s = (r, s')" by (metis prod.collapse)
  show ?thesis
  proof (cases r)
    case (Inl e)
    with m assms(1) have g: "grown s s'" by (simp add: ensures_def)
    obtain r2 s2 where h: "h e s' = (r2, s2)" by (metis prod.collapse)
    from assms(2) [OF g, of e] h m Inl g show ?thesis
      by (cases r2) (auto simp: ensures_def io_catch_def intro: grows_trans)
  next
    case (Inr x)
    with m assms(1) show ?thesis by (simp add: ensures_def io_catch_def)
  qed
qed

lemma ensures_register:
  assumes "backed (objects s) m"
  shows "ensures (same_content m) (register_manifest find_manifest (Some replay) register c k m) s"
  unfolding register_manifest_def
proof (rule ensures_catch)
  have "ensures (\<lambda>_ s'. m \<in> manifests s') (register m) s"
  proof (rule ensuresI)
    fix r s' assume r: "register m s = (r, s')"
    from register_grows [OF r assms] r register_done [of m s _ s']
    show "grown s s' \<and> (\<forall>x. r = Inr x \<longrightarrow> m \<in> manifests s')" by simp
  qed
  then show "ensures (same_content m) (io_bind (register m) (\<lambda>_. io_return m)) s"
    by (rule ensures_bind) (simp add: same_content_def)
next
  fix e s'
  show "ensures (same_content m) (io_bind (find_manifest (rc_tenant c) (rc_batch c)) (\<lambda>concurrent.
       case concurrent of
         Some x \<Rightarrow> io_lift (assert_matching_manifest x m)
       | None \<Rightarrow>
           io_bind (find_replayed (Some replay) c m) (\<lambda>replayed.
           case replayed of
             Some x \<Rightarrow> io_return x
           | None \<Rightarrow> io_throw (raw_conflict (''Raw object '' @ k @ '' was written but its manifest could not be registered: '' @
               (case e of Thrown_object _ _ (Some t) \<Rightarrow> t | _ \<Rightarrow> ''unknown manifest error'')))))) s'"
    by (rule ensures_bind [OF ensures_find], rule ensures_option)
      (blast intro: matching_same, rule ensures_bind [OF ensures_replayed], simp split: option.splits)
qed

lemma ensures_store:
  assumes "bm_keys m = [k]"
  shows "ensures (same_content m) (store_batch put fetch_object find_manifest (Some replay) register sha256_hex c k body m) s"
  unfolding store_batch_def
proof (rule ensures_bind [OF ensures_find])
  fix existing s1 assume found: "\<forall>x. existing = Some x \<longrightarrow> x \<in> manifests s1"
  show "ensures (same_content m) (case existing of
       Some x \<Rightarrow> io_bind (io_lift (assert_matching_manifest x m)) (\<lambda>matched.
         io_bind (verify_object sha256_hex fetch_object k body (''Manifest '' @ rc_batch c @ '' does not match an intact immutable raw object.''))
           (\<lambda>_. io_return matched))
     | None \<Rightarrow> io_bind (find_replayed (Some replay) c m) (\<lambda>replayed.
         case replayed of
           Some x \<Rightarrow> io_return x
         | None \<Rightarrow> io_bind (put k body) (\<lambda>created.
             io_bind (if created then io_return () else verify_object sha256_hex fetch_object k body
                 (''Raw object '' @ k @ '' already exists with different immutable bytes.'')) (\<lambda>_.
             register_manifest find_manifest (Some replay) register c k m)))) s1"
  proof (cases existing)
    case (Some x)
    then show ?thesis using found
      by (auto intro!: ensures_bind [OF matching_same] ensures_bind [OF ensures_verify] intro: same_content_grown)
  next
    case None
    have put: "ensures (same_content m) (io_bind (put k body) (\<lambda>created.
        io_bind (if created then io_return () else verify_object sha256_hex fetch_object k body
            (''Raw object '' @ k @ '' already exists with different immutable bytes.'')) (\<lambda>_.
        register_manifest find_manifest (Some replay) register c k m))) s2" for s2
    proof (rule ensures_bind [OF ensures_put])
      fix created s3 assume c: "created \<longrightarrow> objects s3 k = Some body"
      have "ensures (\<lambda>_ s'. objects s' k \<noteq> None) (if created then io_return () else verify_object sha256_hex fetch_object k body
            (''Raw object '' @ k @ '' already exists with different immutable bytes.'')) s3"
        using c ensures_verify by auto
      then show "ensures (same_content m) (io_bind (if created then io_return () else verify_object sha256_hex fetch_object k body
            (''Raw object '' @ k @ '' already exists with different immutable bytes.'')) (\<lambda>_.
        register_manifest find_manifest (Some replay) register c k m)) s3"
        by (rule ensures_bind) (rule ensures_register, simp add: backed_def assms)
    qed
    with None show ?thesis by (auto intro!: ensures_bind [OF ensures_replayed] split: option.splits)
  qed
qed

lemma ensures_write:
  "ensures (\<lambda>m s'. m \<in> manifests s' \<and> bm_count m = length records \<and>
       (\<exists>ls. raw_lines sha256_hex 0 [] records = Inr ls \<and> bm_content_hash m = sha256_hex (jsonl ls)))
     (raw_write put fetch_object find_manifest (Some replay) register date_parse sha256_hex gzip c records) s"
  unfolding raw_write_def
proof (rule ensures_bind [OF ensures_lift [of _ "\<lambda>t _. True"]], simp,
    rule ensures_bind [OF ensures_lift [of _ "\<lambda>ls _. raw_lines sha256_hex 0 [] records = Inr ls"]], assumption)
  fix t s1 ls s2
  assume ls: "raw_lines sha256_hex 0 [] records = Inr ls"
  let ?m = "raw_manifest_of sha256_hex gzip c t records ls"
  have m: "bm_keys ?m = [object_key c t]" "bm_count ?m = length records" "bm_content_hash ?m = sha256_hex (jsonl ls)"
    by (simp_all add: raw_manifest_of_def)
  show "ensures (\<lambda>m s'. m \<in> manifests s' \<and> bm_count m = length records \<and>
       (\<exists>ls. raw_lines sha256_hex 0 [] records = Inr ls \<and> bm_content_hash m = sha256_hex (jsonl ls)))
     (store_batch put fetch_object find_manifest (Some replay) register sha256_hex c (object_key c t) (gzip (jsonl ls)) ?m) s2"
    by (rule ensures_weaken [OF ensures_store [OF m(1)]]) (simp add: same_content_def ls m)
qed

end

section \<open>An S3 and a repository in memory\<close>

record raw_memory =
  mem_list :: "(string \<times> string) list"
  mem_manifests :: "batch_manifest list"

definition mem_objects :: "raw_memory \<Rightarrow> string \<Rightarrow> string option" where
  "mem_objects s = map_of (mem_list s)"

definition s3_failure :: "nat \<Rightarrow> s3_error" where
  "s3_failure n = \<lparr>s3_status = Some n, s3_code = None, s3_name = None, s3_message = None\<rparr>"

definition mem_put :: "raw_memory s3_put" where
  "mem_put k b s = (if mem_objects s k = None then (Inr (), s\<lparr>mem_list := (k, b) # mem_list s\<rparr>) else (Inl (s3_failure 412), s))"

definition mem_get :: "raw_memory s3_get" where
  "mem_get k s = (case mem_objects s k of None \<Rightarrow> (Inl (s3_failure 404), s) | Some b \<Rightarrow> (Inr (Some b), s))"

definition mem_find :: "string \<Rightarrow> string \<Rightarrow> (raw_memory, batch_manifest option) io" where
  "mem_find t b s = (Inr (find (\<lambda>m. rc_tenant (bm_context m) = t \<and> rc_batch (bm_context m) = b) (mem_manifests s)), s)"

definition mem_replay :: "content_identity \<Rightarrow> (raw_memory, batch_manifest option) io" where
  "mem_replay i s = (Inr (find (\<lambda>m. identity_of (bm_context m) m = i) (mem_manifests s)), s)"

definition mem_register :: "batch_manifest \<Rightarrow> (raw_memory, unit) io" where
  "mem_register m s = (Inr (), s\<lparr>mem_manifests := mem_manifests s @ [m]\<rparr>)"

abbreviation mem_registered :: "raw_memory \<Rightarrow> batch_manifest set" where
  "mem_registered s \<equiv> set (mem_manifests s)"

interpretation memory: s3_api mem_objects mem_registered mem_put mem_get
  by unfold_locales
    (auto simp: mem_put_def mem_get_def mem_objects_def grows_def map_le_def split: if_splits option.splits)

interpretation repository: manifest_repository mem_objects mem_registered mem_find mem_replay mem_register
  by unfold_locales
    (auto simp: mem_find_def mem_replay_def mem_register_def mem_objects_def grows_def identity_of_def find_Some_iff)

interpretation stored: raw_stores mem_objects mem_registered "s3_put_if_absent mem_put scope" "s3_read mem_get scope"
    mem_find mem_replay mem_register for scope
  by (rule raw_stores.intro) (rule memory.store.object_store_axioms, rule repository.manifest_repository_axioms)

section \<open>Raw batches are immutable\<close>


text \<open>The sample batch, written twice into an empty memory: the second write finds the first.\<close>

definition empty_memory :: raw_memory where
  "empty_memory = \<lparr>mem_list = [], mem_manifests = []\<rparr>"

definition sample_key :: string where
  "sample_key = object_key sample_context 0"

definition sample_write :: "raw_memory \<Rightarrow> (thrown, batch_manifest) result \<times> raw_memory" where
  "sample_write = raw_write (s3_put_if_absent mem_put (Some sample_key)) (s3_read mem_get (Some sample_key))
     mem_find (Some mem_replay) mem_register (\<lambda>_. Some 0) sample_digest (\<lambda>s. s) sample_context [sample_record ''7'']"

lemmas memory_calls = mem_put_def mem_get_def mem_find_def mem_replay_def mem_register_def mem_objects_def
lemmas writer_parts = raw_write_def store_batch_def register_manifest_def find_replayed_def verify_object_def io_bind_def io_lift_def
  io_catch_def io_return_def io_throw_def s3_put_if_absent_def s3_read_def s3_download_def assert_authorized_object_def

lemma sample_write_runs:
  "\<exists>m body. sample_write empty_memory = (Inr m, \<lparr>mem_list = [(sample_key, body)], mem_manifests = [m]\<rparr>) \<and>
     sample_write \<lparr>mem_list = [(sample_key, body)], mem_manifests = [m]\<rparr> = (Inr m, \<lparr>mem_list = [(sample_key, body)], mem_manifests = [m]\<rparr>)"
proof -
  have v: "validate_context (\<lambda>_. Some 0) sample_context = Inr 0" by code_simp
  have "case raw_lines sample_digest 0 [] [sample_record ''7''] of Inl _ \<Rightarrow> False | Inr ls \<Rightarrow> True" by code_simp
  then obtain ls where ls: "raw_lines sample_digest 0 [] [sample_record ''7''] = Inr ls" by (auto dest: result_caseD)
  have k: "assert_raw_key sample_key = Inr ()" by code_simp
  let ?m = "raw_manifest_of sample_digest (\<lambda>s. s) sample_context 0 [sample_record ''7''] ls"
  let ?s = "\<lparr>mem_list = [(sample_key, jsonl ls)], mem_manifests = [?m]\<rparr>"
  have same: "rc_tenant (bm_context ?m) = rc_tenant sample_context" "rc_batch (bm_context ?m) = rc_batch sample_context"
    by (simp_all add: raw_manifest_of_def)
  have match: "assert_matching_manifest ?m ?m = Inr ?m" by (simp add: assert_matching_manifest_def)
  have "sample_write empty_memory = (Inr ?m, ?s)"
    unfolding sample_write_def raw_write_def v ls io_lift_def io_bind_def sum.case prod.case
    by (simp add: writer_parts memory_calls k sample_key_def [symmetric] empty_memory_def numeral_3_eq_3)
  moreover have "sample_write ?s = (Inr ?m, ?s)"
    unfolding sample_write_def raw_write_def v ls io_lift_def io_bind_def sum.case prod.case
    by (simp add: writer_parts memory_calls k sample_key_def [symmetric] same match)
  ultimately show ?thesis by blast
qed


end
