(* ===== verification/Sync_Worker.thy ===== *)
theory Sync_Worker
  imports Effects Source_Evidence
begin

text \<open>
  \<open>services/sync-workers/src/worker.ts\<close>: \<open>SyncJobProcessor\<close>. A claimed job is deferred, fanned out
  per stream, or run: pages are fetched from the connector, written to raw storage, landed in the
  analytical store behind a write fence, and committed; then successor jobs are published and the
  queue message is completed. Every failure is classified and settles the message too.

  The queue, the orchestrator's queue, the two stores, raw storage and the connector are an
  environment (\<open>world\<close>): each call is an \<open>event\<close>, and its reply a function of the history of calls.
  The prefetch of the next page runs while the current one is landed; its reply is fixed when it
  starts and looked at when it is awaited.
\<close>

section \<open>Pages, events and the environment\<close>

datatype page_block = Block_identity_invalid | Block_not_advancing

record sync_page =
  pg_records :: "source_record list"
  pg_next :: "cursor option"
  pg_total :: "int option"
  pg_more :: bool
  pg_block :: "page_block option"
  pg_coverage :: "coverage option"

datatype fetch =
    Fetch_initial sync_range "cursor option"
  | Fetch_incremental cursor
  | Fetch_reconciliation reconciliation_phase sync_range "cursor option"

record landing =
  land_staged :: nat
  land_quarantined :: "string list"
  land_resolved :: "string list"

datatype snapshot_status = Snapshot_running | Snapshot_complete | Snapshot_failed

record raw_manifest =
  man_run :: string
  man_batch :: string
  man_keys :: "string list"

record claim =
  cl_job :: sync_job
  cl_reads :: int

record page_commit =
  pc_batch :: string
  pc_cursor :: cursor
  pc_more :: bool
  pc_staged :: nat
  pc_quarantined :: nat
  pc_complete :: bool
  pc_coverage :: "coverage option"
  pc_transition :: bool

datatype event =
    Ev_open_recent | Ev_defer string int | Ev_begin_run | Ev_resume_cursor | Ev_acquire_permit | Ev_load_connection
  | Ev_check_connection | Ev_record_health auth_health | Ev_fence string | Ev_register_streams | Ev_get_cursor string
  | Ev_register_backfill_plan "phase_plan list" | Ev_register_reconciliation_plan | Ev_list_streams
  | Ev_enqueue enqueue_request | Ev_mark_enqueued string backfill_phase int string | Ev_extend | Ev_complete_coordinator nat
  | Ev_complete | Ev_begin_phase | Ev_backfill_phase | Ev_fetch fetch | Ev_candidates "string option"
  | Ev_raw_write string sync_page | Ev_mark_landing string | Ev_land string sync_page | Ev_resolve_quarantine "string list"
  | Ev_snapshot sync_page | Ev_applications | Ev_record_page string sync_page bool | Ev_capabilities
  | Ev_publish_capabilities string string nat "capability list" | Ev_publish_quality "quality_result list"
  | Ev_record_quarantine string "string list" | Ev_complete_reconciliation | Ev_rollup string | Ev_commit page_commit
  | Ev_next_phase | Ev_complete_page_run | Ev_block_phase string bool | Ev_mark_unavailable | Ev_mark_run_failed string bool
  | Ev_retry_or_fail string bool int int | Ev_release string

text \<open>The reply of each call that returns a value; \<open>wd_act\<close> answers the calls that return none.
  \<open>wd_aborted\<close> says whether the deadline or the shutdown signal has fired.\<close>

type_synonym 'a reply = "event history \<Rightarrow> (thrown, 'a) result"

record world =
  wd_act :: "event \<Rightarrow> unit reply"
  wd_aborted :: "event history \<Rightarrow> bool"
  wd_abort_reason :: thrown
  wd_manifest :: "manifest option"
  wd_suppressed :: "string list"
  wd_version :: string
  wd_open_recent :: "int reply"
  wd_already_succeeded :: "bool reply"
  wd_resume_cursor :: "cursor option reply"
  wd_permit :: "string reply"
  wd_health :: "connection_health reply"
  wd_streams :: "connector_stream list reply"
  wd_cursor :: "string \<Rightarrow> stream_cursor reply"
  wd_begin_phase :: "bool reply"
  wd_backfill_phase :: "(bool \<times> coverage option) reply"
  wd_fetch :: "fetch \<Rightarrow> sync_page reply"
  wd_candidates :: "tombstone_candidate list reply"
  wd_raw_write :: "raw_manifest reply"
  wd_land :: "landing reply"
  wd_snapshot :: "snapshot_status reply"
  wd_capabilities :: "capability list reply"
  wd_enqueue :: "string reply"
  wd_next_phase :: "phase_plan option reply"
  wd_retry_or_fail :: "bool reply"
  wd_ulid :: "event history \<Rightarrow> string"
  wd_base :: "event history \<Rightarrow> base_values"
  wd_now :: "event history \<Rightarrow> int"
  wd_date_parse :: "string \<Rightarrow> int option"
  wd_sha256 :: "string \<Rightarrow> string"

text \<open>The variables of \<open>process\<close> that its error handler reads.\<close>

record worker_locals =
  lc_permit :: "string option"
  lc_checking :: bool
  lc_stream :: "connector_stream option"
  lc_phase :: "(bool \<times> coverage option) option"

type_synonym 'a worker = "(worker_locals, event, 'a) proc"

datatype sync_outcome = Completed | Retry_scheduled string bool int | Failed_outcome string bool int

definition act :: "world \<Rightarrow> event \<Rightarrow> unit worker" where
  "act w ev = perform (wd_act w ev) ev"

definition BACKFILL_PAGES_PER_CLAIM :: nat where "BACKFILL_PAGES_PER_CLAIM = 50"

section \<open>Helpers\<close>

text \<open>\<open>assertJson\<close>: the payload of a parsed page holds JSON values only, so what can
  fail is its depth; the path in the message, which no classification reads, is left out.\<close>

fun json_depth :: "json \<Rightarrow> nat" where
  "json_depth (JArr xs) = foldr max (map (\<lambda>x. Suc (json_depth x)) xs) 0"
| "json_depth (JObj m) = foldr max (map (\<lambda>e. Suc (json_depth (snd e))) m) 0"
| "json_depth _ = 0"

definition assert_json :: "json \<Rightarrow> (thrown, unit) result" where
  "assert_json v = (if json_depth v > 80 then Inl (plain_error ''payload_too_deep'') else Inr ())"

definition job_base_of :: "claim \<Rightarrow> job_base" where
  "job_base_of c = Sync_Jobs.job_base (cl_job c)"

definition kind_of_claim :: "claim \<Rightarrow> job_kind" where
  "kind_of_claim c = job_kind (cl_job c)"

definition target_of :: "job_base \<Rightarrow> target" where
  "target_of b = \<lparr>tgt_tenant = job_tenant b, tgt_connection = job_connection b, tgt_connector = job_connector b,
     tgt_account = job_account b, tgt_generation = job_generation b\<rparr>"

definition backfill_claim :: "claim \<Rightarrow> backfill_fields option" where
  "backfill_claim c = backfill_of (cl_job c)"

definition sweep_claim :: "claim \<Rightarrow> reconciliation_fields option" where
  "sweep_claim c = sweep_of (cl_job c)"

definition is_backfill :: "claim \<Rightarrow> bool" where
  "is_backfill c \<longleftrightarrow> backfill_claim c \<noteq> None"

text \<open>\<open>connectorOperation\<close>: what fails after the signal has fired is a retryable deadline error.\<close>

definition deadline_error :: thrown where
  "deadline_error = Thrown_connector (connector_error REMOTE_UNAVAILABLE True) None"

definition connector_operation :: "world \<Rightarrow> 'a reply \<Rightarrow> event \<Rightarrow> 'a worker" where
  "connector_operation w f ev =
     perform (\<lambda>h. if wd_aborted w h then Inl deadline_error
                  else case f h of Inl e \<Rightarrow> Inl (if wd_aborted w (h @ [(ev, False)]) then deadline_error else e) | Inr x \<Rightarrow> Inr x) ev"

definition throw_if_aborted :: "world \<Rightarrow> unit worker" where
  "throw_if_aborted w = bind get_history (\<lambda>h. if wd_aborted w h then raise (wd_abort_reason w) else ret ())"

definition with_write_fence :: "world \<Rightarrow> 'a reply \<Rightarrow> event \<Rightarrow> 'a worker" where
  "with_write_fence w f ev =
     bind get_local (\<lambda>l. case lc_permit l of
        None \<Rightarrow> raise (plain_error ''sync_write_permit_missing'')
      | Some p \<Rightarrow> bind (perform (wd_act w (Ev_fence p)) (Ev_fence p)) (\<lambda>_. perform f ev))"

definition fenced_act :: "world \<Rightarrow> event \<Rightarrow> unit worker" where
  "fenced_act w ev = with_write_fence w (wd_act w ev) ev"

text \<open>\<open>orchestrator.enqueue...\<close>: the request is built from the values drawn at that moment.\<close>

definition enqueue :: "world \<Rightarrow> (base_values \<Rightarrow> enqueue_request) \<Rightarrow> string worker" where
  "enqueue w mk = bind get_history (\<lambda>h. perform (wd_enqueue w) (Ev_enqueue (mk (wd_base w h))))"

definition no_options :: enqueue_options where
  "no_options = \<lparr>opt_delay = None, opt_key = None\<rparr>"

definition manifest_backfill_streams :: "manifest option \<Rightarrow> connector_stream list" where
  "manifest_backfill_streams m =
     (case m of None \<Rightarrow> []
      | Some mf \<Rightarrow> map (\<lambda>c. \<lparr>strm_id = con_id c, strm_domains = con_product_domains c, strm_strategy = con_strategy c,
          strm_availability = (case con_availability c of None \<Rightarrow> Required_stream | Some a \<Rightarrow> a),
          strm_dependencies = con_dependencies c, strm_product_domains = con_product_domains c, strm_priority = None\<rparr>) (mf_streams mf))"

definition stream_for_job :: "connector_stream list \<Rightarrow> sync_job \<Rightarrow> (thrown, connector_stream) result" where
  "stream_for_job streams j =
     (case find (\<lambda>s. Some (strm_id s) = job_stream j) streams of
        Some s \<Rightarrow> Inr s
      | None \<Rightarrow> Inl (plain_error (''connector_stream_not_found:'' @ (case job_stream j of None \<Rightarrow> ''none'' | Some s \<Rightarrow> s))))"

definition range_error :: thrown where
  "range_error = Thrown_object None (Some ''RangeError'') (Some ''Invalid time value'')"

definition lifecycle_thrown :: "lifecycle_error \<Rightarrow> thrown" where
  "lifecycle_thrown e = (case e of Timestamp_invalid \<Rightarrow> plain_error ''backfill_plan_timestamp_invalid'' | Time_out_of_range \<Rightarrow> range_error)"

definition tombstone_thrown :: "tombstone_error \<Rightarrow> thrown" where
  "tombstone_thrown e = (case e of Tombstone_job_invalid \<Rightarrow> plain_error ''webhook_tombstone_job_invalid''
     | Tombstone_stream_unknown s \<Rightarrow> plain_error (''webhook_tombstone_stream_unknown:'' @ s)
     | Tombstone_contract_mismatch \<Rightarrow> plain_error ''webhook_tombstone_contract_mismatch'' | Tombstone_time_invalid \<Rightarrow> range_error)"

definition map_error :: "('e \<Rightarrow> 'f) \<Rightarrow> ('e, 'a) result \<Rightarrow> ('f, 'a) result" where
  "map_error g r = (case r of Inl e \<Rightarrow> Inl (g e) | Inr x \<Rightarrow> Inr x)"

section \<open>Scheduling and fan-out\<close>

definition defer_for_recent :: "world \<Rightarrow> claim \<Rightarrow> bool worker" where
  "defer_for_recent w c =
     (case backfill_claim c of
        None \<Rightarrow> ret False
      | Some b \<Rightarrow>
          if text_present (bf_stream b) \<and> bf_mode b = Progressive \<and> bf_phase b \<noteq> Recent
          then bind (perform (wd_open_recent w) Ev_open_recent) (\<lambda>n. ret (n > 0))
          else ret False)"

fun prepare_backfill_plans :: "world \<Rightarrow> claim \<Rightarrow> backfill_fields \<Rightarrow> connector_stream list \<Rightarrow> phase_plan list worker" where
  "prepare_backfill_plans w c b [] = ret []"
| "prepare_backfill_plans w c b (s # ss) =
     bind (perform (wd_cursor w (strm_id s)) (Ev_get_cursor (strm_id s))) (\<lambda>previous.
     bind (lift_result (map_error lifecycle_thrown (build_backfill_plan (wd_date_parse w) (job_base_of c) b s (Some previous)))) (\<lambda>ps.
     bind (prepare_backfill_plans w c b ss) (\<lambda>rest. ret (ps @ rest))))"

definition registered_backfill_plans :: "world \<Rightarrow> claim \<Rightarrow> backfill_fields \<Rightarrow> connector_stream list \<Rightarrow> phase_plan list worker" where
  "registered_backfill_plans w c b streams =
     bind (prepare_backfill_plans w c b streams) (\<lambda>ps. bind (act w (Ev_register_backfill_plan ps)) (\<lambda>_. ret ps))"

definition phase_key :: "job_base \<Rightarrow> string \<Rightarrow> backfill_phase \<Rightarrow> int \<Rightarrow> string" where
  "phase_key base stream ph v =
     ''backfill-phase:'' @ job_connection base @ '':g'' @ string_of_int (job_generation base) @ '':'' @ stream @ '':'' @ phase_text ph @
     '':v'' @ string_of_int v"

definition plan_fields :: "phase_plan \<Rightarrow> backfill_fields" where
  "plan_fields p = \<lparr>bf_stream = Some (plan_stream p), bf_range = plan_range p, bf_cursor = None, bf_phase = plan_phase p,
     bf_replay = plan_replay p, bf_mode = plan_mode p\<rparr>"

definition fan_out_plan :: "world \<Rightarrow> claim \<Rightarrow> phase_plan \<Rightarrow> unit worker" where
  "fan_out_plan w c p =
     bind (enqueue w (\<lambda>d. enqueue_initial_backfill (wd_sha256 w) d (target_of (job_base_of c)) (plan_fields p)
       \<lparr>opt_delay = None, opt_key = Some (phase_key (job_base_of c) (plan_stream p) (plan_phase p) (plan_replay p))\<rparr>)) (\<lambda>request.
     act w (Ev_mark_enqueued (plan_stream p) (plan_phase p) (plan_replay p) request))"

definition fan_out :: "world \<Rightarrow> claim \<Rightarrow> connector_stream list \<Rightarrow> phase_plan list option \<Rightarrow> unit worker" where
  "fan_out w c streams registered =
     (case kind_of_claim c of
        Initial_backfill b \<Rightarrow>
          bind (case registered of Some ps \<Rightarrow> ret ps | None \<Rightarrow> registered_backfill_plans w c b streams) (\<lambda>plans.
            for_each (fan_out_plan w c) (filter (\<lambda>p. plan_phase p = Recent) plans))
      | Reconciliation_sweep r \<Rightarrow>
          for_each (\<lambda>s. bind (enqueue w (\<lambda>d. enqueue_reconciliation_sweep (wd_sha256 w) d (target_of (job_base_of c))
            (Some (rec_sweep_id r)) (Some Late_edits) (Some (strm_id s)) None (rec_lookback_from r) (rec_lookback_to r) no_options)) (\<lambda>_. ret ())) streams
      | Incremental_sync i \<Rightarrow>
          (if streams = [] then ret () else raise (plain_error ''incremental_sync_requires_stream'')))"

section \<open>The first page\<close>

datatype first_page =
    First_page sync_page "tombstone_candidate list"
  | Suppressed
  | Missing_cursor

definition lift_records :: "world \<Rightarrow> claim \<Rightarrow> sync_page \<Rightarrow> sync_page worker" where
  "lift_records w c p =
     (case kind_of_claim c of
        Incremental_sync i \<Rightarrow>
          (if inc_tombstones i = None \<or> inc_tombstones i = Some [] then ret p
           else case wd_manifest w of
             None \<Rightarrow> raise (Thrown_object None (Some ''TypeError'') (Some ''manifest''))
           | Some m \<Rightarrow> bind (lift_result (map_error tombstone_thrown
               (append_verified_webhook_tombstones (wd_date_parse w) (wd_sha256 w) (job_base_of c) i m (pg_records p)))) (\<lambda>rs.
               ret (p\<lparr>pg_records := rs\<rparr>)))
      | _ \<Rightarrow> ret p)"

definition backfill_first_page :: "world \<Rightarrow> claim \<Rightarrow> backfill_fields \<Rightarrow> stream_cursor \<Rightarrow> cursor option \<Rightarrow> sync_page worker" where
  "backfill_first_page w c b persisted resume =
     (if bf_mode b = Resume_verified then
        (let reconnect = (case resume of Some r \<Rightarrow> Some r
              | None \<Rightarrow> (case bf_cursor b of Some r \<Rightarrow> Some r
                | None \<Rightarrow> (if sc_generation persisted = job_generation (job_base_of c) - 1 then sc_cursor persisted else None)))
         in case reconnect of
              None \<Rightarrow> raise (plain_error ''reconnect_modified_watermark_missing'')
            | Some r \<Rightarrow>
                if bf_cursor b = None \<and> cursor_updated_at r \<noteq> Some (range_from (bf_range b))
                then raise (plain_error ''reconnect_modified_watermark_missing'')
                else connector_operation w (wd_fetch w (Fetch_incremental r)) (Ev_fetch (Fetch_incremental r)))
      else
        (let f = Fetch_initial (bf_range b) (case resume of Some r \<Rightarrow> Some r | None \<Rightarrow> bf_cursor b)
         in connector_operation w (wd_fetch w f) (Ev_fetch f)))"

definition incremental_first_page :: "world \<Rightarrow> claim \<Rightarrow> incremental_fields \<Rightarrow> stream_cursor \<Rightarrow> first_page worker" where
  "incremental_first_page w c i persisted =
     (let cur = (case inc_cursor i of Some r \<Rightarrow> Some r
            | None \<Rightarrow> (if sc_generation persisted = job_generation (job_base_of c) then sc_cursor persisted else None))
      in case cur of
           None \<Rightarrow> (if job_connector (job_base_of c) \<in> set (wd_suppressed w) then ret Suppressed else ret Missing_cursor)
         | Some r \<Rightarrow> bind (connector_operation w (wd_fetch w (Fetch_incremental r)) (Ev_fetch (Fetch_incremental r))) (\<lambda>p.
             ret (First_page p [])))"

definition sweep_first_page :: "world \<Rightarrow> claim \<Rightarrow> reconciliation_fields \<Rightarrow> first_page worker" where
  "sweep_first_page w c r =
     (if rec_phase r = Apply_tombstones then
        bind (with_write_fence w (wd_candidates w) (Ev_candidates (map_option cursor_value (rec_cursor r)))) (\<lambda>cands.
          let records = map (reconciliation_tombstone_record (wd_sha256 w) (job_base_of c) r) cands; full = (length records = 500)
          in ret (First_page \<lparr>pg_records = records,
               pg_next = (if full then Some \<lparr>cursor_value = tc_key (last cands), cursor_updated_at = None\<rparr> else None),
               pg_total = Some (int (length records)), pg_more = full, pg_block = None, pg_coverage = None\<rparr> cands))
      else
        (let f = Fetch_reconciliation (rec_phase r) \<lparr>range_from = rec_lookback_from r, range_to = rec_lookback_to r\<rparr> (rec_cursor r)
         in bind (connector_operation w (wd_fetch w f) (Ev_fetch f)) (\<lambda>p. ret (First_page p []))))"

definition first_page_of :: "world \<Rightarrow> claim \<Rightarrow> stream_cursor \<Rightarrow> cursor option \<Rightarrow> first_page worker" where
  "first_page_of w c persisted resume =
     (case kind_of_claim c of
        Initial_backfill b \<Rightarrow> bind (backfill_first_page w c b persisted resume) (\<lambda>p. ret (First_page p []))
      | Incremental_sync i \<Rightarrow> incremental_first_page w c i persisted
      | Reconciliation_sweep r \<Rightarrow> sweep_first_page w c r)"

text \<open>The page contract, checked on the first page against the job's cursor and on every later one
  against the cursor it was fetched from.\<close>

definition check_page :: "cursor option \<Rightarrow> sync_page \<Rightarrow> (thrown, unit) result" where
  "check_page previous p =
     (if pg_more p \<and> pg_next p = None \<and> pg_block p = None then Inl (plain_error ''connector_page_missing_continuation_cursor'')
      else if pg_block p \<noteq> None \<and> (\<not> pg_more p \<or> pg_next p \<noteq> None) then Inl (plain_error ''connector_page_invalid_pagination_block'')
      else if pg_more p \<and> pg_next p \<noteq> None \<and> map_option cursor_value previous = map_option cursor_value (pg_next p)
      then Inl (plain_error ''connector_page_non_advancing_cursor'')
      else Inr ())"

section \<open>One page\<close>

text \<open>What stays the same while a claim walks its pages.\<close>

record page_context =
  cx_stream :: connector_stream
  cx_persisted :: stream_cursor
  cx_candidates :: "tombstone_candidate list"

text \<open>What changes from page to page: the pages landed, the batch and cursor of \<open>pageJob\<close>, the cursor
  the page started from, the cached capability observations, and the cumulative counts.\<close>

record walk_state =
  wk_landed :: nat
  wk_batch :: string
  wk_job_cursor :: "cursor option"
  wk_capabilities :: "capability list option"
  wk_staged :: nat
  wk_quarantined :: nat

definition skippable_empty_page :: "claim \<Rightarrow> sync_page \<Rightarrow> bool" where
  "skippable_empty_page c p \<longleftrightarrow> pg_records p = [] \<and> pg_more p \<and> is_backfill c"

definition land_page :: "world \<Rightarrow> claim \<Rightarrow> string \<Rightarrow> sync_page \<Rightarrow> (landing \<times> string option \<times> string) worker" where
  "land_page w c batch p =
     (if skippable_empty_page c p then ret (\<lparr>land_staged = 0, land_quarantined = [], land_resolved = []\<rparr>, None, batch)
      else
        bind (lift_result (map_r (\<lambda>r. assert_json (sr_payload r)) (pg_records p))) (\<lambda>_.
        bind (perform (wd_raw_write w) (Ev_raw_write batch p)) (\<lambda>m.
        if man_run m \<noteq> job_run_id (job_base_of c) then raise (plain_error ''raw_batch_sync_run_lineage_mismatch'')
        else
          bind (act w (Ev_mark_landing (man_batch m))) (\<lambda>_.
          bind (throw_if_aborted w) (\<lambda>_.
          bind (with_write_fence w (wd_land w) (Ev_land (man_batch m) p)) (\<lambda>l.
            ret (l, (case man_keys m of [] \<Rightarrow> None | k # _ \<Rightarrow> Some k), man_batch m)))))))"

definition expects_completion_evidence :: "claim \<Rightarrow> sync_page \<Rightarrow> bool" where
  "expects_completion_evidence c p =
     (case backfill_claim c of None \<Rightarrow> False
      | Some b \<Rightarrow> \<not> pg_more p \<and> (bf_mode b \<noteq> Progressive \<or> bf_phase b = Full_history))"

definition page_completion :: "claim \<Rightarrow> (bool \<times> coverage option) option \<Rightarrow> sync_page \<Rightarrow> (thrown, bool \<times> coverage option) result" where
  "page_completion c ph p =
     (let completion = (case backfill_claim c of None \<Rightarrow> (False, None)
            | Some b \<Rightarrow> if pg_more p then (False, None)
                else phase_completes_backfill b (pg_coverage p) (case ph of None \<Rightarrow> None | Some (_, i) \<Rightarrow> i))
      in if expects_completion_evidence c p \<and> \<not> fst completion then Inl (plain_error ''backfill_completion_evidence_missing'')
         else Inr completion)"

definition snapshot_text :: "snapshot_status \<Rightarrow> string" where
  "snapshot_text s = (case s of Snapshot_running \<Rightarrow> ''running'' | Snapshot_complete \<Rightarrow> ''complete'' | Snapshot_failed \<Rightarrow> ''failed'')"

definition reconcile_page :: "world \<Rightarrow> claim \<Rightarrow> sync_page \<Rightarrow> unit worker" where
  "reconcile_page w c p =
     (case sweep_claim c of
        None \<Rightarrow> ret ()
      | Some r \<Rightarrow>
          if rec_phase r = Identity_snapshot \<or> rec_phase r = Verify_snapshot then
            bind (with_write_fence w (wd_snapshot w) (Ev_snapshot p)) (\<lambda>s.
              if \<not> pg_more p \<and> s \<noteq> Snapshot_complete then raise (plain_error (''reconciliation_snapshot_'' @ snapshot_text s))
              else ret ())
          else if rec_phase r = Apply_tombstones then fenced_act w Ev_applications
          else ret ())"

definition page_capabilities :: "world \<Rightarrow> page_context \<Rightarrow> capability list option \<Rightarrow> capability list worker" where
  "page_capabilities w cx cached =
     (case cached of
        Some caps \<Rightarrow> ret caps
      | None \<Rightarrow> bind (connector_operation w (wd_capabilities w) Ev_capabilities) (\<lambda>caps.
          ret (filter (\<lambda>k. case wd_manifest w of None \<Rightarrow> False
            | Some m \<Rightarrow> (case map_of (mf_capabilities m) (cap_id k) of None \<Rightarrow> False | Some ss \<Rightarrow> strm_id (cx_stream cx) \<in> set ss)) caps)))"

definition publish_page :: "world \<Rightarrow> claim \<Rightarrow> string \<Rightarrow> string option \<Rightarrow> landing \<Rightarrow> capability list \<Rightarrow> sync_page \<Rightarrow> unit worker" where
  "publish_page w c batch key l caps p =
     bind (when_p (pg_block p = None)
       (fenced_act w (Ev_publish_capabilities batch
         (latest_source_watermark (wd_date_parse w) (pg_records p) (job_requested_at (job_base_of c))) (land_staged l) caps))) (\<lambda>_.
     bind (fenced_act w (Ev_publish_quality (build_connector_quality_results (wd_date_parse w) (kind_of_claim c) (pg_records p)
       (land_staged l) (length (land_quarantined l)) (pg_more p) (pg_next p) caps))) (\<lambda>_.
     if land_quarantined l = [] then ret ()
     else case key of None \<Rightarrow> raise (plain_error ''quarantine_requires_landed_batch'')
          | Some k \<Rightarrow> act w (Ev_record_quarantine k (land_quarantined l))))"

definition next_reconciliation_phase :: "reconciliation_phase \<Rightarrow> reconciliation_phase" where
  "next_reconciliation_phase p = (case p of Late_edits \<Rightarrow> Identity_snapshot | Identity_snapshot \<Rightarrow> Verify_snapshot | _ \<Rightarrow> Apply_tombstones)"

definition sweep_key :: "job_base \<Rightarrow> reconciliation_fields \<Rightarrow> string \<Rightarrow> reconciliation_phase \<Rightarrow> string" where
  "sweep_key base r stream ph =
     ''reconciliation-phase:'' @ job_connection base @ '':g'' @ string_of_int (job_generation base) @ '':'' @ rec_sweep_id r @ '':'' @
     stream @ '':'' @ reconciliation_text ph"

definition enqueue_next_reconciliation_phase :: "world \<Rightarrow> claim \<Rightarrow> reconciliation_fields \<Rightarrow> unit worker" where
  "enqueue_next_reconciliation_phase w c r =
     (if \<not> text_present (rec_stream r) \<or> rec_phase r = Apply_tombstones then ret ()
      else (let ph = next_reconciliation_phase (rec_phase r)
            in bind (enqueue w (\<lambda>d. enqueue_reconciliation_sweep (wd_sha256 w) d (target_of (job_base_of c)) (Some (rec_sweep_id r)) (Some ph)
                 (rec_stream r) None (rec_lookback_from r) (rec_lookback_to r)
                 \<lparr>opt_delay = Some 5, opt_key = Some (sweep_key (job_base_of c) r (the (rec_stream r)) ph)\<rparr>)) (\<lambda>_. ret ())))"

definition finalize_sweep :: "world \<Rightarrow> claim \<Rightarrow> bool \<Rightarrow> sync_page \<Rightarrow> bool worker" where
  "finalize_sweep w c finalize p =
     (case sweep_claim c of
        None \<Rightarrow> ret False
      | Some r \<Rightarrow>
          if finalize \<and> \<not> pg_more p then
            bind (when_p (rec_phase r = Apply_tombstones) (fenced_act w Ev_complete_reconciliation)) (\<lambda>_.
            bind (enqueue_next_reconciliation_phase w c r) (\<lambda>_. ret True))
          else ret False)"

definition final_cursor :: "page_context \<Rightarrow> claim \<Rightarrow> cursor option \<Rightarrow> sync_page \<Rightarrow> cursor" where
  "final_cursor cx c job_cur p =
     (case pg_next p of Some n \<Rightarrow> n
      | None \<Rightarrow> (case job_cur of Some k \<Rightarrow> k
        | None \<Rightarrow> (case sc_cursor (cx_persisted cx) of Some k \<Rightarrow> k
          | None \<Rightarrow> \<lparr>cursor_value = job_requested_at (job_base_of c), cursor_updated_at = None\<rparr>)))"

definition blocked_error :: thrown where
  "blocked_error = Thrown_connector (connector_error REMOTE_RESPONSE_INVALID False) None"

text \<open>From landing to commit; \<open>prefetched\<close> says whether the next page is being fetched.\<close>

definition process_page :: "world \<Rightarrow> claim \<Rightarrow> page_context \<Rightarrow> walk_state \<Rightarrow> bool \<Rightarrow> sync_page \<Rightarrow> walk_state worker" where
  "process_page w c cx s prefetched p =
     bind (throw_if_aborted w) (\<lambda>_.
     bind (land_page w c (wk_batch s) p) (\<lambda>(l, key, batch).
     bind (when_p (land_resolved l \<noteq> []) (act w (Ev_resolve_quarantine (land_resolved l)))) (\<lambda>_.
     bind get_local (\<lambda>loc.
     bind (lift_result (page_completion c (lc_phase loc) p)) (\<lambda>(done, cov).
     bind (reconcile_page w c p) (\<lambda>_.
     bind (when_p (\<not> skippable_empty_page c p) (fenced_act w (Ev_record_page batch p done))) (\<lambda>_.
     bind (page_capabilities w cx (wk_capabilities s)) (\<lambda>caps.
     bind (publish_page w c batch key l caps p) (\<lambda>_.
     bind (throw_if_aborted w) (\<lambda>_.
     bind (act w Ev_extend) (\<lambda>_.
     bind (finalize_sweep w c (\<not> pg_more p \<or> \<not> prefetched) p) (\<lambda>transition.
     bind (fenced_act w (Ev_rollup batch)) (\<lambda>_.
     if pg_block p \<noteq> None then raise blocked_error
     else
       bind (act w (Ev_commit \<lparr>pc_batch = batch, pc_cursor = final_cursor cx c (wk_job_cursor s) p, pc_more = pg_more p,
         pc_staged = land_staged l, pc_quarantined = length (land_quarantined l), pc_complete = done, pc_coverage = cov,
         pc_transition = transition\<rparr>)) (\<lambda>_.
       ret (s\<lparr>wk_batch := batch, wk_capabilities := Some caps, wk_staged := wk_staged s + land_staged l,
         wk_quarantined := wk_quarantined s + length (land_quarantined l)\<rparr>)))))))))))))))"

section \<open>Successor jobs\<close>

definition enqueue_continuation :: "world \<Rightarrow> claim \<Rightarrow> cursor \<Rightarrow> unit worker" where
  "enqueue_continuation w c cur =
     (case kind_of_claim c of
        Initial_backfill b \<Rightarrow>
          bind (enqueue w (\<lambda>d. enqueue_initial_backfill (wd_sha256 w) d (target_of (job_base_of c)) (b\<lparr>bf_cursor := Some cur\<rparr>) no_options)) (\<lambda>request.
          if \<not> text_present (bf_stream b) then raise (plain_error ''backfill_continuation_requires_stream'')
          else act w (Ev_mark_enqueued (the (bf_stream b)) (bf_phase b) (bf_replay b) request))
      | Incremental_sync i \<Rightarrow>
          bind (enqueue w (\<lambda>d. enqueue_incremental_sync (wd_sha256 w) d (target_of (job_base_of c))
            \<lparr>inc_stream = inc_stream i, inc_cursor = Some cur, inc_reason = Continuation, inc_receipt = None, inc_tombstones = None\<rparr> no_options)) (\<lambda>_. ret ())
      | Reconciliation_sweep r \<Rightarrow>
          bind (enqueue w (\<lambda>d. enqueue_reconciliation_sweep (wd_sha256 w) d (target_of (job_base_of c)) (Some (rec_sweep_id r)) (Some (rec_phase r))
            (rec_stream r) (Some cur) (rec_lookback_from r) (rec_lookback_to r) no_options)) (\<lambda>_. ret ()))"

definition enqueue_next_backfill_phase :: "world \<Rightarrow> claim \<Rightarrow> backfill_fields \<Rightarrow> unit worker" where
  "enqueue_next_backfill_phase w c b =
     bind (perform (wd_next_phase w) Ev_next_phase) (\<lambda>next.
     case next of
       None \<Rightarrow> ret ()
     | Some p \<Rightarrow>
         bind (enqueue w (\<lambda>d. enqueue_initial_backfill (wd_sha256 w) d (target_of (job_base_of c))
           \<lparr>bf_stream = bf_stream b, bf_range = plan_range p, bf_cursor = None, bf_phase = plan_phase p, bf_replay = plan_replay p, bf_mode = plan_mode p\<rparr>
           \<lparr>opt_delay = Some 30, opt_key = Some (phase_key (job_base_of c) (case bf_stream b of Some s \<Rightarrow> s | None \<Rightarrow> ''undefined'') (plan_phase p) (plan_replay p))\<rparr>)) (\<lambda>request.
         if \<not> text_present (bf_stream b) then raise (plain_error ''backfill_successor_requires_stream'')
         else act w (Ev_mark_enqueued (the (bf_stream b)) (plan_phase p) (plan_replay p) request)))"

definition complete_claim :: "world \<Rightarrow> sync_outcome worker" where
  "complete_claim w = bind (perform (wd_act w Ev_complete) Ev_complete) (\<lambda>_. ret Completed)"

text \<open>Leaving the claim after its last page.\<close>

definition publish_successors :: "world \<Rightarrow> claim \<Rightarrow> sync_page \<Rightarrow> unit worker" where
  "publish_successors w c p =
     bind (case pg_next p of Some n \<Rightarrow> when_p (pg_more p) (enqueue_continuation w c n) | None \<Rightarrow> ret ()) (\<lambda>_.
     case backfill_claim c of Some b \<Rightarrow> when_p (\<not> pg_more p) (enqueue_next_backfill_phase w c b) | None \<Rightarrow> ret ())"

section \<open>The page walk\<close>

text \<open>\<open>k\<close> is the number of further pages the claim may land. The prefetch for the next page is started
  before the current one is landed and awaited after its commit.\<close>

definition prefetch :: "world \<Rightarrow> claim \<Rightarrow> nat \<Rightarrow> sync_page \<Rightarrow> (thrown, sync_page) result option worker" where
  "prefetch w c k p =
     bind get_history (\<lambda>h.
     case (backfill_claim c, pg_next p) of
       (Some b, Some n) \<Rightarrow>
         if pg_more p \<and> 0 < k \<and> \<not> wd_aborted w h then
           (let f = (if bf_mode b = Resume_verified then Fetch_incremental n else Fetch_initial (bf_range b) (Some n))
            in bind (try_p (connector_operation w (wd_fetch w f) (Ev_fetch f))) (\<lambda>r. ret (Some r)))
         else ret None
     | _ \<Rightarrow> ret None)"

text \<open>\<open>pageJob\<close> of a later page: a fresh batch, and the cursor the page started from.\<close>

definition later_page_state :: "world \<Rightarrow> claim \<Rightarrow> cursor option \<Rightarrow> walk_state \<Rightarrow> walk_state worker" where
  "later_page_state w c start s =
     bind get_history (\<lambda>h. ret (s\<lparr>wk_landed := wk_landed s + 1, wk_batch := wd_ulid w h,
       wk_job_cursor := (case start of Some k \<Rightarrow> Some k | None \<Rightarrow> job_cursor (cl_job c))\<rparr>))"

definition leave_claim :: "world \<Rightarrow> claim \<Rightarrow> sync_page \<Rightarrow> sync_outcome worker" where
  "leave_claim w c p =
     bind (publish_successors w c p) (\<lambda>_. bind (act w Ev_complete_page_run) (\<lambda>_. complete_claim w))"

fun walk :: "world \<Rightarrow> claim \<Rightarrow> page_context \<Rightarrow> nat \<Rightarrow> walk_state \<Rightarrow> sync_page \<Rightarrow> sync_outcome worker" where
  "walk w c cx k s p =
     bind (prefetch w c k p) (\<lambda>next.
     bind (process_page w c cx s (next \<noteq> None) p) (\<lambda>s'.
     case next of
       None \<Rightarrow> leave_claim w c p
     | Some r \<Rightarrow>
         (case k of
            0 \<Rightarrow> leave_claim w c p
          | Suc k' \<Rightarrow>
              bind (lift_result r) (\<lambda>q.
              bind (lift_result (check_page (pg_next p) q)) (\<lambda>_.
              bind (later_page_state w c (pg_next p) s') (\<lambda>s''. walk w c cx k' s'' q))))))"

declare walk.simps [simp del]

section \<open>Running a claim\<close>

definition probe_connection :: "world \<Rightarrow> connection_health worker" where
  "probe_connection w =
     bind (modify_local (\<lambda>l. l\<lparr>lc_checking := True\<rparr>)) (\<lambda>_.
     bind (connector_operation w (wd_health w) Ev_check_connection) (\<lambda>health.
     bind (modify_local (\<lambda>l. l\<lparr>lc_checking := False\<rparr>)) (\<lambda>_. ret health)))"

definition lock_codes :: "string list" where
  "lock_codes = [''55P03'', ''40P01'']"

definition thrown_pg_code :: "thrown \<Rightarrow> string" where
  "thrown_pg_code e = (case e of Thrown_object (Some k) _ _ \<Rightarrow> k | _ \<Rightarrow> [])"

text \<open>A healthy probe survives a lock conflict of its own health record.\<close>

definition record_probe :: "world \<Rightarrow> connection_health \<Rightarrow> unit worker" where
  "record_probe w health =
     bind (try_p (act w (Ev_record_health (persisted_auth_health health)))) (\<lambda>r.
     case r of
       Inr _ \<Rightarrow> ret ()
     | Inl e \<Rightarrow> if persisted_auth_health health \<noteq> Healthy \<or> thrown_pg_code e \<notin> set lock_codes then raise e else ret ())"

definition require_authorised :: "connection_health \<Rightarrow> unit worker" where
  "require_authorised health =
     (if health = Health_expired \<or> health = Health_revoked
      then raise (Thrown_connector (connector_error AUTHENTICATION_REQUIRED False) (Some (persisted_auth_health health)))
      else ret ())"

definition coordinator_plans :: "world \<Rightarrow> claim \<Rightarrow> connector_stream list \<Rightarrow> phase_plan list option worker" where
  "coordinator_plans w c expected =
     (case backfill_claim c of
        Some b \<Rightarrow> if \<not> text_present (bf_stream b) \<and> expected \<noteq> []
          then bind (registered_backfill_plans w c b expected) (\<lambda>ps. ret (Some ps)) else ret None
      | None \<Rightarrow> ret None)"

text \<open>Up to the live list of streams, by priority.\<close>

definition prepare_claim :: "world \<Rightarrow> claim \<Rightarrow> (phase_plan list option \<times> connector_stream list) worker" where
  "prepare_claim w c =
     bind (act w Ev_load_connection) (\<lambda>_.
     bind (probe_connection w) (\<lambda>health.
     bind (record_probe w health) (\<lambda>_.
     bind (require_authorised health) (\<lambda>_.
     let expected = manifest_backfill_streams (wd_manifest w)
     in bind (when_p (expected \<noteq> []) (fenced_act w Ev_register_streams)) (\<lambda>_.
     bind (coordinator_plans w c expected) (\<lambda>plans.
     bind (when_p (case sweep_claim c of None \<Rightarrow> False | Some r \<Rightarrow> \<not> text_present (rec_stream r)) (act w Ev_register_reconciliation_plan)) (\<lambda>_.
     bind (connector_operation w (wd_streams w) Ev_list_streams) (\<lambda>streams.
     ret (plans, sort_key (\<lambda>s. case strm_priority s of None \<Rightarrow> 100 | Some n \<Rightarrow> n) streams)))))))))"

definition coordinate :: "world \<Rightarrow> claim \<Rightarrow> phase_plan list option \<Rightarrow> connector_stream list \<Rightarrow> sync_outcome worker" where
  "coordinate w c plans streams =
     bind (fan_out w c streams plans) (\<lambda>_.
     bind (act w Ev_extend) (\<lambda>_.
     bind (act w (Ev_complete_coordinator (length streams))) (\<lambda>_. complete_claim w)))"

text \<open>A job that is not to be walked: a phase already applied, a suppressed connector, or a stream
  without a cursor, whose job is replaced by an initial backfill.\<close>

definition retire :: "world \<Rightarrow> nat \<Rightarrow> sync_outcome worker" where
  "retire w n = bind (act w (Ev_complete_coordinator n)) (\<lambda>_. complete_claim w)"

definition missing_cursor_key :: "job_base \<Rightarrow> string \<Rightarrow> string" where
  "missing_cursor_key base stream =
     ''missing-cursor:'' @ job_tenant base @ '':'' @ job_connection base @ '':g'' @ string_of_int (job_generation base) @ '':'' @ stream"

definition replace_by_backfill :: "world \<Rightarrow> claim \<Rightarrow> sync_outcome worker" where
  "replace_by_backfill w c =
     bind get_history (\<lambda>h.
     bind (enqueue w (\<lambda>d. enqueue_initial_backfill (wd_sha256 w) d (target_of (job_base_of c))
       \<lparr>bf_stream = None, bf_range = \<lparr>range_from = iso_string (wd_now w h - 31 * ms_per_day), range_to = iso_string (wd_now w h)\<rparr>,
        bf_cursor = None, bf_phase = Recent, bf_replay = 1, bf_mode = Progressive\<rparr>
       \<lparr>opt_delay = None, opt_key = Some (missing_cursor_key (job_base_of c) (case job_stream (cl_job c) of Some s \<Rightarrow> s | None \<Rightarrow> []))\<rparr>)) (\<lambda>_.
     bind (act w Ev_extend) (\<lambda>_. retire w 1)))"

definition start_walk :: "world \<Rightarrow> claim \<Rightarrow> connector_stream \<Rightarrow> stream_cursor \<Rightarrow> cursor option \<Rightarrow> sync_page \<Rightarrow> tombstone_candidate list \<Rightarrow> sync_outcome worker" where
  "start_walk w c stream persisted resume p cands =
     bind (lift_records w c p) (\<lambda>q.
     bind (lift_result (check_page (job_cursor (cl_job c)) q)) (\<lambda>_.
     bind get_history (\<lambda>h.
     walk w c \<lparr>cx_stream = stream, cx_persisted = persisted, cx_candidates = cands\<rparr>
       (if is_backfill c then BACKFILL_PAGES_PER_CLAIM - 1 else 0)
       \<lparr>wk_landed = 1, wk_batch = (if is_backfill c \<and> resume \<noteq> None then wd_ulid w h else job_batch_id (job_base_of c)),
        wk_job_cursor = (if is_backfill c \<and> resume \<noteq> None then resume else job_cursor (cl_job c)),
        wk_capabilities = None, wk_staged = 0, wk_quarantined = 0\<rparr> q)))"

definition run_stream :: "world \<Rightarrow> claim \<Rightarrow> cursor option \<Rightarrow> connector_stream list \<Rightarrow> sync_outcome worker" where
  "run_stream w c resume streams =
     bind (lift_result (stream_for_job streams (cl_job c))) (\<lambda>stream.
     bind (modify_local (\<lambda>l. l\<lparr>lc_stream := Some stream\<rparr>)) (\<lambda>_.
     bind (if sweep_claim c \<noteq> None then perform (wd_begin_phase w) Ev_begin_phase else ret True) (\<lambda>acquired.
     if \<not> acquired then retire w 0
     else
       bind (if is_backfill c
             then bind (perform (wd_backfill_phase w) Ev_backfill_phase) (\<lambda>ph. modify_local (\<lambda>l. l\<lparr>lc_phase := Some ph\<rparr>))
             else ret ()) (\<lambda>_.
       bind (perform (wd_cursor w (strm_id stream)) (Ev_get_cursor (strm_id stream))) (\<lambda>persisted.
       bind (first_page_of w c persisted resume) (\<lambda>first.
       case first of
         Suppressed \<Rightarrow> retire w 0
       | Missing_cursor \<Rightarrow> replace_by_backfill w c
       | First_page p cands \<Rightarrow> start_walk w c stream persisted resume p cands))))))"

definition defer_claim :: "world \<Rightarrow> string \<Rightarrow> int \<Rightarrow> sync_outcome worker" where
  "defer_claim w reason seconds =
     bind (perform (wd_act w (Ev_defer reason seconds)) (Ev_defer reason seconds)) (\<lambda>_. ret (Retry_scheduled reason True seconds))"

definition run_claim :: "world \<Rightarrow> claim \<Rightarrow> sync_outcome worker" where
  "run_claim w c =
     bind (defer_for_recent w c) (\<lambda>deferred.
     if deferred then defer_claim w ''connection_not_ready'' 90
     else
       bind (perform (wd_already_succeeded w) Ev_begin_run) (\<lambda>done.
       if done then complete_claim w
       else
         bind (if is_backfill c \<and> cl_reads c > 1 then perform (wd_resume_cursor w) Ev_resume_cursor else ret None) (\<lambda>resume.
         bind (perform (wd_permit w) Ev_acquire_permit) (\<lambda>permit.
         bind (modify_local (\<lambda>l. l\<lparr>lc_permit := Some permit\<rparr>)) (\<lambda>_.
         bind (prepare_claim w c) (\<lambda>(plans, streams).
         if \<not> text_present (job_stream (cl_job c)) then coordinate w c plans streams
         else run_stream w c resume streams))))))"

section \<open>The error handler\<close>

definition optional_stream :: "worker_locals \<Rightarrow> bool" where
  "optional_stream l = (case lc_stream l of None \<Rightarrow> False | Some s \<Rightarrow> strm_availability s = Optional_stream)"

definition optional_phase :: "worker_locals \<Rightarrow> bool" where
  "optional_phase l = (case lc_phase l of None \<Rightarrow> False | Some (required, _) \<Rightarrow> \<not> required)"

definition settle_failure :: "world \<Rightarrow> claim \<Rightarrow> sync_failure \<Rightarrow> sync_outcome worker" where
  "settle_failure w c f =
     bind (when_p (case sweep_claim c of None \<Rightarrow> False | Some r \<Rightarrow> text_present (rec_stream r) \<and> (\<not> fail_retryable f \<or> cl_reads c \<ge> 8))
       (ignoring (act w (Ev_block_phase (fail_code f) (fail_retryable f))))) (\<lambda>_.
     bind (perform (wd_retry_or_fail w) (Ev_retry_or_fail (fail_code f) (fail_retryable f) (fail_delay f) 8)) (\<lambda>waits.
     bind (ignoring (act w (Ev_mark_run_failed (fail_code f) (\<not> waits)))) (\<lambda>_.
     ret (if waits then Retry_scheduled (fail_code f) True (fail_delay f) else Failed_outcome (fail_code f) False (fail_delay f)))))"

definition handle_failure :: "world \<Rightarrow> claim \<Rightarrow> thrown \<Rightarrow> worker_locals \<Rightarrow> sync_outcome worker" where
  "handle_failure w c e l =
     bind (case auth_health_for_failure e (lc_checking l) of None \<Rightarrow> ret () | Some a \<Rightarrow> ignoring (act w (Ev_record_health a))) (\<lambda>_.
     let f = sync_failure_of e
     in if fail_code f = ''capability_unavailable'' \<and> sweep_claim c \<noteq> None \<and> optional_stream l then
          bind (act w (Ev_block_phase (fail_code f) (fail_retryable f))) (\<lambda>_. retire w 0)
        else if fail_code f = ''capability_unavailable'' \<and> is_backfill c \<and> text_present (job_stream (cl_job c)) \<and>
                optional_stream l \<and> optional_phase l then
          bind (act w Ev_mark_unavailable) (\<lambda>_. complete_claim w)
        else if fail_code f = ''rate_limited'' \<and> fail_retryable f then
          bind (ignoring (act w (Ev_mark_run_failed (fail_code f) False))) (\<lambda>_. defer_claim w (fail_code f) (fail_delay f))
        else settle_failure w c f)"

text \<open>\<open>try \<dots> catch \<dots> finally\<close>: the permit, once acquired, is released on every way out.\<close>

definition init_locals :: worker_locals where
  "init_locals = \<lparr>lc_permit = None, lc_checking = False, lc_stream = None, lc_phase = None\<rparr>"

definition guarded_run :: "world \<Rightarrow> claim \<Rightarrow> sync_outcome worker" where
  "guarded_run w c =
     bind (try_p (run_claim w c)) (\<lambda>r.
     case r of Inr out \<Rightarrow> ret out | Inl e \<Rightarrow> bind get_local (\<lambda>l. handle_failure w c e l))"

definition process :: "world \<Rightarrow> claim \<Rightarrow> sync_outcome worker" where
  "process w c =
     bind (try_p (guarded_run w c)) (\<lambda>r.
     bind get_local (\<lambda>l.
     bind (case lc_permit l of None \<Rightarrow> ret () | Some p \<Rightarrow> ignoring (act w (Ev_release p))) (\<lambda>_.
     lift_result r)))"

end
