(* ===== verification/Worker_Samples.thy ===== *)
theory Worker_Samples
  imports Sync_Worker
begin

text \<open>
  A concrete environment and a concrete claim, on which the properties of the worker are shown to
  apply: the recent phase of a backfill whose connector returns two pages.
\<close>

definition sample_live_stream :: connector_stream where
  "sample_live_stream = \<lparr>strm_id = ''sales'', strm_domains = [''sales''], strm_strategy = Time_windowed,
     strm_availability = Required_stream, strm_dependencies = [], strm_product_domains = [''sales''], strm_priority = None\<rparr>"

definition sample_base :: job_base where
  "sample_base = \<lparr>job_tenant = ''T'', job_connection = ''C'', job_connector = ''lightspeed-r'', job_account = ''A'',
     job_generation = 1, job_run_id = ''R'', job_batch_id = ''B'', job_requested_at = ''2024-01-02T00:00:00.000Z''\<rparr>"

definition sample_recent :: backfill_fields where
  "sample_recent = \<lparr>bf_stream = Some ''sales'', bf_range = \<lparr>range_from = ''2023-12-01'', range_to = ''2024-01-01''\<rparr>,
     bf_cursor = None, bf_phase = Recent, bf_replay = 1, bf_mode = Progressive\<rparr>"

definition sample_claim :: claim where
  "sample_claim = \<lparr>cl_job = \<lparr>job_base = sample_base, job_kind = Initial_backfill sample_recent\<rparr>, cl_reads = 1\<rparr>"

definition sample_cursor :: cursor where
  "sample_cursor = \<lparr>cursor_value = ''p2'', cursor_updated_at = None\<rparr>"

definition sample_persisted :: stream_cursor where
  "sample_persisted = \<lparr>sc_cursor = None, sc_watermark = None, sc_complete = False, sc_generation = 1, sc_coverage = None\<rparr>"

definition sample_page :: "bool \<Rightarrow> sync_page" where
  "sample_page b = \<lparr>pg_records = [], pg_next = (if b then Some sample_cursor else None), pg_total = None, pg_more = b,
     pg_block = None, pg_coverage = None\<rparr>"

definition sample_fetch :: "fetch \<Rightarrow> sync_page" where
  "sample_fetch f = sample_page (case f of Fetch_initial _ None \<Rightarrow> True | _ \<Rightarrow> False)"

definition sample_world :: world where
  "sample_world =
     \<lparr>wd_act = (\<lambda>_ _. Inr ()), wd_aborted = (\<lambda>_. False), wd_abort_reason = plain_error ''aborted'',
      wd_manifest = None, wd_suppressed = [], wd_version = ''v1'', wd_open_recent = (\<lambda>_. Inr 0),
      wd_already_succeeded = (\<lambda>_. Inr False), wd_resume_cursor = (\<lambda>_. Inr None), wd_permit = (\<lambda>_. Inr ''permit''),
      wd_health = (\<lambda>_. Inr Health_healthy), wd_streams = (\<lambda>_. Inr [sample_live_stream]), wd_cursor = (\<lambda>_ _. Inr sample_persisted),
      wd_begin_phase = (\<lambda>_. Inr True), wd_backfill_phase = (\<lambda>_. Inr (True, None)), wd_fetch = (\<lambda>f _. Inr (sample_fetch f)),
      wd_candidates = (\<lambda>_. Inr []), wd_raw_write = (\<lambda>_. Inr \<lparr>man_run = ''R'', man_batch = ''B2'', man_keys = [''k'']\<rparr>),
      wd_land = (\<lambda>_. Inr \<lparr>land_staged = 3, land_quarantined = [], land_resolved = []\<rparr>),
      wd_snapshot = (\<lambda>_. Inr Snapshot_complete), wd_capabilities = (\<lambda>_. Inr []), wd_enqueue = (\<lambda>_. Inr ''request''),
      wd_next_phase = (\<lambda>_. Inr None), wd_retry_or_fail = (\<lambda>_. Inr True), wd_ulid = (\<lambda>_. ''U''),
      wd_base = (\<lambda>_. \<lparr>new_run_id = ''R2'', new_batch_id = ''B3'', now_iso = ''2024-01-02T00:00:00.000Z''\<rparr>),
      wd_now = (\<lambda>_. 0), wd_date_parse = (\<lambda>_. Some 0), wd_sha256 = (\<lambda>_. ''0'')\<rparr>"

definition sample_run :: "(thrown, sync_outcome) result \<times> worker_locals \<times> event history" where
  "sample_run = process sample_world sample_claim init_locals []"

definition sample_walk :: "(thrown, sync_outcome) result \<times> worker_locals \<times> event history" where
  "sample_walk = start_walk sample_world sample_claim sample_live_stream sample_persisted None (sample_page True) []
     \<lparr>lc_permit = Some ''permit'', lc_checking = False, lc_stream = Some sample_live_stream, lc_phase = Some (True, None)\<rparr> []"

end
