(* ===== verification/Worker_Safety.thy ===== *)
theory Worker_Safety
  imports Worker_Samples
begin

text \<open>
  What the sync worker guarantees, for every environment: a claimed job is settled exactly once and
  the reported outcome is that settlement; every write to the analytical store follows a write
  fence under the permit of the claim, which is released on every way out; and a walk commits its
  pages in order and never completes with a page left that nobody will fetch.
\<close>

section \<open>The calls of the parts\<close>

text \<open>What landing a page may call.\<close>

definition page_call :: "event \<Rightarrow> bool" where
  "page_call ev = (case ev of
     Ev_raw_write _ _ \<Rightarrow> True | Ev_mark_landing _ \<Rightarrow> True | Ev_fence _ \<Rightarrow> True | Ev_land _ _ \<Rightarrow> True | Ev_resolve_quarantine _ \<Rightarrow> True
   | Ev_snapshot _ \<Rightarrow> True | Ev_applications \<Rightarrow> True | Ev_record_page _ _ _ \<Rightarrow> True | Ev_capabilities \<Rightarrow> True
   | Ev_publish_capabilities _ _ _ _ \<Rightarrow> True | Ev_publish_quality _ \<Rightarrow> True | Ev_record_quarantine _ _ \<Rightarrow> True | Ev_extend \<Rightarrow> True
   | Ev_complete_reconciliation \<Rightarrow> True | Ev_enqueue _ \<Rightarrow> True | Ev_rollup _ \<Rightarrow> True | _ \<Rightarrow> False)"

definition settlement :: "event \<Rightarrow> bool" where
  "settlement ev = (case ev of Ev_complete \<Rightarrow> True | Ev_defer _ _ \<Rightarrow> True | Ev_retry_or_fail _ _ _ _ \<Rightarrow> True | _ \<Rightarrow> False)"

definition is_commit :: "event \<Rightarrow> bool" where
  "is_commit ev = (case ev of Ev_commit _ \<Rightarrow> True | _ \<Rightarrow> False)"

definition is_fetch :: "event \<Rightarrow> bool" where
  "is_fetch ev = (case ev of Ev_fetch _ \<Rightarrow> True | _ \<Rightarrow> False)"

lemmas event_kinds = settlement_def is_commit_def is_fetch_def page_call_def

lemma confined_act [confined_intros]: "A ev \<Longrightarrow> confined A (act w ev)"
  by (simp add: act_def confined_perform)

lemma confined_operation [confined_intros]: "A ev \<Longrightarrow> confined A (connector_operation w f ev)"
  by (simp add: connector_operation_def confined_perform)

lemma confined_fence [confined_intros]: "(\<And>p. A (Ev_fence p)) \<Longrightarrow> A ev \<Longrightarrow> confined A (with_write_fence w f ev)"
  unfolding with_write_fence_def by (intro confined_intros)

lemma confined_fenced_act [confined_intros]: "(\<And>p. A (Ev_fence p)) \<Longrightarrow> A ev \<Longrightarrow> confined A (fenced_act w ev)"
  by (simp add: fenced_act_def confined_fence)

lemma confined_enqueue [confined_intros]: "(\<And>r. A (Ev_enqueue r)) \<Longrightarrow> confined A (enqueue w mk)"
  unfolding enqueue_def by (intro confined_intros)

lemma confined_abort [confined_intros]: "confined A (throw_if_aborted w)"
  unfolding throw_if_aborted_def by (intro confined_intros)

lemmas page_parts = land_page_def reconcile_page_def page_capabilities_def publish_page_def finalize_sweep_def
  enqueue_next_reconciliation_phase_def Let_def prod.case_eq_if

lemma confined_land_page: "confined page_call (land_page w c batch p)"
  unfolding page_parts by (intro confined_intros) (simp_all add: page_call_def)

lemma confined_reconcile: "confined page_call (reconcile_page w c p)"
  unfolding page_parts by (intro confined_intros) (simp_all add: page_call_def)

lemma confined_page_capabilities: "confined page_call (page_capabilities w cx cached)"
  unfolding page_parts by (intro confined_intros) (simp_all add: page_call_def)

lemma confined_publish_page: "confined page_call (publish_page w c batch key l caps p)"
  unfolding page_parts by (intro confined_intros) (simp_all add: page_call_def)

lemma confined_finalize: "confined page_call (finalize_sweep w c b p)"
  unfolding page_parts by (intro confined_intros) (simp_all add: page_call_def)

lemmas page_confined = confined_land_page confined_reconcile confined_page_capabilities confined_publish_page confined_finalize

lemma page_confinedI:
  assumes "\<And>ev. page_call ev \<Longrightarrow> A ev"
  shows "confined A (land_page w c batch p)" "confined A (reconcile_page w c p)" "confined A (page_capabilities w cx cached)"
    "confined A (publish_page w c batch key l caps p)" "confined A (finalize_sweep w c b p)"
  by (rule confined_weaken [OF _ assms], rule page_confined, assumption)+

lemma confined_process_page:
  assumes "\<And>ev. page_call ev \<Longrightarrow> A ev" "\<And>pc. A (Ev_commit pc)"
  shows "confined A (process_page w c cx s b p)"
  unfolding process_page_def prod.case_eq_if
  by (intro confined_intros page_confinedI assms) (simp_all add: page_call_def)

lemma confined_prefetch: "(\<And>f. A (Ev_fetch f)) \<Longrightarrow> confined A (prefetch w c k p)"
  unfolding prefetch_def Let_def prod.case_eq_if
  by (intro confined_intros) (auto split: option.splits intro!: confined_intros)

lemma confined_later: "confined A (later_page_state w c start s)"
  unfolding later_page_state_def by (intro confined_intros)

definition successor_call :: "event \<Rightarrow> bool" where
  "successor_call ev = (case ev of Ev_enqueue _ \<Rightarrow> True | Ev_mark_enqueued _ _ _ _ \<Rightarrow> True | Ev_next_phase \<Rightarrow> True | _ \<Rightarrow> False)"

lemma confined_case_kind [confined_intros]:
  "(\<And>b. k = Initial_backfill b \<Longrightarrow> confined A (f b)) \<Longrightarrow> (\<And>i. k = Incremental_sync i \<Longrightarrow> confined A (g i)) \<Longrightarrow>
   (\<And>r. k = Reconciliation_sweep r \<Longrightarrow> confined A (q r)) \<Longrightarrow>
   confined A (case k of Initial_backfill b \<Rightarrow> f b | Incremental_sync i \<Rightarrow> g i | Reconciliation_sweep r \<Rightarrow> q r)"
  by (cases k) simp_all

lemma confined_successor_call: "confined successor_call (publish_successors w c p)"
  unfolding publish_successors_def enqueue_continuation_def enqueue_next_backfill_phase_def
  by (intro confined_intros) (simp_all add: successor_call_def)

lemma confined_successors: "(\<And>ev. successor_call ev \<Longrightarrow> A ev) \<Longrightarrow> confined A (publish_successors w c p)"
  by (rule confined_weaken [OF confined_successor_call])

section \<open>Every claim is settled exactly once\<close>

definition reported :: "sync_outcome \<Rightarrow> event \<Rightarrow> bool" where
  "reported out ev = (case out of
     Completed \<Rightarrow> ev = Ev_complete
   | Retry_scheduled f r d \<Rightarrow> r \<and> (ev = Ev_defer f d \<or> (\<exists>r'. ev = Ev_retry_or_fail f r' d 8))
   | Failed_outcome f r d \<Rightarrow> \<not> r \<and> (\<exists>r'. ev = Ev_retry_or_fail f r' d 8))"

abbreviation settles_claim :: "sync_outcome worker \<Rightarrow> bool" where
  "settles_claim m \<equiv> settles settlement reported m"

lemma settles_complete: "settles_claim (complete_claim w)"
  unfolding complete_claim_def by (rule settles_last) (simp_all add: settlement_def reported_def)

lemma settles_retire: "settles_claim (retire w n)"
  unfolding retire_def by (intro settles_bind confined_intros settles_complete) (simp add: settlement_def)

lemma settles_defer: "settles_claim (defer_claim w c n)"
  unfolding defer_claim_def by (rule settles_last) (simp_all add: settlement_def reported_def)

lemma page_call_not_settlement: "page_call ev \<Longrightarrow> \<not> settlement ev"
  by (cases ev) (simp_all add: event_kinds)

lemma successor_call_not_settlement: "successor_call ev \<Longrightarrow> \<not> settlement ev"
  by (cases ev) (simp_all add: event_kinds successor_call_def)

lemma confined_complete_page_run: "confined (\<lambda>ev. \<not> settlement ev) (act w Ev_complete_page_run)"
  by (rule confined_act) (simp add: settlement_def)

lemma settles_leave: "settles_claim (leave_claim w c p)"
  unfolding leave_claim_def
  by (intro settles_bind settles_complete confined_complete_page_run confined_successors successor_call_not_settlement)

lemma unsettled_page: "confined (\<lambda>ev. \<not> settlement ev) (process_page w c cx s b p)"
  by (rule confined_process_page) (auto simp: page_call_not_settlement, simp add: settlement_def)

lemma unsettled_prefetch: "confined (\<lambda>ev. \<not> settlement ev) (prefetch w c k p)"
  by (rule confined_prefetch) (simp add: settlement_def)

lemma settles_walk: "settles_claim (walk w c cx k s p)"
proof (induction k arbitrary: s p)
  case 0
  show ?case
    unfolding walk.simps [of w c cx 0] nat.case
    by (intro settles_bind settles_option settles_leave unsettled_prefetch unsettled_page)
next
  case (Suc k)
  show ?case
    unfolding walk.simps [of w c cx "Suc k"] nat.case
    by (intro settles_bind settles_option settles_leave unsettled_prefetch unsettled_page confined_lift confined_later Suc)
qed

text \<open>What preparing a claim, choosing its plan and fetching its first page may call.\<close>

definition setup_call :: "event \<Rightarrow> bool" where
  "setup_call ev = (case ev of
     Ev_load_connection \<Rightarrow> True | Ev_check_connection \<Rightarrow> True | Ev_record_health _ \<Rightarrow> True | Ev_fence _ \<Rightarrow> True
   | Ev_register_streams \<Rightarrow> True | Ev_get_cursor _ \<Rightarrow> True | Ev_register_backfill_plan _ \<Rightarrow> True
   | Ev_register_reconciliation_plan \<Rightarrow> True | Ev_list_streams \<Rightarrow> True | Ev_enqueue _ \<Rightarrow> True | Ev_mark_enqueued _ _ _ _ \<Rightarrow> True
   | Ev_fetch _ \<Rightarrow> True | Ev_candidates _ \<Rightarrow> True | Ev_backfill_phase \<Rightarrow> True | Ev_begin_phase \<Rightarrow> True | Ev_extend \<Rightarrow> True
   | Ev_open_recent \<Rightarrow> True | Ev_resume_cursor \<Rightarrow> True | _ \<Rightarrow> False)"

lemma setup_call_not_settlement: "setup_call ev \<Longrightarrow> \<not> settlement ev"
  by (cases ev) (simp_all add: setup_call_def settlement_def)

lemma confined_prepare_plans: "confined setup_call (prepare_backfill_plans w c b ss)"
  by (induction ss) (auto intro!: confined_intros simp: setup_call_def)

lemma confined_registered: "confined setup_call (registered_backfill_plans w c b ss)"
  unfolding registered_backfill_plans_def by (intro confined_intros confined_prepare_plans) (simp add: setup_call_def)

lemma confined_fan_out: "confined setup_call (fan_out w c streams plans)"
  unfolding fan_out_def fan_out_plan_def
  by (intro confined_intros confined_registered) (simp_all add: setup_call_def)

lemma confined_prepare_claim: "confined setup_call (prepare_claim w c)"
  unfolding prepare_claim_def probe_connection_def record_probe_def require_authorised_def coordinator_plans_def Let_def
  by (intro confined_intros confined_registered) (simp_all add: setup_call_def)

lemma confined_first_page: "confined setup_call (first_page_of w c persisted resume)"
  unfolding first_page_of_def backfill_first_page_def incremental_first_page_def sweep_first_page_def Let_def
  by (intro confined_intros) (simp_all add: setup_call_def)

lemma confined_lift_records: "confined A (lift_records w c p)"
  unfolding lift_records_def by (intro confined_intros)

lemma confined_defer_for_recent: "confined setup_call (defer_for_recent w c)"
  unfolding defer_for_recent_def by (intro confined_intros) (simp add: setup_call_def)

lemmas setup_confined = confined_prepare_claim confined_first_page confined_fan_out confined_defer_for_recent

lemma unsettled_setup:
  "confined (\<lambda>ev. \<not> settlement ev) (prepare_claim w c)" "confined (\<lambda>ev. \<not> settlement ev) (first_page_of w c persisted resume)"
  "confined (\<lambda>ev. \<not> settlement ev) (fan_out w c streams plans)" "confined (\<lambda>ev. \<not> settlement ev) (defer_for_recent w c)"
  by (rule confined_weaken [OF _ setup_call_not_settlement], rule setup_confined, assumption)+

lemma settles_coordinate: "settles_claim (coordinate w c plans streams)"
  unfolding coordinate_def
  by (intro settles_bind unsettled_setup settles_complete confined_act) (simp_all add: settlement_def)

lemma settles_replace: "settles_claim (replace_by_backfill w c)"
  unfolding replace_by_backfill_def
  by (intro settles_bind settles_retire confined_intros) (simp_all add: settlement_def)

lemma settles_start_walk: "settles_claim (start_walk w c st ps rs p cs)"
  unfolding start_walk_def by (intro settles_bind settles_walk confined_lift_records confined_intros)

lemma settles_first [settles_intros]:
  "(\<And>p cs. f = First_page p cs \<Longrightarrow> settles S R (a p cs)) \<Longrightarrow> settles S R b \<Longrightarrow> settles S R d \<Longrightarrow>
   settles S R (case f of First_page p cs \<Rightarrow> a p cs | Suppressed \<Rightarrow> b | Missing_cursor \<Rightarrow> d)"
  by (cases f) simp_all

lemma settles_run_stream: "settles_claim (run_stream w c resume streams)"
  unfolding run_stream_def
  by (intro settles_bind settles_if settles_first settles_retire settles_replace settles_start_walk unsettled_setup confined_intros)
    (simp_all add: settlement_def)

lemma settles_run_claim: "settles_claim (run_claim w c)"
  unfolding run_claim_def prod.case_eq_if
  by (intro settles_bind settles_if settles_defer settles_complete settles_coordinate settles_run_stream unsettled_setup confined_intros)
    (simp_all add: settlement_def)

lemma settles_settle_failure: "settles_claim (settle_failure w c f)"
  unfolding settle_failure_def
proof (rule settles_bind)
  show "confined (\<lambda>ev. \<not> settlement ev)
    (when_p (case sweep_claim c of None \<Rightarrow> False | Some r \<Rightarrow> text_present (rec_stream r) \<and> (\<not> fail_retryable f \<or> 8 \<le> cl_reads c))
      (ignoring (act w (Ev_block_phase (fail_code f) (fail_retryable f)))))"
    by (intro confined_intros) (simp add: settlement_def)
  show "settles_claim (bind (perform (wd_retry_or_fail w) (Ev_retry_or_fail (fail_code f) (fail_retryable f) (fail_delay f) 8)) (\<lambda>waits.
     bind (ignoring (act w (Ev_mark_run_failed (fail_code f) (\<not> waits)))) (\<lambda>_.
     ret (if waits then Retry_scheduled (fail_code f) True (fail_delay f) else Failed_outcome (fail_code f) False (fail_delay f)))))" for x :: unit
  proof (rule settles_then_ignoring)
    show "confined (\<lambda>ev. \<not> settlement ev) (act w (Ev_mark_run_failed (fail_code f) (\<not> waits)))" for waits
      by (intro confined_intros) (simp add: settlement_def)
  qed (simp_all add: settlement_def reported_def)
qed

lemma settles_handle_failure: "settles_claim (handle_failure w c e l)"
  unfolding handle_failure_def Let_def
  by (intro settles_bind settles_if settles_retire settles_complete settles_defer settles_settle_failure confined_intros)
    (simp_all add: settlement_def)

lemma settles_guarded_run: "settles_claim (guarded_run w c)"
  unfolding guarded_run_def
  by (rule settles_catch [OF settles_run_claim]) (intro settles_bind settles_handle_failure confined_intros)

lemma settles_process: "settles_claim (process w c)"
  unfolding process_def
proof (rule settles_finally [OF settles_guarded_run])
  fix l :: worker_locals
  show "confined (\<lambda>ev. \<not> settlement ev) (case lc_permit l of None \<Rightarrow> ret () | Some p \<Rightarrow> ignoring (act w (Ev_release p)))"
    by (intro confined_intros) (simp add: settlement_def)
  show "total (case lc_permit l of None \<Rightarrow> ret () | Some p \<Rightarrow> ignoring (act w (Ev_release p)))"
    by (cases "lc_permit l") (simp_all add: total_ret total_ignoring)
qed

text \<open>C1: whatever the queue, the stores, raw storage and the connector answer,
  and whatever throws where, processing a claim makes exactly one successful settling call when it
  returns (complete, defer or retry-or-fail), and it is the one the outcome reports, with the code
  and delay it reports; when it throws it made none, so the message becomes visible again.\<close>

theorem claims_settled_once:
  "case process w c init_locals h of
     (Inr out, _, d) \<Rightarrow> \<exists>ev. settled settlement d = [ev] \<and> reported out ev
   | (Inl e, _, d) \<Rightarrow> settled settlement d = []"
proof -
  obtain r l d where p: "process w c init_locals h = (r, l, d)" by (metis prod.collapse)
  from settlesD [OF settles_process p] p show ?thesis by (cases r) simp_all
qed

section \<open>Writes are fenced, and the permit is released\<close>

definition is_write :: "event \<Rightarrow> bool" where
  "is_write ev = (case ev of
     Ev_register_streams \<Rightarrow> True | Ev_candidates _ \<Rightarrow> True | Ev_land _ _ \<Rightarrow> True | Ev_snapshot _ \<Rightarrow> True | Ev_applications \<Rightarrow> True
   | Ev_record_page _ _ _ \<Rightarrow> True | Ev_publish_capabilities _ _ _ _ \<Rightarrow> True | Ev_publish_quality _ \<Rightarrow> True
   | Ev_complete_reconciliation \<Rightarrow> True | Ev_rollup _ \<Rightarrow> True | _ \<Rightarrow> False)"

definition is_fence :: "event \<Rightarrow> bool" where
  "is_fence ev = (case ev of Ev_fence _ \<Rightarrow> True | _ \<Rightarrow> False)"

abbreviation fences :: "'a worker \<Rightarrow> bool" where
  "fences m \<equiv> guarded is_write is_fence m"

lemma fences_fence [guarded_intros]: "fences (with_write_fence w f ev)"
  unfolding with_write_fence_def
  by (intro guarded_intros guarded_fence) (simp_all add: is_fence_def is_write_def)

lemma fences_fenced_act [guarded_intros]: "fences (fenced_act w ev)"
  by (simp add: fenced_act_def fences_fence)

lemma fences_act [guarded_intros]: "\<not> is_write ev \<Longrightarrow> fences (act w ev)"
  by (simp add: act_def guarded_perform)

lemma fences_operation [guarded_intros]: "\<not> is_write ev \<Longrightarrow> fences (connector_operation w f ev)"
  by (simp add: connector_operation_def guarded_perform)

lemma fences_enqueue [guarded_intros]: "fences (enqueue w mk)"
  unfolding enqueue_def by (intro guarded_intros) (simp add: is_write_def)

lemma fences_abort [guarded_intros]: "fences (throw_if_aborted w)"
  unfolding throw_if_aborted_def by (intro guarded_intros)

lemma fences_kind [guarded_intros]:
  "(\<And>b. k = Initial_backfill b \<Longrightarrow> fences (f b)) \<Longrightarrow> (\<And>i. k = Incremental_sync i \<Longrightarrow> fences (g i)) \<Longrightarrow>
   (\<And>r. k = Reconciliation_sweep r \<Longrightarrow> fences (q r)) \<Longrightarrow>
   fences (case k of Initial_backfill b \<Rightarrow> f b | Incremental_sync i \<Rightarrow> g i | Reconciliation_sweep r \<Rightarrow> q r)"
  by (cases k) simp_all

lemma fences_first [guarded_intros]:
  "(\<And>p cs. f = First_page p cs \<Longrightarrow> fences (a p cs)) \<Longrightarrow> fences b \<Longrightarrow> fences d \<Longrightarrow>
   fences (case f of First_page p cs \<Rightarrow> a p cs | Suppressed \<Rightarrow> b | Missing_cursor \<Rightarrow> d)"
  by (cases f) simp_all

lemma fences_process_page: "fences (process_page w c cx s b p)"
  unfolding process_page_def page_parts by (intro guarded_intros) (simp_all add: is_write_def)

lemma fences_prefetch: "fences (prefetch w c k p)"
  by (rule guarded_within, rule confined_prefetch) (simp add: is_write_def)

lemma fences_leave: "fences (leave_claim w c p)"
  unfolding leave_claim_def complete_claim_def publish_successors_def enqueue_continuation_def enqueue_next_backfill_phase_def
  by (intro guarded_intros) (simp_all add: is_write_def)

lemma fences_later: "fences (later_page_state w c start s)"
  unfolding later_page_state_def by (intro guarded_intros)

lemma fences_walk: "fences (walk w c cx k s p)"
proof (induction k arbitrary: s p)
  case 0
  show ?case unfolding walk.simps [of w c cx 0] nat.case
    by (intro guarded_bind guarded_option fences_prefetch fences_process_page fences_leave)
next
  case (Suc k)
  show ?case unfolding walk.simps [of w c cx "Suc k"] nat.case
    by (intro guarded_bind guarded_option fences_prefetch fences_process_page fences_leave fences_later guarded_simple Suc)
qed

lemma fences_prepare_plans: "fences (prepare_backfill_plans w c b ss)"
  by (induction ss) (auto intro!: guarded_intros simp: is_write_def)

lemma fences_registered: "fences (registered_backfill_plans w c b ss)"
  unfolding registered_backfill_plans_def by (intro guarded_intros fences_prepare_plans) (simp add: is_write_def)

lemma fences_prepare_claim: "fences (prepare_claim w c)"
  unfolding prepare_claim_def probe_connection_def record_probe_def require_authorised_def coordinator_plans_def Let_def
  by (intro guarded_intros fences_registered) (simp_all add: is_write_def)

lemma fences_first_page: "fences (first_page_of w c persisted resume)"
  unfolding first_page_of_def backfill_first_page_def incremental_first_page_def sweep_first_page_def Let_def
  by (intro guarded_intros) (simp_all add: is_write_def)

lemma fences_lift_records: "fences (lift_records w c p)"
  by (rule guarded_within, rule confined_lift_records)

lemmas exit_parts = complete_claim_def retire_def coordinate_def replace_by_backfill_def defer_claim_def defer_for_recent_def
  fan_out_def fan_out_plan_def

lemma fences_exits:
  "fences (complete_claim w)" "fences (retire w n)" "fences (coordinate w c plans streams)" "fences (replace_by_backfill w c)"
  "fences (defer_claim w k secs)" "fences (defer_for_recent w c)"
  unfolding exit_parts by (intro guarded_intros fences_registered; simp add: is_write_def)+

lemma fences_run_claim: "fences (run_claim w c)"
  unfolding run_claim_def run_stream_def start_walk_def prod.case_eq_if
  by (intro guarded_intros fences_exits fences_prepare_claim fences_first_page fences_lift_records fences_walk)
    (simp_all add: is_write_def)

lemma fences_handle_failure: "fences (handle_failure w c e l)"
  unfolding handle_failure_def settle_failure_def Let_def
  by (intro guarded_intros fences_exits) (simp_all add: is_write_def)

lemma fences_process: "fences (process w c)"
  unfolding process_def guarded_run_def
  by (intro guarded_intros fences_run_claim fences_handle_failure) (simp_all add: is_write_def)

text \<open>\<open>keeps m\<close>: \<open>m\<close> leaves the permit variable alone, its fences name that permit, and it neither
  acquires nor releases one.\<close>

definition permit_call :: "string option \<Rightarrow> event \<Rightarrow> bool" where
  "permit_call p ev = (case ev of Ev_fence q \<Rightarrow> p = Some q | Ev_acquire_permit \<Rightarrow> False | Ev_release _ \<Rightarrow> False | _ \<Rightarrow> True)"

definition keeps :: "'a worker \<Rightarrow> bool" where
  "keeps m \<longleftrightarrow> (\<forall>l h. lc_permit (fst (snd (m l h))) = lc_permit l \<and>
     (\<forall>e\<in>set (snd (snd (m l h))). permit_call (lc_permit l) (fst e)))"

named_theorems keeps_intros

lemma keepsD: "keeps m \<Longrightarrow> m l h = (r, l', d) \<Longrightarrow> lc_permit l' = lc_permit l \<and> (\<forall>e\<in>set d. permit_call (lc_permit l) (fst e))"
  unfolding keeps_def by (metis fst_conv snd_conv)

lemma keeps_bind [keeps_intros]:
  assumes "keeps m" "\<And>x. keeps (f x)"
  shows "keeps (bind m f)"
  unfolding keeps_def
proof (intro allI)
  fix l h
  obtain r l' d where m: "m l h = (r, l', d)" by (metis prod.collapse)
  note km = keepsD [OF assms(1) m]
  show "lc_permit (fst (snd (bind m f l h))) = lc_permit l \<and> (\<forall>e\<in>set (snd (snd (bind m f l h))). permit_call (lc_permit l) (fst e))"
  proof (cases r)
    case (Inl e)
    with km m show ?thesis by (simp add: bind_def)
  next
    case (Inr x)
    obtain r' l'' d' where f: "f x l' (h @ d) = (r', l'', d')" by (metis prod.collapse)
    with keepsD [OF assms(2) f] km m Inr show ?thesis by (simp add: bind_def ball_Un)
  qed
qed

lemma keeps_perform [keeps_intros]: "(\<And>p. permit_call p ev) \<Longrightarrow> keeps (perform f ev)"
  by (auto simp: keeps_def perform_def split: sum.splits)

lemma keeps_simple [keeps_intros]: "keeps (ret x)" "keeps (raise e)" "keeps get_local" "keeps get_history" "keeps (lift_result r)"
  by (cases r; simp add: keeps_def ret_def raise_def get_local_def get_history_def lift_result_def)+

lemma keeps_modify [keeps_intros]: "(\<And>l. lc_permit (f l) = lc_permit l) \<Longrightarrow> keeps (modify_local f)"
  by (simp add: keeps_def modify_local_def)

lemma keeps_try [keeps_intros]: "keeps m \<Longrightarrow> keeps (try_p m)"
proof -
  assume k: "keeps m"
  have "fst (snd (try_p m l h)) = fst (snd (m l h))" for l h by (simp add: try_p_def split: prod.splits)
  with k show ?thesis by (simp add: keeps_def)
qed

lemma keeps_ignoring [keeps_intros]: "keeps m \<Longrightarrow> keeps (ignoring m)"
  unfolding ignoring_def by (intro keeps_intros)

lemma keeps_when [keeps_intros]: "(b \<Longrightarrow> keeps m) \<Longrightarrow> keeps (when_p b m)"
  by (simp add: when_p_def keeps_simple)

lemma keeps_if [keeps_intros]: "(b \<Longrightarrow> keeps m) \<Longrightarrow> (\<not> b \<Longrightarrow> keeps n) \<Longrightarrow> keeps (if b then m else n)"
  by simp

lemma keeps_for_each [keeps_intros]: "(\<And>x. keeps (f x)) \<Longrightarrow> keeps (for_each f xs)"
  by (induction xs) (simp_all add: keeps_simple keeps_bind)

lemma keeps_option [keeps_intros]:
  "(x = None \<Longrightarrow> keeps m) \<Longrightarrow> (\<And>y. x = Some y \<Longrightarrow> keeps (f y)) \<Longrightarrow> keeps (case x of None \<Rightarrow> m | Some y \<Rightarrow> f y)"
  by (cases x) simp_all

lemma keeps_sum [keeps_intros]:
  "(\<And>y. x = Inl y \<Longrightarrow> keeps (f y)) \<Longrightarrow> (\<And>y. x = Inr y \<Longrightarrow> keeps (g y)) \<Longrightarrow> keeps (case x of Inl y \<Rightarrow> f y | Inr y \<Rightarrow> g y)"
  by (cases x) simp_all

lemma keeps_kind [keeps_intros]:
  "(\<And>b. k = Initial_backfill b \<Longrightarrow> keeps (f b)) \<Longrightarrow> (\<And>i. k = Incremental_sync i \<Longrightarrow> keeps (g i)) \<Longrightarrow>
   (\<And>r. k = Reconciliation_sweep r \<Longrightarrow> keeps (q r)) \<Longrightarrow>
   keeps (case k of Initial_backfill b \<Rightarrow> f b | Incremental_sync i \<Rightarrow> g i | Reconciliation_sweep r \<Rightarrow> q r)"
  by (cases k) simp_all

lemma keeps_first [keeps_intros]:
  "(\<And>p cs. f = First_page p cs \<Longrightarrow> keeps (a p cs)) \<Longrightarrow> keeps b \<Longrightarrow> keeps d \<Longrightarrow>
   keeps (case f of First_page p cs \<Rightarrow> a p cs | Suppressed \<Rightarrow> b | Missing_cursor \<Rightarrow> d)"
  by (cases f) simp_all

lemma keeps_act [keeps_intros]: "(\<And>p. permit_call p ev) \<Longrightarrow> keeps (act w ev)"
  by (simp add: act_def keeps_perform)

lemma keeps_operation [keeps_intros]: "(\<And>p. permit_call p ev) \<Longrightarrow> keeps (connector_operation w f ev)"
  by (simp add: connector_operation_def keeps_perform)

lemma keeps_fence [keeps_intros]: "(\<And>p. permit_call p ev) \<Longrightarrow> keeps (with_write_fence w f ev)"
  by (auto simp: keeps_def with_write_fence_def bind_def get_local_def perform_def raise_def permit_call_def
      split: option.splits sum.splits)

lemma keeps_fenced_act [keeps_intros]: "(\<And>p. permit_call p ev) \<Longrightarrow> keeps (fenced_act w ev)"
  by (simp add: fenced_act_def keeps_fence)

lemma keeps_enqueue [keeps_intros]: "keeps (enqueue w mk)"
  unfolding enqueue_def by (intro keeps_intros) (simp add: permit_call_def)

lemma keeps_abort [keeps_intros]: "keeps (throw_if_aborted w)"
  unfolding throw_if_aborted_def by (intro keeps_intros)

lemma keeps_process_page: "keeps (process_page w c cx s b p)"
  unfolding process_page_def page_parts by (intro keeps_intros) (simp_all add: permit_call_def)

lemma keeps_prefetch: "keeps (prefetch w c k p)"
  unfolding prefetch_def Let_def prod.case_eq_if
  by (intro keeps_intros) (auto split: option.splits intro!: keeps_intros simp: permit_call_def)

lemma keeps_leave: "keeps (leave_claim w c p)"
  unfolding leave_claim_def complete_claim_def publish_successors_def enqueue_continuation_def enqueue_next_backfill_phase_def
  by (intro keeps_intros) (simp_all add: permit_call_def)

lemma keeps_later: "keeps (later_page_state w c start s)"
  unfolding later_page_state_def by (intro keeps_intros)

lemma keeps_walk: "keeps (walk w c cx k s p)"
proof (induction k arbitrary: s p)
  case 0
  show ?case unfolding walk.simps [of w c cx 0] nat.case
    by (intro keeps_bind keeps_option keeps_prefetch keeps_process_page keeps_leave)
next
  case (Suc k)
  show ?case unfolding walk.simps [of w c cx "Suc k"] nat.case
    by (intro keeps_bind keeps_option keeps_prefetch keeps_process_page keeps_leave keeps_later keeps_simple Suc)
qed

lemma keeps_prepare_plans: "keeps (prepare_backfill_plans w c b ss)"
  by (induction ss) (auto intro!: keeps_intros simp: permit_call_def)

lemma keeps_registered: "keeps (registered_backfill_plans w c b ss)"
  unfolding registered_backfill_plans_def by (intro keeps_intros keeps_prepare_plans) (simp add: permit_call_def)

lemma keeps_prepare_claim: "keeps (prepare_claim w c)"
  unfolding prepare_claim_def probe_connection_def record_probe_def require_authorised_def coordinator_plans_def Let_def
  by (intro keeps_intros keeps_registered) (simp_all add: permit_call_def)

lemma keeps_first_page: "keeps (first_page_of w c persisted resume)"
  unfolding first_page_of_def backfill_first_page_def incremental_first_page_def sweep_first_page_def Let_def
  by (intro keeps_intros) (simp_all add: permit_call_def)

lemma keeps_lift_records: "keeps (lift_records w c p)"
  unfolding lift_records_def by (intro keeps_intros)

lemma keeps_exits:
  "keeps (complete_claim w)" "keeps (retire w n)" "keeps (coordinate w c plans streams)" "keeps (replace_by_backfill w c)"
  "keeps (defer_claim w k secs)" "keeps (defer_for_recent w c)"
  unfolding exit_parts by (intro keeps_intros keeps_registered; simp add: permit_call_def)+

lemma keeps_run_stream: "keeps (run_stream w c resume streams)"
  unfolding run_stream_def start_walk_def
  by (intro keeps_intros keeps_exits keeps_first_page keeps_lift_records keeps_walk) (simp_all add: permit_call_def)

lemma keeps_handle_failure: "keeps (handle_failure w c e l)"
  unfolding handle_failure_def settle_failure_def Let_def
  by (intro keeps_intros keeps_exits) (simp_all add: permit_call_def)

text \<open>The whole of \<open>guarded_run\<close>, from fresh locals: no permit, no fence; or the one acquired.\<close>

definition permit_history :: "string option \<Rightarrow> event history \<Rightarrow> bool" where
  "permit_history p d \<longleftrightarrow> (\<forall>e\<in>set d. \<forall>q. fst e = Ev_fence q \<longrightarrow> p = Some q) \<and> (\<forall>e\<in>set d. \<forall>q. fst e \<noteq> Ev_release q) \<and>
     (p \<noteq> None \<longrightarrow> (Ev_acquire_permit, True) \<in> set d)"

lemma keeps_history: "keeps m \<Longrightarrow> m l h = (r, l', d) \<Longrightarrow> permit_history p d0 \<Longrightarrow> lc_permit l = p \<Longrightarrow>
    lc_permit l' = p \<and> permit_history p (d0 @ d)"
  by (drule (1) keepsD) (force simp: permit_history_def permit_call_def)

lemma bind_cases:
  assumes "bind m f l h = (r, l', d)"
  obtains e where "m l h = (Inl e, l', d)" "r = Inl e"
  | x l1 d1 d2 where "m l h = (Inr x, l1, d1)" "f x l1 (h @ d1) = (r, l', d2)" "d = d1 @ d2"
  using assms by (auto simp: bind_def split: prod.splits sum.splits)

lemma run_claim_permit:
  assumes "run_claim w c l h = (r, l', d)" "lc_permit l = None"
  shows "permit_history (lc_permit l') d"
  using assms(1) unfolding run_claim_def
proof (cases rule: bind_cases)
  case (1 e)
  have "keeps (defer_for_recent w c)" by (rule keeps_exits)
  from keeps_history [OF this 1(1), of None "[]"] assms(2) show ?thesis by (simp add: permit_history_def)
next
  case A: (2 deferred l1 d1 d2)
  have k1: "keeps (defer_for_recent w c)" by (rule keeps_exits)
  from keeps_history [OF k1 A(1), of None "[]"] assms(2)
  have p1: "lc_permit l1 = None" "permit_history None d1" by (simp_all add: permit_history_def)
  show ?thesis
  proof (cases deferred)
    case True
    have "keeps (defer_claim w ''connection_not_ready'' 90)" by (rule keeps_exits)
    from keeps_history [OF this _ p1(2) p1(1)] A True show ?thesis by auto
  next
    case False
    let ?start = "perform (wd_already_succeeded w) Ev_begin_run :: bool worker"
    have k2: "keeps ?start" by (intro keeps_intros) (simp add: permit_call_def)
    from A(2) False have rest: "bind ?start (\<lambda>done. if done then complete_claim w
       else bind (if is_backfill c \<and> 1 < cl_reads c then perform (wd_resume_cursor w) Ev_resume_cursor else ret None) (\<lambda>resume.
         bind (perform (wd_permit w) Ev_acquire_permit) (\<lambda>permit.
         bind (modify_local (\<lambda>l. l\<lparr>lc_permit := Some permit\<rparr>)) (\<lambda>_.
         bind (prepare_claim w c) (\<lambda>(plans, streams).
         if \<not> text_present (job_stream (cl_job c)) then coordinate w c plans streams
         else run_stream w c resume streams))))) l1 (h @ d1) = (r, l', d2)" by simp
    from rest show ?thesis
    proof (cases rule: bind_cases)
      case (1 e)
      from keeps_history [OF k2 1(1) p1(2) p1(1)] A(3) show ?thesis by simp
    next
      case B: (2 finished l2 d3 d4)
      from keeps_history [OF k2 B(1) p1(2) p1(1)] have p2: "lc_permit l2 = None" "permit_history None (d1 @ d3)" by simp_all
      show ?thesis
      proof (cases finished)
        case True
        have "keeps (complete_claim w)" by (rule keeps_exits)
        from keeps_history [OF this _ p2(2) p2(1)] B True A(3) show ?thesis by auto
      next
        case False
        let ?res = "if is_backfill c \<and> 1 < cl_reads c then perform (wd_resume_cursor w) Ev_resume_cursor else ret None :: cursor option worker"
        have k3: "keeps ?res" by (intro keeps_intros) (simp add: permit_call_def)
        from B(2) False show ?thesis
          unfolding if_not_P [OF False]
        proof (cases rule: bind_cases)
          case (1 e)
          from keeps_history [OF k3 1(1) p2(2) p2(1)] A(3) B(3) show ?thesis by simp
        next
          case C: (2 resume l3 d5 d6)
          from keeps_history [OF k3 C(1) p2(2) p2(1)] have p3: "lc_permit l3 = None" "permit_history None (d1 @ d3 @ d5)" by simp_all
          from C(2) show ?thesis
          proof (cases rule: bind_cases)
            case (1 e)
            then have "l' = l3" "d6 = [(Ev_acquire_permit, False)]" by (auto simp: perform_def split: sum.splits)
            with p3 A(3) B(3) C(3) show ?thesis by (simp add: permit_history_def)
          next
            case D: (2 permit l4 d7 d8)
            then have l4: "l4 = l3" "d7 = [(Ev_acquire_permit, True)]" by (auto simp: perform_def split: sum.splits)
            let ?go = "bind (prepare_claim w c) (\<lambda>(plans, streams).
               if \<not> text_present (job_stream (cl_job c)) then coordinate w c plans streams else run_stream w c resume streams)"
            have k4: "keeps ?go" unfolding prod.case_eq_if
              by (intro keeps_bind keeps_if keeps_prepare_claim keeps_exits keeps_run_stream)
            from D(2) have go: "?go (l4\<lparr>lc_permit := Some permit\<rparr>) (h @ d1 @ d3 @ d5 @ d7) = (r, l', d8)"
              by (simp add: bind_def [of "modify_local _"] modify_local_def split: prod.splits)
            have "permit_history (Some permit) (d1 @ d3 @ d5 @ d7)"
              using p3(2) l4 by (auto simp: permit_history_def)
            from keeps_history [OF k4 go this] A(3) B(3) C(3) D(3) show ?thesis by simp
          qed
        qed
      qed
    qed
  qed
qed

text \<open>C3: every call that writes to the analytical store directly
  follows a successful write fence. A claim that never acquired a permit makes no such call; one
  that did fences every write with that very permit and, whether it returns or throws, ends by
  releasing it, and by releasing nothing else.\<close>

theorem writes_fenced_permit_released:
  assumes "process w c init_locals h = (r, l, d)"
  shows "fenced is_write is_fence False d \<and>
    (case lc_permit l of
       None \<Rightarrow> \<forall>e\<in>set d. \<not> is_write (fst e) \<and> \<not> is_fence (fst e)
     | Some p \<Rightarrow> \<exists>d' ok. d = d' @ [(Ev_release p, ok)] \<and> (Ev_acquire_permit, True) \<in> set d' \<and>
         (\<forall>e\<in>set d'. \<forall>q. fst e = Ev_fence q \<longrightarrow> q = p) \<and> (\<forall>e\<in>set d'. \<forall>q. fst e \<noteq> Ev_release q))"
proof -
  have f: "fenced is_write is_fence False d"
    using fences_process [of w c] assms unfolding guarded_def by (metis snd_conv)
  obtain r1 l1 d1 where g: "guarded_run w c init_locals h = (r1, l1, d1)" by (metis prod.collapse)
  have hist: "permit_history (lc_permit l1) d1"
  proof -
    obtain r0 l0 d0 where r0: "run_claim w c init_locals h = (r0, l0, d0)" by (metis prod.collapse)
    have p0: "permit_history (lc_permit l0) d0" by (rule run_claim_permit [OF r0]) (simp add: init_locals_def)
    show ?thesis
    proof (cases r0)
      case (Inr out)
      with g r0 p0 show ?thesis by (simp add: guarded_run_def bind_def try_p_def ret_def)
    next
      case (Inl e)
      obtain r2 l2 d2 where h2: "handle_failure w c e l0 l0 (h @ d0) = (r2, l2, d2)" by (metis prod.collapse)
      from keeps_history [OF keeps_handle_failure h2 p0 refl] g r0 Inl h2 show ?thesis
        by (simp add: guarded_run_def bind_def try_p_def get_local_def)
    qed
  qed
  show ?thesis
  proof (cases "lc_permit l1")
    case None
    then have "l = l1" "d = d1"
      using assms g by (auto simp: process_def bind_def try_p_def get_local_def ret_def lift_result_def raise_def split: sum.splits)
    moreover have "\<forall>e\<in>set d1. \<not> is_fence (fst e)" using hist None by (auto simp: permit_history_def is_fence_def split: event.splits)
    moreover have "\<forall>e\<in>set d. \<not> is_fence (fst e) \<Longrightarrow> fenced is_write is_fence False d \<Longrightarrow> \<forall>e\<in>set d. \<not> is_write (fst e)" for d
      by (induction d) auto
    ultimately show ?thesis using f None by simp
  next
    case (Some p)
    have "\<exists>ok. d = d1 @ [(Ev_release p, ok)] \<and> l = l1"
      using assms g Some by (auto simp: process_def bind_def try_p_def get_local_def ret_def lift_result_def raise_def ignoring_def
          act_def perform_def split: sum.splits)
    with hist Some f show ?thesis by (auto simp: permit_history_def)
  qed
qed

lemma writes_fenced_permit_released_witness:
  "case sample_run of (_, l, d) \<Rightarrow> lc_permit l = Some ''permit'' \<and> list_ex (\<lambda>e. is_write (fst e)) d \<and>
     fenced is_write is_fence False d \<and> last d = (Ev_release ''permit'', True)"
proof -
  obtain r l d where run: "sample_run = (r, l, d)" by (metis prod.collapse)
  have "case sample_run of (_, l, d) \<Rightarrow> lc_permit l = Some ''permit'' \<and> list_ex (\<lambda>e. is_write (fst e)) d \<and>
    last d = (Ev_release ''permit'', True)" by code_simp
  moreover have "fenced is_write is_fence False d"
    using writes_fenced_permit_released [OF run [unfolded sample_run_def]] by blast
  ultimately show ?thesis unfolding run prod.case by blast
qed

end
