(* ===== verification/Walk_Progress.thy ===== *)
theory Walk_Progress
  imports Worker_Safety
begin

text \<open>
  The page walk of the sync worker: pages are committed one by one, each further fetch starts from
  the cursor just committed, and a claim that completes with a page left has enqueued the job that
  will fetch it.
\<close>

section \<open>A walk loses no page\<close>

definition commits :: "event history \<Rightarrow> page_commit list" where
  "commits d = map (\<lambda>ev. case ev of Ev_commit pc \<Rightarrow> pc) (settled is_commit d)"

definition fetches :: "event history \<Rightarrow> fetch list" where
  "fetches d = map (\<lambda>c. case fst c of Ev_fetch f \<Rightarrow> f) (filter (\<lambda>c. is_fetch (fst c)) d)"

definition enqueued :: "event history \<Rightarrow> enqueue_request set" where
  "enqueued d = {r. (Ev_enqueue r, True) \<in> set d}"

definition fetch_cursor :: "fetch \<Rightarrow> cursor option" where
  "fetch_cursor f = (case f of Fetch_initial _ k \<Rightarrow> k | Fetch_incremental k \<Rightarrow> Some k | Fetch_reconciliation _ _ k \<Rightarrow> k)"

lemma commits_append [simp]: "commits (d @ d') = commits d @ commits d'" "commits [] = []"
  by (simp_all add: commits_def)

lemma fetches_append [simp]: "fetches (d @ d') = fetches d @ fetches d'" "fetches [] = []"
  by (simp_all add: fetches_def)

lemma enqueued_append [simp]: "enqueued (d @ d') = enqueued d \<union> enqueued d'"
  by (auto simp: enqueued_def)

lemma no_fetches: "confined (\<lambda>ev. \<not> is_fetch ev) m \<Longrightarrow> m l h = (r, l', d) \<Longrightarrow> fetches d = []"
  unfolding fetches_def by (auto simp: filter_empty_conv dest: confinedD)

lemma no_commits: "confined (\<lambda>ev. \<not> is_commit ev) m \<Longrightarrow> m l h = (r, l', d) \<Longrightarrow> commits d = []"
  using confined_settled [of is_commit m l h] by (simp add: commits_def)

lemma page_call_kinds: "page_call ev \<Longrightarrow> \<not> is_commit ev \<and> \<not> is_fetch ev"
  by (cases ev) (simp_all add: event_kinds)

definition commits_page :: "page_context \<Rightarrow> claim \<Rightarrow> walk_state \<Rightarrow> sync_page \<Rightarrow> walk_state \<Rightarrow> event \<Rightarrow> bool" where
  "commits_page cx c s p s' ev \<longleftrightarrow> pg_block p = None \<and>
     (\<exists>pc. ev = Ev_commit pc \<and> pc_more pc = pg_more p \<and> pc_cursor pc = final_cursor cx c (wk_job_cursor s) p)"

lemma settles_commit:
  assumes "pc_more pc = pg_more p" "pc_cursor pc = final_cursor cx c (wk_job_cursor s) p"
  shows "settles is_commit (commits_page cx c s p)
    (if pg_block p \<noteq> None then raise e else bind (act w (Ev_commit pc)) (\<lambda>_. ret (s1 :: walk_state)))"
  using assms unfolding act_def
  by (intro settles_if settles_raise settles_last) (simp_all add: is_commit_def commits_page_def)

lemma uncommitted_page:
  assumes "page_call ev"
  shows "confined (\<lambda>ev. \<not> is_commit ev) (act w ev)" "confined (\<lambda>ev. \<not> is_commit ev) (fenced_act w ev)"
  using assms page_call_kinds by (auto intro!: confined_intros simp: is_commit_def)

lemma settles_process_page: "settles is_commit (commits_page cx c s p) (process_page w c cx s b p)"
  unfolding process_page_def prod.case_eq_if
  by (intro settles_bind settles_commit confined_abort confined_locals confined_lift confined_when page_confinedI uncommitted_page)
    (auto simp: page_call_kinds, simp_all add: page_call_def)

lemma process_page_commits:
  assumes "process_page w c cx s b p l h = (Inr s', l', d)"
  shows "\<exists>pc. commits d = [pc] \<and> pc_more pc = pg_more p \<and> pc_cursor pc = final_cursor cx c (wk_job_cursor s) p"
    "pg_block p = None" "fetches d = []"
proof -
  from settlesD [OF settles_process_page assms] obtain ev where ev: "settled is_commit d = [ev]" "commits_page cx c s p s' ev"
    by auto
  then show "\<exists>pc. commits d = [pc] \<and> pc_more pc = pg_more p \<and> pc_cursor pc = final_cursor cx c (wk_job_cursor s) p" "pg_block p = None"
    by (auto simp: commits_def commits_page_def)
  show "fetches d = []"
    by (rule no_fetches [OF confined_process_page assms]) (auto simp: page_call_kinds, simp add: is_fetch_def)
qed

lemma prefetch_cases:
  assumes "prefetch w c k p l h = (r, l', d)"
  obtains "r = Inr None" "d = []"
  | b n q f where "r = Inr (Some q)" "backfill_claim c = Some b" "pg_next p = Some n" "pg_more p" "0 < k"
      "fetches d = [f]" "fetch_cursor f = Some n" "commits d = []"
proof (cases "backfill_claim c")
  case None
  with assms that(1) show ?thesis by (simp add: prefetch_def bind_def get_history_def ret_def)
next
  case b: (Some b)
  show ?thesis
  proof (cases "pg_next p")
    case None
    with assms b that(1) show ?thesis by (simp add: prefetch_def bind_def get_history_def ret_def)
  next
    case n: (Some n)
    let ?f = "if bf_mode b = Resume_verified then Fetch_incremental n else Fetch_initial (bf_range b) (Some n)"
    show ?thesis
    proof (cases "pg_more p \<and> 0 < k \<and> \<not> wd_aborted w h")
      case True
      then obtain q ok where "r = Inr (Some q)" "d = [(Ev_fetch ?f, ok)]"
        using assms b n by (auto simp: prefetch_def bind_def get_history_def ret_def try_p_def connector_operation_def perform_def Let_def
            split: sum.splits if_splits)
      then show ?thesis using True b n
        by (intro that(2) [of q b n ?f]) (auto simp: fetches_def commits_def is_fetch_def is_commit_def fetch_cursor_def)
    next
      case False
      with assms b n that(1) show ?thesis by (auto simp: prefetch_def bind_def get_history_def ret_def)
    qed
  qed
qed

text \<open>What leaving the claim publishes for a page that has a successor.\<close>

definition continues :: "claim \<Rightarrow> cursor \<Rightarrow> enqueue_request \<Rightarrow> bool" where
  "continues c cur req \<longleftrightarrow> job_cursor (req_job req) = Some cur \<and> job_stream (req_job req) = job_stream (cl_job c) \<and>
     (\<forall>b. kind_of_claim c = Initial_backfill b \<longrightarrow> job_kind (req_job req) = Initial_backfill (b\<lparr>bf_cursor := Some cur\<rparr>))"

lemma enqueue_success:
  assumes "enqueue w mk l h = (Inr x, l', d)"
  shows "enqueued d = {mk (wd_base w h)}"
  using assms by (auto simp: enqueue_def bind_def get_history_def perform_def enqueued_def split: sum.splits)

lemma continuation_enqueued:
  assumes "enqueue_continuation w c cur l h = (Inr u, l', d)"
  shows "\<exists>req\<in>enqueued d. continues c cur req"
proof (cases "kind_of_claim c")
  case (Initial_backfill b)
  from assms [unfolded enqueue_continuation_def Initial_backfill job_kind.case] show ?thesis
  proof (cases rule: bind_cases)
    case (2 x l1 d1 d2)
    from enqueue_success [OF 2(1)] 2(3) Initial_backfill show ?thesis
      by (auto simp: continues_def enqueue_initial_backfill_def request_for_def job_cursor_def job_stream_def kind_of_claim_def)
  qed simp
next
  case (Incremental_sync i)
  from assms [unfolded enqueue_continuation_def Incremental_sync job_kind.case] show ?thesis
  proof (cases rule: bind_cases)
    case (2 x l1 d1 d2)
    from enqueue_success [OF 2(1)] 2(3) Incremental_sync show ?thesis
      by (auto simp: continues_def enqueue_incremental_sync_def request_for_def job_cursor_def job_stream_def kind_of_claim_def)
  qed simp
next
  case (Reconciliation_sweep r)
  from assms [unfolded enqueue_continuation_def Reconciliation_sweep job_kind.case] show ?thesis
  proof (cases rule: bind_cases)
    case (2 x l1 d1 d2)
    from enqueue_success [OF 2(1)] 2(3) Reconciliation_sweep show ?thesis
      by (auto simp: continues_def enqueue_reconciliation_sweep_def request_for_def job_cursor_def job_stream_def kind_of_claim_def)
  qed simp
qed

definition followed_up :: "claim \<Rightarrow> sync_page \<Rightarrow> event history \<Rightarrow> bool" where
  "followed_up c p d \<longleftrightarrow>
     (\<forall>n. pg_more p \<and> pg_next p = Some n \<longrightarrow> (\<exists>req\<in>enqueued d. continues c n req)) \<and>
     (\<not> pg_more p \<and> is_backfill c \<longrightarrow> (Ev_next_phase, True) \<in> set d)"

lemma successors_followed_up:
  assumes "publish_successors w c p l h = (Inr u, l', d)"
  shows "followed_up c p d"
  using assms unfolding publish_successors_def
proof (cases rule: bind_cases)
  case A: (2 x l1 d1 d2)
  have "\<exists>req\<in>enqueued d. continues c n req" if "pg_more p" "pg_next p = Some n" for n
    using continuation_enqueued [of w c n l h x l1 d1] A that by (auto simp: when_p_def)
  moreover have "(Ev_next_phase, True) \<in> set d" if last: "\<not> pg_more p" and bf: "is_backfill c"
  proof -
    obtain b where b: "backfill_claim c = Some b" using bf by (auto simp: is_backfill_def)
    have "enqueue_next_backfill_phase w c b l1 (h @ d1) = (Inr u, l', d2)" using A(2) b last by (simp add: when_p_def)
    then show ?thesis unfolding enqueue_next_backfill_phase_def
    proof (cases rule: bind_cases)
      case (2 y l2 d3 d4)
      then have "d3 = [(Ev_next_phase, True)]" by (auto simp: perform_def split: sum.splits)
      with 2 A show ?thesis by simp
    qed simp
  qed
  ultimately show ?thesis by (simp add: followed_up_def)
qed simp

lemma followed_up_append: "followed_up c p d \<Longrightarrow> followed_up c p (d0 @ d @ d1)"
  by (auto simp: followed_up_def)

lemma leave_claim_calls:
  assumes "leave_claim w c p l h = (Inr out, l', d)"
  shows "out = Completed" "\<exists>d'. d = d' @ [(Ev_complete, True)] \<and> followed_up c p d'" "commits d = []" "fetches d = []"
proof -
  from assms [unfolded leave_claim_def] obtain u l1 d1 d2 where A: "publish_successors w c p l h = (Inr u, l1, d1)"
      "bind (act w Ev_complete_page_run) (\<lambda>_. complete_claim w) l1 (h @ d1) = (Inr out, l', d2)" "d = d1 @ d2"
    by (cases rule: bind_cases) auto
  from A(2) have d2: "d2 = [(Ev_complete_page_run, True), (Ev_complete, True)]" "out = Completed"
    by (auto simp: bind_def act_def perform_def complete_claim_def ret_def split: sum.splits)
  show "out = Completed" by (rule d2)
  show "\<exists>d'. d = d' @ [(Ev_complete, True)] \<and> followed_up c p d'"
    using successors_followed_up [OF A(1)] A(3) d2(1) followed_up_append [of c p d1 "[]"] by auto
  have k: "\<not> is_commit ev \<and> \<not> is_fetch ev" if "successor_call ev" for ev
    using that by (cases ev) (simp_all add: successor_call_def event_kinds)
  have "commits d1 = []" "fetches d1 = []"
    by (rule no_commits [OF confined_successors A(1)], simp add: k) (rule no_fetches [OF confined_successors A(1)], simp add: k)
  then show "commits d = []" "fetches d = []"
    unfolding A(3) d2(1) by (simp_all add: commits_def fetches_def is_commit_def is_fetch_def)
qed

text \<open>What a walk that returns has done, from its first page on.\<close>

definition walked :: "claim \<Rightarrow> nat \<Rightarrow> event history \<Rightarrow> bool" where
  "walked c k d \<longleftrightarrow> (\<exists>d'. d = d' @ [(Ev_complete, True)] \<and>
     (let cs = commits d' in
        cs \<noteq> [] \<and> length cs \<le> Suc k \<and> (\<forall>pc\<in>set (butlast cs). pc_more pc) \<and>
        map fetch_cursor (fetches d') = map (\<lambda>pc. Some (pc_cursor pc)) (butlast cs) \<and>
        (if pc_more (last cs) then \<exists>req\<in>enqueued d'. continues c (pc_cursor (last cs)) req
         else is_backfill c \<longrightarrow> (Ev_next_phase, True) \<in> set d')))"

lemma walked_last:
  assumes leave: "leave_claim w c p l2 h2 = (Inr out, l', d3)"
    and page: "process_page w c cx s b p l1 h1 = (Inr s', l2, d2)" and ok: "check_page prev p = Inr ()"
  shows "out = Completed \<and> walked c k (d2 @ d3)"
proof -
  note lv = leave_claim_calls [OF leave]
  obtain pc where pc: "commits d2 = [pc]" "pc_more pc = pg_more p" "pc_cursor pc = final_cursor cx c (wk_job_cursor s) p"
    using process_page_commits(1) [OF page] by blast
  obtain d' where d': "d3 = d' @ [(Ev_complete, True)]" "followed_up c p d'" using lv(2) by blast
  have none: "commits d' = []" "fetches d' = []" using lv(3,4) d'(1) by simp_all
  have "pg_more p \<Longrightarrow> \<exists>n. pg_next p = Some n"
    using ok process_page_commits(2) [OF page] by (auto simp: check_page_def split: if_splits)
  then have "if pc_more pc then \<exists>req\<in>enqueued d'. continues c (pc_cursor pc) req else is_backfill c \<longrightarrow> (Ev_next_phase, True) \<in> set d'"
    using d'(2) pc by (auto simp: followed_up_def final_cursor_def)
  then show ?thesis
    unfolding walked_def
    using lv(1) d'(1) pc(1) none process_page_commits(3) [OF page]
    by (intro conjI exI [of _ "d2 @ d'"]) (auto simp: Let_def)
qed

lemma walked_cons:
  assumes "commits d1 = []" "fetches d1 = [f]" "commits d2 = [pc]" "fetches d2 = []" "pc_more pc" "fetch_cursor f = Some (pc_cursor pc)"
    "walked c k d3"
  shows "walked c (Suc k) (d1 @ d2 @ d3)"
proof -
  obtain d' where d': "d3 = d' @ [(Ev_complete, True)]" and cs: "commits d' \<noteq> []" "length (commits d') \<le> Suc k"
      "\<forall>pc\<in>set (butlast (commits d')). pc_more pc"
      "map fetch_cursor (fetches d') = map (\<lambda>pc. Some (pc_cursor pc)) (butlast (commits d'))"
    and fol: "if pc_more (last (commits d')) then \<exists>req\<in>enqueued d'. continues c (pc_cursor (last (commits d'))) req
       else is_backfill c \<longrightarrow> (Ev_next_phase, True) \<in> set d'"
    using assms(7) by (auto simp: walked_def Let_def)
  show ?thesis
    unfolding walked_def Let_def
    by (rule exI [of _ "d1 @ d2 @ d'"]) (use assms d' cs fol in \<open>auto split: if_splits\<close>)
qed

lemma bind_Inr:
  assumes "bind m f l h = (Inr out, l', d)"
  obtains x l1 d1 d2 where "m l h = (Inr x, l1, d1)" "f x l1 (h @ d1) = (Inr out, l', d2)" "d = d1 @ d2"
  using assms by (cases rule: bind_cases) auto

lemma walk_walked:
  assumes "walk w c cx k s p l h = (Inr out, l', d)" "check_page prev p = Inr ()"
  shows "out = Completed \<and> walked c k d"
  using assms
proof (induction k arbitrary: s p l h d prev)
  case (0 s p l h d prev)
  from "0.prems"(1) obtain nx l1 d1 dr where A: "prefetch w c 0 p l h = (Inr nx, l1, d1)"
    "bind (process_page w c cx s (nx \<noteq> None) p) (\<lambda>s'. case nx of None \<Rightarrow> leave_claim w c p | Some r \<Rightarrow> leave_claim w c p) l1 (h @ d1) = (Inr out, l', dr)"
    "d = d1 @ dr"
    unfolding walk.simps [of w c cx 0] nat.case by (rule bind_Inr)
  from A(1) have nx: "nx = None" "d1 = []" by (auto elim: prefetch_cases)
  from A(2) nx obtain s' l2 d2 d3 where "process_page w c cx s False p l1 h = (Inr s', l2, d2)"
    "leave_claim w c p l2 (h @ d2) = (Inr out, l', d3)" "dr = d2 @ d3" by (auto elim: bind_Inr)
  with walked_last [OF this(2,1) "0.prems"(2)] A(3) nx show ?case by simp
next
  case (Suc k s p l h d prev)
  from Suc.prems(1) obtain nx l1 d1 dr where A: "prefetch w c (Suc k) p l h = (Inr nx, l1, d1)"
    "bind (process_page w c cx s (nx \<noteq> None) p) (\<lambda>s'. case nx of None \<Rightarrow> leave_claim w c p
       | Some r \<Rightarrow> bind (lift_result r) (\<lambda>q. bind (lift_result (check_page (pg_next p) q)) (\<lambda>_.
           bind (later_page_state w c (pg_next p) s') (\<lambda>s''. walk w c cx k s'' q)))) l1 (h @ d1) = (Inr out, l', dr)"
    "d = d1 @ dr"
    unfolding walk.simps [of w c cx "Suc k"] nat.case by (rule bind_Inr)
  from A(2) obtain s' l2 d2 d3 where B: "process_page w c cx s (nx \<noteq> None) p l1 (h @ d1) = (Inr s', l2, d2)"
    "(case nx of None \<Rightarrow> leave_claim w c p
       | Some r \<Rightarrow> bind (lift_result r) (\<lambda>q. bind (lift_result (check_page (pg_next p) q)) (\<lambda>_.
           bind (later_page_state w c (pg_next p) s') (\<lambda>s''. walk w c cx k s'' q)))) l2 ((h @ d1) @ d2) = (Inr out, l', d3)"
    "dr = d2 @ d3" by (rule bind_Inr)
  from A(1) show ?case
  proof (cases rule: prefetch_cases)
    case 1
    with B(2) have "leave_claim w c p l2 ((h @ d1) @ d2) = (Inr out, l', d3)" by simp
    from walked_last [OF this B(1) Suc.prems(2)] A(3) B(3) 1 show ?thesis by simp
  next
    case (2 b n r f)
    from B(2) 2(1) obtain q l3 d4 d5 where C: "lift_result r l2 ((h @ d1) @ d2) = (Inr q, l3, d4)"
      "bind (lift_result (check_page (pg_next p) q)) (\<lambda>_. bind (later_page_state w c (pg_next p) s') (\<lambda>s''. walk w c cx k s'' q)) l3 (((h @ d1) @ d2) @ d4) = (Inr out, l', d5)"
      "d3 = d4 @ d5" by (auto elim: bind_Inr)
    from C(1) have d4: "d4 = []" by (cases r) (simp_all add: lift_result_def ret_def raise_def)
    from C(2) obtain u l4 d6 d7 where D: "lift_result (check_page (pg_next p) q) l3 (((h @ d1) @ d2) @ d4) = (Inr u, l4, d6)"
      "bind (later_page_state w c (pg_next p) s') (\<lambda>s''. walk w c cx k s'' q) l4 ((((h @ d1) @ d2) @ d4) @ d6) = (Inr out, l', d7)"
      "d5 = d6 @ d7" by (rule bind_Inr)
    from D(1) have d6: "d6 = []" "check_page (pg_next p) q = Inr ()"
      by (cases "check_page (pg_next p) q"; simp add: lift_result_def ret_def raise_def)+
    from D(2) obtain s'' h' where E: "walk w c cx k s'' q l4 h' = (Inr out, l', d7)"
      by (auto simp: bind_def later_page_state_def get_history_def ret_def split: prod.splits)
    have "out = Completed \<and> walked c k d7" by (rule Suc.IH [OF E d6(2)])
    moreover obtain pc where "commits d2 = [pc]" "pc_more pc = pg_more p" "pc_cursor pc = final_cursor cx c (wk_job_cursor s) p"
      using process_page_commits(1) [OF B(1)] by blast
    moreover have "fetches d2 = []" by (rule process_page_commits(3) [OF B(1)])
    ultimately show ?thesis
      using walked_cons [of d1 f d2 pc c k d7] 2 A(3) B(3) C(3) D(3) d4 d6 by (simp add: final_cursor_def)
  qed
qed

lemma lift_records_silent:
  assumes "lift_records w c p l h = (Inr q, l', d)"
  shows "d = []"
  using confinedD [OF confined_lift_records [of "\<lambda>_. False"] assms] by (cases d) auto



end
