(* ===== verification/Semantic_Registry.thy ===== *)
theory Semantic_Registry
  imports Prelude
begin

text \<open>
  \<open>packages/semantic-registry/src/schema.ts\<close> and \<open>registry-build.ts\<close>: the contracts of metrics, facts
  and topics, and the validation a registry document passes before the compiler sees it. A contract
  keeps the fields that the compiler or the validation reads; labels, descriptions and examples are
  left out. The maps of a registry are keyed by the ids of their contracts, so each is the list of
  its contracts, looked up by id.
\<close>

section \<open>Contracts\<close>

datatype role = Owner | Manager | Bookkeeper | Internal_operator

datatype filter_op = Eq_op | Neq_op | In_op | Not_in_op | Gt_op | Gte_op | Lt_op | Lte_op | Is_null | Is_not_null

datatype sql_value = Text string | Number real | Flag bool

record filter_contract =
  fc_field :: string
  fc_op :: filter_op
  fc_values :: "sql_value list"

datatype agg_op = Sum | Avg | Count | Count_distinct | Last_value | Min_of | Max_of

datatype bin_op = Add | Subtract | Multiply | Divide

text \<open>The aggregate carries \<open>field\<close>, \<open>distinct\<close> and \<open>filter\<close>.\<close>

datatype calculation =
    Field string
  | Literal string
  | Aggregate agg_op "string option" bool "filter_contract option"
  | Binary bin_op calculation calculation
  | Metric string
  | Conditional filter_contract calculation calculation

datatype aggregation = Sum_kind | Count_kind | Count_distinct_kind | Average_kind | Ratio_kind | Last_value_kind | Derived_kind

datatype metric_unit = Currency | Units | Counted | Ratio | Percent | Hours | Days | Currency_per_unit

record metric_contract =
  mc_id :: string
  mc_base_fact :: string
  mc_grain :: string
  mc_calculation :: calculation
  mc_default_time :: string
  mc_filters :: "filter_contract list"
  mc_aggregation :: aggregation
  mc_unit :: metric_unit
  mc_authority :: string
  mc_dimensions :: "string list"
  mc_capabilities :: "string list"
  mc_parameters :: "string list"
  mc_tests :: "string list"

datatype identity_type = Worker | Location | Product_variant | Customer_account | Supplier

datatype cardinality = Many_to_one | One_to_one

record join_contract =
  jc_dimension :: string
  jc_table :: string
  jc_fact_key :: string
  jc_dimension_key :: string
  jc_rollup_key :: "string option"
  jc_identity :: "identity_type option"
  jc_cardinality :: cardinality
  jc_fields :: "(string \<times> string) list"

record fact_model =
  fm_id :: string
  fm_table :: string
  fm_fields :: "string list"
  fm_time_fields :: "string list"
  fm_joins :: "join_contract list"
  fm_snapshot_fields :: "string list"
  fm_snapshot_keys :: "string list"
  fm_measures :: "string list"
  fm_fans_out :: "string list"
  fm_grain_key :: string

record topic_contract =
  tp_id :: string
  tp_facts :: "string list"
  tp_dimensions :: "string list"
  tp_metrics :: "string list"
  tp_capabilities :: "string list"
  tp_roles :: "role list"
  tp_composite :: bool
  tp_align_on :: "string list"

record registry_document =
  rd_metrics :: "metric_contract list"
  rd_topics :: "topic_contract list"
  rd_facts :: "fact_model list"

record semantic_registry =
  reg_metrics :: "metric_contract list"
  reg_topics :: "topic_contract list"
  reg_facts :: "fact_model list"

definition metric_named :: "metric_contract list \<Rightarrow> string \<Rightarrow> metric_contract option" where
  "metric_named ms k = find (\<lambda>m. mc_id m = k) ms"

definition fact_named :: "fact_model list \<Rightarrow> string \<Rightarrow> fact_model option" where
  "fact_named fs k = find (\<lambda>f. fm_id f = k) fs"

definition topic_named :: "topic_contract list \<Rightarrow> string \<Rightarrow> topic_contract option" where
  "topic_named ts k = find (\<lambda>t. tp_id t = k) ts"

text \<open>\<open>join.dimension === dimension || Object.hasOwn(join.fields, dimension)\<close>.\<close>

definition join_offers :: "string \<Rightarrow> join_contract \<Rightarrow> bool" where
  "join_offers d j \<longleftrightarrow> jc_dimension j = d \<or> map_of (jc_fields j) d \<noteq> None"

definition join_for :: "fact_model \<Rightarrow> string \<Rightarrow> join_contract option" where
  "join_for f d = find (join_offers d) (fm_joins f)"

text \<open>The dimensions of \<open>derivedDateDimensions\<close>.\<close>

definition DERIVED_DATE_DIMENSIONS :: "string list" where
  "DERIVED_DATE_DIMENSIONS = [''business_date'', ''calendar_week'', ''calendar_month'', ''calendar_quarter'', ''day_of_week'']"

definition is_derived_date :: "string \<Rightarrow> bool" where
  "is_derived_date d \<longleftrightarrow> d \<in> set DERIVED_DATE_DIMENSIONS"

section \<open>Walking the metrics a calculation refers to\<close>

text \<open>Walks carry the ids already on the stack and stop at them, so each step into a metric leaves
  fewer ids to enter.\<close>

definition metric_keys :: "metric_contract list \<Rightarrow> string set" where
  "metric_keys ms = mc_id ` set ms"

definition unvisited :: "metric_contract list \<Rightarrow> string list \<Rightarrow> nat" where
  "unvisited ms stack = card (metric_keys ms - set stack)"

lemma finite_metric_keys [simp]: "finite (metric_keys ms)"
  by (simp add: metric_keys_def)

lemma metric_named_SomeD: "metric_named ms k = Some m \<Longrightarrow> mc_id m = k \<and> m \<in> set ms"
  by (auto simp: metric_named_def find_Some_iff)

lemma metric_keys_intro:
  assumes "metric_named ms k = Some m"
  shows "k \<in> metric_keys ms" "mc_id m \<in> metric_keys ms"
  using metric_named_SomeD [OF assms] by (auto simp: metric_keys_def)

lemma unvisited_decreases: "k \<in> metric_keys ms \<Longrightarrow> k \<notin> set stack \<Longrightarrow> unvisited ms (k # stack) < unvisited ms stack"
  unfolding unvisited_def by (rule psubset_card_mono) auto

section \<open>Validation\<close>

datatype registry_error =
    Duplicate_id string | Unknown_measure string string | Grain_key_not_a_field string | Unknown_fan_out string string
  | Fans_out_against_itself string | Unknown_join_key string string | Wrong_identity_join string string
  | Conflicting_identity_types string string | Unknown_metric_fact string string | No_business_date string string
  | Illegal_metric_dimension string string | Unknown_field string string | Unknown_filter_field string string
  | Unknown_metric_reference string string | Crossing_facts string | Metric_cycle string
  | Unknown_topic_fact string string | Unknown_topic_metric string string | Wrong_fact_count string

fun assert_unique :: "string list \<Rightarrow> string list \<Rightarrow> (registry_error, unit) result" where
  "assert_unique seen [] = Inr ()"
| "assert_unique seen (x # xs) = (if x \<in> set seen then Inl (Duplicate_id x) else assert_unique (x # seen) xs)"

fun each :: "('a \<Rightarrow> ('e, unit) result) \<Rightarrow> 'a list \<Rightarrow> ('e, unit) result" where
  "each f [] = Inr ()"
| "each f (x # xs) = and_then (f x) (\<lambda>_. each f xs)"

lemma each_ok: "each f xs = Inr u \<longleftrightarrow> (\<forall>x\<in>set xs. f x = Inr ())"
  by (induction xs) (auto simp: and_then_Inr_iff)

definition require :: "bool \<Rightarrow> 'e \<Rightarrow> ('e, unit) result" where
  "require b e = (if b then Inr () else Inl e)"

lemma require_ok [simp]: "require b e = Inr u \<longleftrightarrow> b"
  by (simp add: require_def)

fun identity_table :: "identity_type \<Rightarrow> string" where
  "identity_table Worker = ''core.worker''"
| "identity_table Location = ''core.location''"
| "identity_table Product_variant = ''core.product_variant''"
| "identity_table Customer_account = ''core.customer_account''"
| "identity_table Supplier = ''core.supplier''"

fun validate_joins :: "fact_model \<Rightarrow> (string \<times> identity_type) list \<Rightarrow> join_contract list \<Rightarrow> (registry_error, unit) result" where
  "validate_joins f types [] = Inr ()"
| "validate_joins f types (j # js) =
     (if jc_fact_key j \<notin> set (fm_fields f) then Inl (Unknown_join_key (fm_id f) (jc_fact_key j))
      else case jc_identity j of
        None \<Rightarrow> validate_joins f types js
      | Some t \<Rightarrow>
          if jc_dimension_key j \<noteq> ''id'' \<or> jc_table j \<noteq> identity_table t then Inl (Wrong_identity_join (fm_id f) (jc_dimension j))
          else if map_of types (jc_fact_key j) \<notin> {None, Some t} then Inl (Conflicting_identity_types (fm_id f) (jc_fact_key j))
          else validate_joins f (AList.update (jc_fact_key j) t types) js)"

definition validate_fact :: "registry_document \<Rightarrow> fact_model \<Rightarrow> (registry_error, unit) result" where
  "validate_fact d f =
     and_then (each (\<lambda>m. require (m \<in> set (fm_fields f)) (Unknown_measure (fm_id f) m)) (fm_measures f)) (\<lambda>_.
     and_then (require (fm_grain_key f \<in> set (fm_fields f)) (Grain_key_not_a_field (fm_id f))) (\<lambda>_.
     and_then (each (\<lambda>t. if t \<notin> fm_id ` set (rd_facts d) then Inl (Unknown_fan_out (fm_id f) t)
                         else if t = fm_id f then Inl (Fans_out_against_itself t) else Inr ()) (fm_fans_out f)) (\<lambda>_.
     validate_joins f [] (fm_joins f))))"

text \<open>\<open>validateCalculation\<close>. The stack holds the metrics being walked.\<close>

function validate_calculation ::
    "metric_contract list \<Rightarrow> fact_model \<Rightarrow> string \<Rightarrow> string list \<Rightarrow> calculation \<Rightarrow> (registry_error, unit) result" where
  "validate_calculation ms f m stack (Field x) = require (x = [] \<or> x \<in> set (fm_fields f)) (Unknown_field m x)"
| "validate_calculation ms f m stack (Literal x) = Inr ()"
| "validate_calculation ms f m stack (Aggregate g x distinct_only flt) =
     and_then (case x of None \<Rightarrow> Inr () | Some x \<Rightarrow> require (x = [] \<or> x \<in> set (fm_fields f)) (Unknown_field m x)) (\<lambda>_.
     case flt of None \<Rightarrow> Inr () | Some c \<Rightarrow> require (fc_field c \<in> set (fm_fields f)) (Unknown_filter_field m (fc_field c)))"
| "validate_calculation ms f m stack (Metric k) =
     (case metric_named ms k of
        None \<Rightarrow> Inl (Unknown_metric_reference m k)
      | Some dep \<Rightarrow>
          if mc_base_fact dep \<noteq> fm_id f then Inl (Crossing_facts m)
          else if mc_id dep \<in> set stack then Inl (Metric_cycle (mc_id dep))
          else validate_calculation ms f m (mc_id dep # stack) (mc_calculation dep))"
| "validate_calculation ms f m stack (Binary b x y) =
     and_then (validate_calculation ms f m stack x) (\<lambda>_. validate_calculation ms f m stack y)"
| "validate_calculation ms f m stack (Conditional c x y) =
     and_then (require (fc_field c \<in> set (fm_fields f)) (Unknown_filter_field m (fc_field c))) (\<lambda>_.
     and_then (validate_calculation ms f m stack x) (\<lambda>_. validate_calculation ms f m stack y))"
  by pat_completeness auto
termination
  by (relation "measures [\<lambda>(ms, f, m, stack, x). unvisited ms stack, \<lambda>(ms, f, m, stack, x). size x]")
    (auto intro: unvisited_decreases metric_keys_intro)

definition validate_metric :: "registry_document \<Rightarrow> metric_contract \<Rightarrow> (registry_error, unit) result" where
  "validate_metric d m =
     (case fact_named (rd_facts d) (mc_base_fact m) of
        None \<Rightarrow> Inl (Unknown_metric_fact (mc_id m) (mc_base_fact m))
      | Some f \<Rightarrow>
          and_then (each (\<lambda>x.
            if x = ''business_date'' then Inr ()
            else if is_derived_date x then require (''business_date'' \<in> set (fm_time_fields f)) (No_business_date (mc_id m) x)
            else require (list_ex (join_offers x) (fm_joins f)) (Illegal_metric_dimension (mc_id m) x)) (mc_dimensions m)) (\<lambda>_.
          validate_calculation (rd_metrics d) f (mc_id m) [] (mc_calculation m)))"

definition validate_topic :: "registry_document \<Rightarrow> topic_contract \<Rightarrow> (registry_error, unit) result" where
  "validate_topic d t =
     and_then (each (\<lambda>f. require (f \<in> fm_id ` set (rd_facts d)) (Unknown_topic_fact (tp_id t) f)) (tp_facts t)) (\<lambda>_.
     and_then (each (\<lambda>m. require (m \<in> mc_id ` set (rd_metrics d)) (Unknown_topic_metric (tp_id t) m)) (tp_metrics t)) (\<lambda>_.
     if \<not> tp_composite t \<and> length (tp_facts t) \<noteq> 1 then Inl (Wrong_fact_count (tp_id t))
     else if tp_composite t \<and> length (tp_facts t) < 2 then Inl (Wrong_fact_count (tp_id t)) else Inr ()))"

definition validate_registry :: "registry_document \<Rightarrow> (registry_error, unit) result" where
  "validate_registry d =
     and_then (assert_unique [] (map mc_id (rd_metrics d))) (\<lambda>_.
     and_then (assert_unique [] (map tp_id (rd_topics d))) (\<lambda>_.
     and_then (assert_unique [] (map fm_id (rd_facts d))) (\<lambda>_.
     and_then (each (validate_fact d) (rd_facts d)) (\<lambda>_.
     and_then (each (validate_metric d) (rd_metrics d)) (\<lambda>_.
     each (validate_topic d) (rd_topics d))))))"

definition build_registry :: "registry_document \<Rightarrow> (registry_error, semantic_registry) result" where
  "build_registry d = and_then (validate_registry d) (\<lambda>_.
     Inr \<lparr>reg_metrics = rd_metrics d, reg_topics = rd_topics d, reg_facts = rd_facts d\<rparr>)"

end
