(* ===== verification/Sql_Builder.thy ===== *)
theory Sql_Builder
  imports Tenant_Calendar Semantic_Registry
begin

text \<open>
  How \<open>packages/compiler/src/compiler.ts\<close> assembles SQL: the \<open>ParameterBuilder\<close>, whose values are bound
  as \<open>$1\<close>, \<open>$2\<close>, and so on, quoted identifiers, and filters. A step of the compiler is a function of
  the values bound so far; it throws a \<open>SemanticCompilerError\<close>, of which the code is kept, or returns
  its result and the values bound after it.
\<close>

section \<open>Building with parameters\<close>

type_synonym 'a build = "sql_value list \<Rightarrow> (compiler_error_code, 'a \<times> sql_value list) result"

definition pure_b :: "'a \<Rightarrow> 'a build" where
  "pure_b x ps = Inr (x, ps)"

definition fail_b :: "compiler_error_code \<Rightarrow> 'a build" where
  "fail_b e ps = Inl e"

definition lift_b :: "'a compiled \<Rightarrow> 'a build" where
  "lift_b r ps = and_then r (\<lambda>x. Inr (x, ps))"

definition bind_b :: "'a build \<Rightarrow> ('a \<Rightarrow> 'b build) \<Rightarrow> 'b build" where
  "bind_b m f ps = and_then (m ps) (\<lambda>r. f (fst r) (snd r))"

fun map_b :: "('a \<Rightarrow> 'b build) \<Rightarrow> 'a list \<Rightarrow> 'b list build" where
  "map_b f [] = pure_b []"
| "map_b f (x # xs) = bind_b (f x) (\<lambda>y. bind_b (map_b f xs) (\<lambda>ys. pure_b (y # ys)))"

definition check_b :: "bool \<Rightarrow> compiler_error_code \<Rightarrow> unit build" where
  "check_b b e = (if b then pure_b () else fail_b e)"

text \<open>\<open>ParameterBuilder.add\<close>.\<close>

definition add_parameter :: "sql_value \<Rightarrow> string build" where
  "add_parameter v ps = Inr (CHR ''$'' # string_of_nat (Suc (length ps)), ps @ [v])"

section \<open>Text\<close>

definition nl :: string where "nl = [CHR 0x0A]"

definition dq :: char where "dq = CHR 0x22"

definition sql_text :: "string \<Rightarrow> string" where
  "sql_text s = CHR 0x27 # s @ [CHR 0x27]"

definition comma :: string where "comma = '', ''"

definition conj_with :: "string list \<Rightarrow> string" where
  "conj_with ps = join_with '' AND '' ps"

definition is_identifier_start :: "char \<Rightarrow> bool" where
  "is_identifier_start c \<longleftrightarrow> (97 \<le> code c \<and> code c \<le> 122) \<or> c = CHR ''_''"

text \<open>\<open>/^[a-z_][a-z0-9_.]*$/\<close>.\<close>

definition safe_identifier :: "string \<Rightarrow> bool" where
  "safe_identifier v \<longleftrightarrow> v \<noteq> [] \<and> is_identifier_start (hd v) \<and>
     list_all (\<lambda>c. is_identifier_start c \<or> is_digit c \<or> c = CHR ''.'') (tl v)"

definition quoted :: "string \<Rightarrow> string" where
  "quoted v = dq # concat (map (\<lambda>c. if c = dq then [dq, dq] else [c]) v) @ [dq]"

definition quote_identifier :: "string \<Rightarrow> string compiled" where
  "quote_identifier v = (if safe_identifier v then Inr (quoted v) else Inl INVALID_IR)"

definition quote_qualified :: "string \<Rightarrow> string compiled" where
  "quote_qualified v =
     (if length (split_on (CHR ''.'') v) \<noteq> 2 then Inl INVALID_IR
      else and_then (map_r quote_identifier (split_on (CHR ''.'') v)) (\<lambda>ps. Inr (join_with ''.'' ps)))"

text \<open>\<open>col\<close> is a column whose name is fixed in the source, \<open>column\<close> one that the registry or the query names.\<close>

definition col :: "string \<Rightarrow> string \<Rightarrow> string" where
  "col a v = a @ ''.'' @ quoted v"

definition column :: "string \<Rightarrow> string \<Rightarrow> string compiled" where
  "column a v = and_then (quote_identifier v) (\<lambda>q. Inr (a @ ''.'' @ q))"

definition as_alias :: "string \<Rightarrow> string \<Rightarrow> string compiled" where
  "as_alias e v = and_then (quote_identifier v) (\<lambda>q. Inr (e @ '' AS '' @ q))"

definition short_metric_name :: "string \<Rightarrow> string" where
  "short_metric_name i = (if CHR ''.'' \<in> set i then tl (dropWhile (\<lambda>c. c \<noteq> CHR ''.'') i) else i)"

definition indent :: "string \<Rightarrow> string" where
  "indent s = join_with nl (map (\<lambda>l. ''  '' @ l) (split_on (CHR 0x0A) s))"

definition same_set :: "string list \<Rightarrow> string list \<Rightarrow> bool" where
  "same_set xs ys \<longleftrightarrow> length xs = length ys \<and> (\<forall>x\<in>set xs. x \<in> set ys)"

section \<open>Filters and identity resolution\<close>

fun comparison_operator :: "filter_op \<Rightarrow> string option" where
  "comparison_operator Eq_op = Some ''=''"
| "comparison_operator Neq_op = Some ''<>''"
| "comparison_operator Gt_op = Some ''>''"
| "comparison_operator Gte_op = Some ''>=''"
| "comparison_operator Lt_op = Some ''<''"
| "comparison_operator Lte_op = Some ''<=''"
| "comparison_operator _ = None"

definition render_filter_expression :: "string \<Rightarrow> filter_op \<Rightarrow> sql_value list \<Rightarrow> string build" where
  "render_filter_expression e f vs =
     (if f = Is_null then pure_b (e @ '' IS NULL'')
      else if f = Is_not_null then pure_b (e @ '' IS NOT NULL'')
      else if (f = In_op \<or> f = Not_in_op) \<and> vs = [] then pure_b (if f = In_op then ''FALSE'' else ''TRUE'')
      else if f = In_op \<or> f = Not_in_op then
        bind_b (map_b add_parameter vs) (\<lambda>ps.
          pure_b (e @ (if f = In_op then '' IN ('' else '' NOT IN ('') @ join_with comma ps @ '')''))
      else if length vs \<noteq> 1 then fail_b INVALID_IR
      else case comparison_operator f of
        None \<Rightarrow> fail_b INVALID_IR
      | Some c \<Rightarrow> bind_b (add_parameter (hd vs)) (\<lambda>p. pure_b (e @ '' '' @ c @ '' '' @ p)))"

record identity_join =
  ij_key :: string
  ij_type :: identity_type
  ij_alias :: string

fun identity_name :: "identity_type \<Rightarrow> string" where
  "identity_name Worker = ''worker''"
| "identity_name Location = ''location''"
| "identity_name Product_variant = ''product_variant''"
| "identity_name Customer_account = ''customer_account''"
| "identity_name Supplier = ''supplier''"

definition identity_step :: "string \<Rightarrow> identity_join list \<Rightarrow> join_contract \<Rightarrow> identity_join list" where
  "identity_step pre js j =
     (case jc_identity j of
        None \<Rightarrow> js
      | Some t \<Rightarrow> if jc_fact_key j \<in> ij_key ` set js then js
                  else js @ [\<lparr>ij_key = jc_fact_key j, ij_type = t, ij_alias = pre @ string_of_nat (length js)\<rparr>])"

definition resolve_identity_joins :: "fact_model \<Rightarrow> string \<Rightarrow> identity_join list" where
  "resolve_identity_joins f pre = foldl (identity_step pre) [] (fm_joins f)"

definition resolved_fact_field :: "identity_join list \<Rightarrow> string \<Rightarrow> string \<Rightarrow> string compiled" where
  "resolved_fact_field js a field =
     and_then (column a field) (\<lambda>direct.
       Inr (case find (\<lambda>j. ij_key j = field) js of
              None \<Rightarrow> direct
            | Some j \<Rightarrow> ''COALESCE('' @ col (ij_alias j) ''resolved_entity_id'' @ comma @ direct @ '')''))"

definition render_identity_join :: "string \<Rightarrow> identity_join \<Rightarrow> string compiled" where
  "render_identity_join a j =
     and_then (quote_qualified ''core.entity_resolution'') (\<lambda>t.
     and_then (column a (ij_key j)) (\<lambda>k.
       Inr (''LEFT JOIN '' @ t @ '' '' @ ij_alias j @ '' ON '' @ col (ij_alias j) ''tenant_id'' @ '' = '' @ col a ''tenant_id'' @
         '' AND '' @ col (ij_alias j) ''entity_type'' @ '' = '' @ sql_text (identity_name (ij_type j)) @
         '' AND '' @ col (ij_alias j) ''member_entity_id'' @ '' = '' @ k)))"

definition render_identity_joins :: "identity_join list \<Rightarrow> string \<Rightarrow> string compiled" where
  "render_identity_joins js a = and_then (map_r (render_identity_join a) js) (\<lambda>ls. Inr (join_with nl ls))"

definition render_contract_filter :: "identity_join list \<Rightarrow> filter_contract \<Rightarrow> string build" where
  "render_contract_filter js c =
     bind_b (lift_b (resolved_fact_field js ''f'' (fc_field c))) (\<lambda>e. render_filter_expression e (fc_op c) (fc_values c))"

section \<open>Derived dates\<close>

fun date_trunc :: "string \<Rightarrow> string \<Rightarrow> string" where
  "date_trunc unit a = ''date_trunc('' @ sql_text unit @ comma @ col a ''business_date'' @ '')''"

definition derived_expression :: "string \<Rightarrow> string \<Rightarrow> string compiled" where
  "derived_expression d a =
     (if d = ''business_date'' then Inr (col a ''business_date'')
      else if d = ''calendar_week'' then Inr (date_trunc ''week'' a @ ''::date'')
      else if d = ''calendar_month'' then Inr (''to_char('' @ date_trunc ''month'' a @ comma @ sql_text ''FMMonth YYYY'' @ '')'')
      else if d = ''calendar_quarter'' then
        Inr (''to_char('' @ date_trunc ''quarter'' a @ comma @ sql_text (''YYYY '' @ dq # ''Q'' @ dq # ''Q'') @ '')'')
      else if d = ''day_of_week'' then Inr (''trim(to_char('' @ col a ''business_date'' @ comma @ sql_text ''Day'' @ ''))'')
      else Inl ILLEGAL_DIMENSION)"

definition derived_sort_key :: "string \<Rightarrow> string \<Rightarrow> string option" where
  "derived_sort_key d a =
     (if d = ''calendar_month'' then Some (date_trunc ''month'' a @ ''::date'')
      else if d = ''calendar_quarter'' then Some (date_trunc ''quarter'' a @ ''::date'')
      else if d = ''day_of_week'' then Some (''EXTRACT(ISODOW FROM '' @ col a ''business_date'' @ '')'')
      else None)"

end
