(* ===== verification/Semantic_Render.thy ===== *)
theory Semantic_Render
  imports Sql_Builder
begin

text \<open>
  One aggregate over one fact: \<open>renderSingle\<close> of \<open>packages/compiler/src/compiler.ts\<close> and what it calls,
  over the query language of \<open>ir.ts\<close>. The clock and \<open>Date.parse\<close> are parameters, as in the calendar.
\<close>

section \<open>Queries and contexts\<close>

record time_selection =
  ts_field :: string
  ts_range :: time_range
  ts_compare :: "compare_mode option"

datatype direction = Asc | Desc

record sort_item =
  so_metric :: string
  so_direction :: direction

text \<open>A subquery of a composite; a single query adds a sort and a limit, which rendering does not read.\<close>

record subquery =
  sq_topic :: string
  sq_metrics :: "string list"
  sq_dimensions :: "string list"
  sq_filters :: "filter_contract list"
  sq_time :: time_selection
  sq_parameters :: "(string \<times> sql_value) list"

record compiler_context =
  cx_tenant :: string
  cx_role :: role
  cx_capabilities :: "string list"
  cx_now :: string
  cx_calendar :: calendar_input
  cx_parameters :: "(string \<times> sql_value) list"
  cx_max_rows :: "int option"
  cx_max_cost :: "js_num option"

record platform =
  pf_zone :: zone
  pf_parse :: "string \<Rightarrow> int option"

section \<open>Metrics of a query\<close>

definition resolve_metric :: "topic_contract \<Rightarrow> semantic_registry \<Rightarrow> string \<Rightarrow> metric_contract compiled" where
  "resolve_metric t r x =
     (case (if CHR ''.'' \<in> set x then [x] else filter (\<lambda>i. short_metric_name i = x) (tp_metrics t)) of
        [i] \<Rightarrow> if i \<notin> set (tp_metrics t) then Inl METRIC_NOT_IN_TOPIC
               else (case metric_named (reg_metrics r) i of None \<Rightarrow> Inl UNKNOWN_METRIC | Some m \<Rightarrow> Inr m)
      | _ \<Rightarrow> Inl UNKNOWN_METRIC)"

definition resolve_metrics :: "string list \<Rightarrow> topic_contract \<Rightarrow> semantic_registry \<Rightarrow> metric_contract list compiled" where
  "resolve_metrics xs t r = map_r (resolve_metric t r) xs"

definition check_capabilities :: "string list \<Rightarrow> string list \<Rightarrow> unit compiled" where
  "check_capabilities required available =
     (if filter (\<lambda>c. c \<notin> set available) required \<noteq> [] then Inl MISSING_CAPABILITY else Inr ())"

definition check_role :: "topic_contract \<Rightarrow> role \<Rightarrow> unit compiled" where
  "check_role t r = require (r \<in> set (tp_roles t)) FORBIDDEN_ROLE"

definition require_topic :: "semantic_registry \<Rightarrow> string \<Rightarrow> topic_contract compiled" where
  "require_topic r k = (case topic_named (reg_topics r) k of None \<Rightarrow> Inl UNKNOWN_TOPIC | Some t \<Rightarrow> Inr t)"

definition day_count :: "sql_value option \<Rightarrow> int option" where
  "day_count v = (case v of Some (Number x) \<Rightarrow> if of_int \<lfloor>x\<rfloor> = x \<and> 1 \<le> x \<and> x \<le> 3660 then Some \<lfloor>x\<rfloor> else None | _ \<Rightarrow> None)"

definition tenant_parameter_days :: "compiler_context \<Rightarrow> string \<Rightarrow> int compiled" where
  "tenant_parameter_days cx k = (case day_count (map_of (cx_parameters cx) k) of None \<Rightarrow> Inl INVALID_PARAMETER | Some n \<Rightarrow> Inr n)"

definition validate_tenant_parameters :: "metric_contract \<Rightarrow> (string \<times> sql_value) list \<Rightarrow> unit compiled" where
  "validate_tenant_parameters m ps =
     each (\<lambda>k. and_then (require (map_of ps k \<noteq> None) INVALID_PARAMETER) (\<lambda>_.
       require (day_count (map_of ps k) \<noteq> None) INVALID_PARAMETER)) (mc_parameters m)"

definition validate_dimension :: "topic_contract \<Rightarrow> metric_contract list \<Rightarrow> fact_model \<Rightarrow> string \<Rightarrow> unit compiled" where
  "validate_dimension t ms f d =
     and_then (require (d \<in> set (tp_dimensions t)) ILLEGAL_DIMENSION) (\<lambda>_.
     and_then (each (\<lambda>m. require (d \<in> set (mc_dimensions m)) ILLEGAL_DIMENSION) ms) (\<lambda>_.
     if d = ''business_date'' then Inr ()
     else if is_derived_date d then require (''business_date'' \<in> set (fm_fields f)) ILLEGAL_DIMENSION
     else case join_for f d of
       None \<Rightarrow> Inl ILLEGAL_JOIN
     | Some j \<Rightarrow> require (jc_cardinality j = Many_to_one) ILLEGAL_JOIN))"

definition validate_dimensions :: "string list \<Rightarrow> topic_contract \<Rightarrow> metric_contract list \<Rightarrow> fact_model \<Rightarrow> unit compiled" where
  "validate_dimensions ds t ms f = each (validate_dimension t ms f) ds"

fun visit_snapshot_sums :: "fact_model \<Rightarrow> calculation \<Rightarrow> unit compiled" where
  "visit_snapshot_sums f (Aggregate g x only flt) =
     require (\<not> (g = Sum \<and> x \<noteq> None \<and> x \<noteq> Some [] \<and> the x \<in> set (fm_snapshot_fields f))) SNAPSHOT_SUM_FORBIDDEN"
| "visit_snapshot_sums f (Binary b l r) = and_then (visit_snapshot_sums f l) (\<lambda>_. visit_snapshot_sums f r)"
| "visit_snapshot_sums f _ = Inr ()"

definition assert_no_snapshot_sums :: "metric_contract list \<Rightarrow> fact_model \<Rightarrow> unit compiled" where
  "assert_no_snapshot_sums ms f = each (\<lambda>m. visit_snapshot_sums f (mc_calculation m)) ms"

section \<open>Time\<close>

definition ACTIVE_CUSTOMERS :: string where "ACTIVE_CUSTOMERS = ''customers.active_customers''"
definition LAPSED_CUSTOMERS :: string where "LAPSED_CUSTOMERS = ''customers.lapsed_customers''"
definition STOCK_COVER :: string where "STOCK_COVER = ''inventory.stock_cover_days''"

definition calendar_for_context :: "platform \<Rightarrow> compiler_context \<Rightarrow> tenant_calendar compiled" where
  "calendar_for_context pf cx = normalize_tenant_calendar (pf_zone pf) (cx_calendar cx)"

definition metric_window :: "compiler_context \<Rightarrow> metric_contract \<Rightarrow> int list compiled" where
  "metric_window cx m =
     (if mc_id m = ACTIVE_CUSTOMERS then and_then (tenant_parameter_days cx ''active_customer_days'') (\<lambda>n. Inr [n])
      else if mc_id m = STOCK_COVER then and_then (tenant_parameter_days cx ''stock_velocity_days'') (\<lambda>n. Inr [n])
      else Inr [])"

definition apply_tenant_metric_window ::
    "platform \<Rightarrow> resolved_range \<Rightarrow> metric_contract list \<Rightarrow> compiler_context \<Rightarrow> tenant_calendar \<Rightarrow> resolved_range compiled" where
  "apply_tenant_metric_window pf requested ms cx cal =
     and_then (map_r (metric_window cx) ms) (\<lambda>ws.
       if concat ws = [] then Inr requested
       else shift_range_start_by_days (pf_zone pf) requested (Max (set (concat ws))) cal)"

definition trusted_window :: "platform \<Rightarrow> compiler_context \<Rightarrow> resolved_range \<Rightarrow> tenant_calendar \<Rightarrow> string \<Rightarrow> string \<Rightarrow> string list build" where
  "trusted_window pf cx period cal key comparison =
     bind_b (lift_b (and_then (tenant_parameter_days cx key) (\<lambda>n. shift_range_start_by_days (pf_zone pf) period n cal))) (\<lambda>w.
     bind_b (add_parameter (Text (range_from w))) (\<lambda>p. pure_b [col ''f'' ''last_order_at'' @ comparison @ p]))"

definition trusted_metric_predicates ::
    "platform \<Rightarrow> compiler_context \<Rightarrow> resolved_range \<Rightarrow> tenant_calendar \<Rightarrow> metric_contract \<Rightarrow> string list build" where
  "trusted_metric_predicates pf cx period cal m =
     (if mc_id m = ACTIVE_CUSTOMERS then trusted_window pf cx period cal ''active_customer_days'' '' >= ''
      else if mc_id m = LAPSED_CUSTOMERS then trusted_window pf cx period cal ''lapsed_customer_days'' '' < ''
      else pure_b [])"

definition time_parameter_values :: "string \<Rightarrow> resolved_range \<Rightarrow> string \<times> string" where
  "time_parameter_values field period =
     (if field = ''business_date'' \<or> field = ''snapshot_date'' \<or> suffix ''_date'' field
      then (from_business_date period, to_business_date period) else (range_from period, range_to period))"

section \<open>Calculations\<close>

definition field_given :: "string option \<Rightarrow> bool" where
  "field_given x \<longleftrightarrow> x \<noteq> None \<and> x \<noteq> Some []"

text \<open>\<open>/^f\."([a-z_][a-z0-9_]*)"$/\<close>, matched against the rendered time field.\<close>

definition is_time_column :: "string \<Rightarrow> bool" where
  "is_time_column s \<longleftrightarrow>
     (case s of
        a # b # c # rest \<Rightarrow> a = CHR ''f'' \<and> b = CHR ''.'' \<and> c = dq \<and> rest \<noteq> [] \<and> last rest = dq \<and>
          safe_identifier (butlast rest) \<and> CHR ''.'' \<notin> set rest
      | _ \<Rightarrow> False)"

definition snapshot_latest_column :: "string \<Rightarrow> string" where
  "snapshot_latest_column field = ''__snapshot_latest__'' @ field"

fun aggregate_name :: "agg_op \<Rightarrow> string" where
  "aggregate_name Sum = ''SUM''"
| "aggregate_name Avg = ''AVG''"
| "aggregate_name Count = ''COUNT''"
| "aggregate_name Count_distinct = ''COUNT_DISTINCT''"
| "aggregate_name Last_value = ''LAST_VALUE''"
| "aggregate_name Min_of = ''MIN''"
| "aggregate_name Max_of = ''MAX''"

text \<open>\<open>/^-?\d+(?:\.\d{1,4})?$/\<close>.\<close>

definition is_exact_literal :: "string \<Rightarrow> bool" where
  "is_exact_literal v =
     (let u = (if v \<noteq> [] \<and> hd v = CHR ''-'' then tl v else v); whole = takeWhile is_digit u; rest = dropWhile is_digit u
      in whole \<noteq> [] \<and> (rest = [] \<or>
         (hd rest = CHR ''.'' \<and> tl rest \<noteq> [] \<and> length (tl rest) \<le> 4 \<and> list_all is_digit (tl rest))))"

record render_env =
  re_fact :: fact_model
  re_metrics :: "metric_contract list"
  re_joins :: "identity_join list"
  re_trusted :: "string list"

definition filter_clause :: "string list \<Rightarrow> string" where
  "filter_clause ps = (if ps = [] then [] else '' FILTER (WHERE '' @ conj_with ps @ '')'')"

definition render_aggregate ::
    "render_env \<Rightarrow> filter_contract list \<Rightarrow> string \<Rightarrow> agg_op \<Rightarrow> string option \<Rightarrow> bool \<Rightarrow> filter_contract option \<Rightarrow> string build" where
  "render_aggregate env filters order g x only flt =
     bind_b (map_b (render_contract_filter (re_joins env)) (filters @ (case flt of None \<Rightarrow> [] | Some c \<Rightarrow> [c]))) (\<lambda>fs.
     bind_b (if field_given x then lift_b (resolved_fact_field (re_joins env) ''f'' (the x)) else pure_b ''*'') (\<lambda>field.
     let predicates = fs @ re_trusted env in
     if g = Last_value then
       if \<not> field_given x \<or> fm_snapshot_keys (re_fact env) = [] then fail_b SNAPSHOT_SUM_FORBIDDEN
       else if \<not> is_time_column order then fail_b INVALID_TIME_FIELD
       else bind_b (lift_b (column ''f'' (snapshot_latest_column (the x)))) (\<lambda>latest.
         pure_b (''SUM('' @ field @ '') FILTER (WHERE '' @
           conj_with (predicates @ [field @ '' IS NOT NULL'', order @ '' = '' @ latest]) @ '')''))
     else if g = Count_distinct then pure_b (''COUNT(DISTINCT '' @ field @ '')'' @ filter_clause predicates)
     else pure_b (aggregate_name g @ ''('' @ (if only then ''DISTINCT '' else []) @ field @ '')'' @ filter_clause predicates)))"

fun binary_text :: "bin_op \<Rightarrow> string \<Rightarrow> string \<Rightarrow> string" where
  "binary_text Add l r = ''('' @ l @ '' + '' @ r @ '')''"
| "binary_text Subtract l r = ''('' @ l @ '' - '' @ r @ '')''"
| "binary_text Multiply l r = ''('' @ l @ '' * '' @ r @ '')''"
| "binary_text Divide l r = ''('' @ l @ '' / NULLIF('' @ r @ '', 0))''"

text \<open>\<open>renderCalculation\<close>: the stack holds the metrics being rendered.\<close>

function render_calculation :: "render_env \<Rightarrow> string list \<Rightarrow> filter_contract list \<Rightarrow> string \<Rightarrow> calculation \<Rightarrow> string build" where
  "render_calculation env stack filters order (Field x) = lift_b (resolved_fact_field (re_joins env) ''f'' x)"
| "render_calculation env stack filters order (Literal v) =
     (if \<not> is_exact_literal v then fail_b INVALID_PARAMETER
      else bind_b (add_parameter (Text v)) (\<lambda>p. pure_b (''CAST('' @ p @ '' AS numeric)'')))"
| "render_calculation env stack filters order (Metric k) =
     (case metric_named (re_metrics env) k of
        None \<Rightarrow> fail_b CROSS_FACT_QUERY
      | Some dep \<Rightarrow>
          if mc_base_fact dep \<noteq> fm_id (re_fact env) then fail_b CROSS_FACT_QUERY
          else if mc_id dep \<in> set stack then fail_b INVALID_IR
          else bind_b (lift_b (column ''f'' (mc_default_time dep))) (\<lambda>time.
            render_calculation env (mc_id dep # stack) (mc_filters dep) time (mc_calculation dep)))"
| "render_calculation env stack filters order (Binary b l r) =
     bind_b (render_calculation env stack filters order l) (\<lambda>x.
     bind_b (render_calculation env stack filters order r) (\<lambda>y. pure_b (binary_text b x y)))"
| "render_calculation env stack filters order (Conditional c l r) =
     bind_b (render_contract_filter (re_joins env) c) (\<lambda>w.
     bind_b (render_calculation env stack filters order l) (\<lambda>x.
     bind_b (render_calculation env stack filters order r) (\<lambda>y.
       pure_b (''(CASE WHEN '' @ w @ '' THEN '' @ x @ '' ELSE '' @ y @ '' END)''))))"
| "render_calculation env stack filters order (Aggregate g x only flt) = render_aggregate env filters order g x only flt"
  by pat_completeness auto
termination
  by (relation "measures [\<lambda>(env, stack, filters, order, x). unvisited (re_metrics env) stack, \<lambda>(env, stack, filters, order, x). size x]")
    (auto intro: unvisited_decreases metric_keys_intro)

definition precision_of :: "metric_unit \<Rightarrow> string" where
  "precision_of u = (case u of Counted \<Rightarrow> ''0'' | Days \<Rightarrow> ''1'' | _ \<Rightarrow> ''2'')"

definition rounded_to_display_precision :: "string \<Rightarrow> metric_contract \<Rightarrow> string" where
  "rounded_to_display_precision e m = ''ROUND(CAST('' @ e @ '' AS numeric), '' @ precision_of (mc_unit m) @ '')''"

definition render_metric_calculation ::
    "render_env \<Rightarrow> compiler_context \<Rightarrow> string \<Rightarrow> metric_contract \<Rightarrow> string build" where
  "render_metric_calculation env cx to_parameter m =
     (if mc_id m \<noteq> STOCK_COVER then
        bind_b (lift_b (column ''f'' (mc_default_time m))) (\<lambda>time.
          render_calculation env [mc_id m] (mc_filters m) time (mc_calculation m))
      else case mc_calculation m of
        Binary Divide l r \<Rightarrow>
          bind_b (lift_b (tenant_parameter_days cx ''stock_velocity_days'')) (\<lambda>days.
          bind_b (add_parameter (Number (of_int days))) (\<lambda>w.
          bind_b (lift_b (column ''f'' (mc_default_time m))) (\<lambda>time.
          bind_b (render_calculation env [mc_id m] (mc_filters m) time l) (\<lambda>numerator.
          bind_b (map_b (render_contract_filter (re_joins env)) (mc_filters m)) (\<lambda>fs.
            let filters = fs @ re_trusted env @
              [col ''f'' ''business_date'' @ '' >= (CAST('' @ to_parameter @ '' AS date) - CAST('' @ w @ '' AS integer))'',
               col ''f'' ''business_date'' @ '' < CAST('' @ to_parameter @ '' AS date)''];
              daily_demand = ''(SUM('' @ col ''f'' ''units_sold'' @ '') FILTER (WHERE '' @ conj_with filters @ '') / CAST('' @ w @ '' AS numeric))''
            in pure_b (''('' @ numerator @ '' / NULLIF('' @ daily_demand @ '', 0))''))))))
      | _ \<Rightarrow> fail_b INVALID_IR)"

end
