(* ===== verification/Semantic_Single.thy ===== *)
theory Semantic_Single
  imports Semantic_Render
begin

text \<open>
  The rest of \<open>renderSingle\<close>: the projections that let a caller check coverage, the precomputed latest
  snapshot, the dimension joins and filters, and the statement they make up.
\<close>

section \<open>Slice validation\<close>

function calculation_fields :: "metric_contract list \<Rightarrow> string list \<Rightarrow> calculation \<Rightarrow> string list" where
  "calculation_fields ms stack (Field x) = [x]"
| "calculation_fields ms stack (Literal v) = []"
| "calculation_fields ms stack (Aggregate g x only flt) = (if field_given x then [the x] else [])"
| "calculation_fields ms stack (Binary b l r) = calculation_fields ms stack l @ calculation_fields ms stack r"
| "calculation_fields ms stack (Conditional c l r) = calculation_fields ms stack l @ calculation_fields ms stack r"
| "calculation_fields ms stack (Metric k) =
     (if k \<in> set stack then []
      else case metric_named ms k of None \<Rightarrow> [] | Some dep \<Rightarrow> calculation_fields ms (k # stack) (mc_calculation dep))"
  by pat_completeness auto
termination
  by (relation "measures [\<lambda>(ms, stack, x). unvisited ms stack, \<lambda>(ms, stack, x). size x]")
    (auto intro: unvisited_decreases metric_keys_intro)

fun metric_dependency_ids :: "calculation \<Rightarrow> string list" where
  "metric_dependency_ids (Metric k) = [k]"
| "metric_dependency_ids (Binary b l r) = metric_dependency_ids l @ metric_dependency_ids r"
| "metric_dependency_ids (Conditional c l r) = metric_dependency_ids l @ metric_dependency_ids r"
| "metric_dependency_ids _ = []"

function metric_needs_cost_coverage :: "metric_contract list \<Rightarrow> string list \<Rightarrow> metric_contract \<Rightarrow> bool" where
  "metric_needs_cost_coverage ms stack m =
     (if ''cost_coverage'' \<in> set (mc_tests m) \<or> list_ex (suffix ''.cost'') (mc_capabilities m) then True
      else list_ex (\<lambda>k. if k \<in> set stack then False
        else case metric_named ms k of None \<Rightarrow> False | Some dep \<Rightarrow> metric_needs_cost_coverage ms (k # stack) dep)
        (metric_dependency_ids (mc_calculation m)))"
  by pat_completeness auto
termination
  by (relation "measure (\<lambda>(ms, stack, m). unvisited ms stack)") (auto intro: unvisited_decreases metric_keys_intro)

declare metric_needs_cost_coverage.simps [simp del]

definition is_cost_coverage_field :: "string \<Rightarrow> bool" where
  "is_cost_coverage_field x \<longleftrightarrow> sublist ''cost'' x \<or> x = ''stock_value'' \<or> x = ''labour_cost''"

definition cost_eligibility_predicate :: "fact_model \<Rightarrow> string \<Rightarrow> string" where
  "cost_eligibility_predicate f x =
     (if x = ''labour_cost'' \<and> ''worked_minutes'' \<in> set (fm_fields f) then col ''f'' ''worked_minutes'' @ '' > 0''
      else if x = ''cost_of_goods_sold'' \<and> ''units_sold'' \<in> set (fm_fields f) then col ''f'' ''units_sold'' @ '' <> 0''
      else if x = ''stock_value'' \<and> ''quantity_on_hand'' \<in> set (fm_fields f) then col ''f'' ''quantity_on_hand'' @ '' IS NOT NULL''
      else ''TRUE'')"

text \<open>\<open>basePredicates\<close> renders the filters when it is first called; \<open>base\<close> is what it has rendered.\<close>

definition base_predicates :: "render_env \<Rightarrow> metric_contract \<Rightarrow> string list option \<Rightarrow> string list build" where
  "base_predicates env m base =
     (case base of
        Some ps \<Rightarrow> pure_b ps
      | None \<Rightarrow> bind_b (map_b (render_contract_filter (re_joins env)) (mc_filters m)) (\<lambda>fs. pure_b (fs @ re_trusted env)))"

definition count_where :: "string list \<Rightarrow> string \<Rightarrow> (string \<times> string) build" where
  "count_where ps a = bind_b (lift_b (as_alias (''COUNT(*) FILTER (WHERE '' @ conj_with ps @ '')'') a)) (\<lambda>s. pure_b (a, s))"

definition not_null :: "render_env \<Rightarrow> string \<Rightarrow> string compiled" where
  "not_null env x = and_then (resolved_fact_field (re_joins env) ''f'' x) (\<lambda>e. Inr (e @ '' IS NOT NULL''))"

type_synonym validation_part = "(string \<times> string) list \<times> string list option"

definition coverage_part :: "render_env \<Rightarrow> metric_contract \<Rightarrow> string list \<Rightarrow> string list option \<Rightarrow> validation_part build" where
  "coverage_part env m used base =
     (let coverage_fields = filter is_cost_coverage_field used in
      if \<not> metric_needs_cost_coverage (re_metrics env) [mc_id m] m \<or> coverage_fields = [] then pure_b ([], base)
      else
        let eligibility = filter (\<lambda>p. p \<noteq> []) (map (cost_eligibility_predicate (re_fact env)) coverage_fields) in
        bind_b (base_predicates env m base) (\<lambda>b.
        let eligible = b @ [if eligibility = [] then ''TRUE'' else ''('' @ join_with '' OR '' eligibility @ '')''] in
        bind_b (lift_b (map_r (not_null env) coverage_fields)) (\<lambda>seen.
        bind_b (count_where eligible (''__coverage_eligible__'' @ short_metric_name (mc_id m))) (\<lambda>e.
        bind_b (count_where (eligible @ seen) (''__coverage_observed__'' @ short_metric_name (mc_id m))) (\<lambda>seen_count.
          pure_b ([e, seen_count], Some b))))))"

definition currency_part :: "render_env \<Rightarrow> metric_contract \<Rightarrow> string list \<Rightarrow> string list option \<Rightarrow> validation_part build" where
  "currency_part env m used base =
     (if (mc_unit m = Currency \<or> mc_unit m = Currency_per_unit) \<and> ''currency'' \<in> set (fm_fields (re_fact env)) then
        bind_b (lift_b (map_r (not_null env) used)) (\<lambda>cs.
        let contributors = (if used = [] then ''TRUE'' else ''('' @ join_with '' OR '' cs @ '')'') in
        bind_b (base_predicates env m base) (\<lambda>b.
        let a = ''__currency_codes__'' @ short_metric_name (mc_id m) in
        bind_b (lift_b (resolved_fact_field (re_joins env) ''f'' ''currency'')) (\<lambda>currency.
        bind_b (lift_b (as_alias (''STRING_AGG(DISTINCT '' @ currency @ comma @ sql_text '','' @ '' ORDER BY '' @ currency @
            '') FILTER (WHERE '' @ conj_with (b @ [contributors]) @ '')'') a)) (\<lambda>s.
          pure_b ([(a, s)], Some b)))))
      else pure_b ([], base))"

definition settlement_exists :: string where
  "settlement_exists =
     ''EXISTS ('' @ nl @
     ''        SELECT 1'' @ nl @
     ''        FROM core.event_link settlement_link'' @ nl @
     ''        WHERE settlement_link.tenant_id=f.'' @ quoted ''tenant_id'' @ nl @
     ''          AND settlement_link.link_type='' @ sql_text ''settlement_of'' @ nl @
     ''          AND settlement_link.from_object_type='' @ sql_text ''BankTransactions'' @ nl @
     ''          AND settlement_link.to_object_type='' @ sql_text ''SalePayment'' @ nl @
     ''          AND settlement_link.to_connection_id=f.'' @ quoted ''primary_connection_id'' @ nl @
     ''          AND settlement_link.to_source_record_id=f.'' @ quoted ''primary_source_record_id'' @ nl @
     ''      )''"

definition settlement_part :: "render_env \<Rightarrow> metric_contract \<Rightarrow> string list option \<Rightarrow> validation_part build" where
  "settlement_part env m base =
     (if fm_id (re_fact env) = ''commerce_payment'' \<and> ''settlement_bridge_coverage'' \<in> set (mc_tests m) then
        bind_b (base_predicates env m base) (\<lambda>b.
        let eligible = (if b = [] then [''TRUE''] else b) in
        bind_b (count_where eligible (''__settlement_eligible__'' @ short_metric_name (mc_id m))) (\<lambda>e.
        bind_b (count_where (eligible @ [settlement_exists]) (''__settlement_linked__'' @ short_metric_name (mc_id m))) (\<lambda>l.
          pure_b ([e, l], Some b))))
      else pure_b ([], base))"

definition render_slice_validation :: "render_env \<Rightarrow> metric_contract \<Rightarrow> (string \<times> string) list build" where
  "render_slice_validation env m =
     (let used = filter (\<lambda>x. x \<in> set (fm_fields (re_fact env))) (calculation_fields (re_metrics env) [mc_id m] (mc_calculation m)) in
      bind_b (coverage_part env m used None) (\<lambda>c.
      bind_b (currency_part env m used (snd c)) (\<lambda>u.
      bind_b (settlement_part env m (snd u)) (\<lambda>s. pure_b (fst c @ fst u @ fst s)))))"

section \<open>Latest snapshots\<close>

text \<open>\<open>collectSnapshotWindows\<close>: the used of \<open>last_value\<close> measures, each once, with the default time
  of the metric asked for.\<close>

function snapshot_fields_of :: "metric_contract list \<Rightarrow> string list \<Rightarrow> calculation \<Rightarrow> string list" where
  "snapshot_fields_of ms stack (Aggregate g x only flt) = (if g = Last_value \<and> field_given x then [the x] else [])"
| "snapshot_fields_of ms stack (Metric k) =
     (if k \<in> set stack then []
      else case metric_named ms k of None \<Rightarrow> [] | Some dep \<Rightarrow> snapshot_fields_of ms (k # stack) (mc_calculation dep))"
| "snapshot_fields_of ms stack (Binary b l r) = snapshot_fields_of ms stack l @ snapshot_fields_of ms stack r"
| "snapshot_fields_of ms stack (Conditional c l r) = snapshot_fields_of ms stack l @ snapshot_fields_of ms stack r"
| "snapshot_fields_of ms stack (Field x) = []"
| "snapshot_fields_of ms stack (Literal v) = []"
  by pat_completeness auto
termination
  by (relation "measures [\<lambda>(ms, stack, x). unvisited ms stack, \<lambda>(ms, stack, x). size x]")
    (auto intro: unvisited_decreases metric_keys_intro)

definition collect_snapshot_windows :: "metric_contract list \<Rightarrow> metric_contract \<Rightarrow> (string \<times> string) list" where
  "collect_snapshot_windows ms m =
     map (\<lambda>x. (x, mc_default_time m)) (uniq (snapshot_fields_of ms [mc_id m] (mc_calculation m)))"

definition snapshot_select :: "string \<Rightarrow> string \<Rightarrow> string \<Rightarrow> string compiled" where
  "snapshot_select time_field entities field =
     and_then (column ''base'' time_field) (\<lambda>t. and_then (column ''base'' field) (\<lambda>x.
       as_alias (''MAX('' @ t @ '') FILTER (WHERE '' @ x @ '' IS NOT NULL) OVER (PARTITION BY '' @ entities @ '')'') (snapshot_latest_column field)))"

definition render_snapshot_latest_source ::
    "fact_model \<Rightarrow> metric_contract list \<Rightarrow> metric_contract list \<Rightarrow> string \<Rightarrow> string \<Rightarrow> string option compiled" where
  "render_snapshot_latest_source f ms reg from_parameter to_parameter =
     (let windows = concat (map (collect_snapshot_windows reg) ms) in
      if fm_snapshot_keys f = [] \<or> windows = [] \<or> length (uniq (map snd windows)) \<noteq> 1 then Inr None
      else
        let time_field = snd (hd windows); base_joins = resolve_identity_joins f ''snapshot_identity'' in
        and_then (render_identity_joins base_joins ''base'') (\<lambda>base_join_sql.
        and_then (map_r (resolved_fact_field base_joins ''base'') (fm_snapshot_keys f)) (\<lambda>ks.
        and_then (map_r (snapshot_select time_field (join_with comma ks)) (uniq (map fst windows))) (\<lambda>selects.
        and_then (column ''base'' time_field) (\<lambda>t.
        and_then (quote_qualified (fm_table f)) (\<lambda>table.
          Inr (Some (''(SELECT base.*, '' @ join_with comma selects @ nl @ ''   FROM '' @ table @ '' base'' @
            (if base_join_sql = [] then [] else nl @ ''   '' @ base_join_sql) @ nl @ ''  WHERE '' @
            conj_with [col ''base'' ''tenant_id'' @ '' = $1'', t @ '' >= '' @ from_parameter, t @ '' < '' @ to_parameter] @ '') f''))))))))"

section \<open>Dimensions\<close>

record dimension_join =
  dj_dimension :: string
  dj_join :: join_contract
  dj_alias :: string
  dj_display :: string

definition resolve_join :: "fact_model \<Rightarrow> nat \<Rightarrow> string \<Rightarrow> dimension_join compiled" where
  "resolve_join f i d =
     (case join_for f d of
        None \<Rightarrow> Inl ILLEGAL_JOIN
      | Some j \<Rightarrow>
          if jc_cardinality j \<noteq> Many_to_one then Inl ILLEGAL_JOIN
          else case map_of (jc_fields j) d of
            None \<Rightarrow> Inl ILLEGAL_JOIN
          | Some x \<Rightarrow> if x = [] then Inl ILLEGAL_JOIN
                      else Inr \<lparr>dj_dimension = d, dj_join = j, dj_alias = CHR ''d'' # string_of_nat i, dj_display = x\<rparr>)"

fun resolve_joins :: "fact_model \<Rightarrow> nat \<Rightarrow> string list \<Rightarrow> dimension_join list compiled" where
  "resolve_joins f i [] = Inr []"
| "resolve_joins f i (d # ds) = and_then (resolve_join f i d) (\<lambda>j. and_then (resolve_joins f (Suc i) ds) (\<lambda>js. Inr (j # js)))"

definition rollup_alias :: "string \<Rightarrow> string" where
  "rollup_alias a = a @ ''_rollup''"

definition join_label_expression :: "dimension_join \<Rightarrow> string compiled" where
  "join_label_expression d =
     and_then (column (dj_alias d) (dj_display d)) (\<lambda>own.
     case jc_rollup_key (dj_join d) of
       None \<Rightarrow> Inr own
     | Some _ \<Rightarrow> and_then (column (rollup_alias (dj_alias d)) (dj_display d)) (\<lambda>up. Inr (''COALESCE('' @ up @ comma @ own @ '')'')))"

definition join_key_expression :: "identity_join list \<Rightarrow> dimension_join \<Rightarrow> string compiled" where
  "join_key_expression js d =
     (case jc_rollup_key (dj_join d) of
        None \<Rightarrow> resolved_fact_field js ''f'' (jc_fact_key (dj_join d))
      | Some k \<Rightarrow>
          and_then (column (dj_alias d) k) (\<lambda>up. and_then (column (dj_alias d) (jc_dimension_key (dj_join d))) (\<lambda>leaf.
            Inr (''COALESCE('' @ up @ comma @ leaf @ '')''))))"

text \<open>What a dimension adds: its selected columns, its grouping expressions and its hidden key.\<close>

type_synonym grouping = "string list \<times> string list \<times> string"

definition hidden_key :: "string \<Rightarrow> string" where
  "hidden_key d = ''__key_'' @ d"

definition joined_grouping :: "identity_join list \<Rightarrow> dimension_join \<Rightarrow> grouping compiled" where
  "joined_grouping js d =
     and_then (join_key_expression js d) (\<lambda>key.
     and_then (join_label_expression d) (\<lambda>label.
     and_then (as_alias key (hidden_key (dj_dimension d))) (\<lambda>k.
     and_then (as_alias label (dj_dimension d)) (\<lambda>l.
       Inr ([k, l], [key, label], hidden_key (dj_dimension d))))))"

definition derived_grouping :: "string \<Rightarrow> grouping compiled" where
  "derived_grouping d =
     and_then (derived_expression d ''f'') (\<lambda>e.
     let key = (case derived_sort_key d ''f'' of None \<Rightarrow> e | Some k \<Rightarrow> k) in
     and_then (as_alias e d) (\<lambda>l.
     and_then (as_alias key (hidden_key d)) (\<lambda>k.
       Inr ([l, k], (if key = e then [e] else [e, key]), hidden_key d))))"

definition join_clauses :: "identity_join list \<Rightarrow> dimension_join \<Rightarrow> string list compiled" where
  "join_clauses js d =
     (let j = dj_join d; a = dj_alias d in
      and_then (quote_qualified (jc_table j)) (\<lambda>t.
      and_then (column a (jc_dimension_key j)) (\<lambda>dk.
      and_then (resolved_fact_field js ''f'' (jc_fact_key j)) (\<lambda>fk.
      let base = ''LEFT JOIN '' @ t @ '' '' @ a @ '' ON '' @ col a ''tenant_id'' @ '' = '' @ col ''f'' ''tenant_id'' @ '' AND '' @ dk @ '' = '' @ fk
      in case jc_rollup_key j of
        None \<Rightarrow> Inr [base]
      | Some rk \<Rightarrow>
          and_then (column (rollup_alias a) (jc_dimension_key j)) (\<lambda>uk.
          and_then (column a rk) (\<lambda>ak.
            Inr [base, ''LEFT JOIN '' @ t @ '' '' @ rollup_alias a @ '' ON '' @ col (rollup_alias a) ''tenant_id'' @ '' = '' @
              col a ''tenant_id'' @ '' AND '' @ uk @ '' = '' @ ak]))))))"

section \<open>Filters of the query\<close>

definition filter_only_dimensions :: "fact_model \<Rightarrow> dimension_join list \<Rightarrow> filter_contract list \<Rightarrow> string list" where
  "filter_only_dimensions f joins filters =
     filter (\<lambda>d. \<not> is_derived_date d \<and> d \<notin> dj_dimension ` set joins \<and>
         list_ex (\<lambda>j. join_offers d j \<and> jc_cardinality j = Many_to_one) (fm_joins f))
       (uniq (map fc_field filters))"

definition render_user_filter ::
    "topic_contract \<Rightarrow> metric_contract list \<Rightarrow> fact_model \<Rightarrow> identity_join list \<Rightarrow> (string \<times> string) list \<Rightarrow> filter_contract \<Rightarrow> string build" where
  "render_user_filter t ms f js labels c =
     bind_b (check_b (fc_field c \<in> set (tp_dimensions t)) ILLEGAL_DIMENSION) (\<lambda>_.
     if is_derived_date (fc_field c) then
       bind_b (lift_b (derived_expression (fc_field c) ''f'')) (\<lambda>e. render_filter_expression e (fc_op c) (fc_values c))
     else
       bind_b (lift_b (each (\<lambda>m. require (fc_field c \<in> set (mc_dimensions m)) ILLEGAL_DIMENSION) ms)) (\<lambda>_.
       case join_for f (fc_field c) of
         None \<Rightarrow> fail_b ILLEGAL_JOIN
       | Some j \<Rightarrow>
           if jc_cardinality j \<noteq> Many_to_one then fail_b ILLEGAL_JOIN
           else bind_b (lift_b (resolved_fact_field js ''f'' (jc_fact_key j))) (\<lambda>key.
             let label = map_of (rev labels) (fc_field c) in
             if label = None \<or> label = Some [] \<or> fc_op c \<notin> {Eq_op, Neq_op, In_op, Not_in_op}
             then render_filter_expression key (fc_op c) (fc_values c)
             else if fc_op c \<in> {Neq_op, Not_in_op} then
               let positive = (if fc_op c = Neq_op then Eq_op else In_op) in
               bind_b (render_filter_expression key positive (fc_values c)) (\<lambda>k.
               bind_b (render_filter_expression (the label) positive (fc_values c)) (\<lambda>l.
                 pure_b (''(('' @ k @ '' OR '' @ l @ '') IS NOT TRUE)'')))
             else
               bind_b (render_filter_expression key (fc_op c) (fc_values c)) (\<lambda>k.
               bind_b (render_filter_expression (the label) (fc_op c) (fc_values c)) (\<lambda>l.
                 pure_b (''('' @ k @ '' OR '' @ l @ '')''))))))"


section \<open>A single aggregate\<close>

record resolved_time =
  rt_range :: resolved_range
  rt_compare :: "compare_mode option"
  rt_comparison :: "resolved_range option"

record rendered_single =
  rs_sql :: string
  rs_metric_ids :: "string list"
  rs_aliases :: "(string \<times> string) list"
  rs_dimensions :: "string list"
  rs_hidden :: "string list"
  rs_validation :: "string list"
  rs_table :: string
  rs_requested :: resolved_range
  rs_resolved :: resolved_time

text \<open>Everything that is checked and resolved before the first parameter is bound.\<close>

record single_plan =
  pl_metrics :: "metric_contract list"
  pl_fact :: fact_model
  pl_calendar :: tenant_calendar
  pl_requested :: resolved_range
  pl_period :: resolved_range

definition single_fact :: "semantic_registry \<Rightarrow> metric_contract list \<Rightarrow> fact_model compiled" where
  "single_fact r ms =
     (case uniq (map mc_base_fact ms) of
        [k] \<Rightarrow> (case fact_named (reg_facts r) k of None \<Rightarrow> Inl UNKNOWN_METRIC | Some f \<Rightarrow> Inr f)
      | _ \<Rightarrow> Inl CROSS_FACT_QUERY)"

definition check_metric :: "compiler_context \<Rightarrow> metric_contract \<Rightarrow> unit compiled" where
  "check_metric cx m = and_then (check_capabilities (mc_capabilities m) (cx_capabilities cx)) (\<lambda>_. validate_tenant_parameters m (cx_parameters cx))"

definition plan_single ::
    "platform \<Rightarrow> compiler_context \<Rightarrow> semantic_registry \<Rightarrow> topic_contract \<Rightarrow> subquery \<Rightarrow> single_plan compiled" where
  "plan_single pf cx r t q =
     and_then (resolve_metrics (sq_metrics q) t r) (\<lambda>ms.
     and_then (single_fact r ms) (\<lambda>f.
     and_then (each (\<lambda>k. require (k \<notin> set (concat (map mc_parameters ms))) INVALID_PARAMETER) (map fst (sq_parameters q))) (\<lambda>_.
     and_then (each (check_metric cx) ms) (\<lambda>_.
     and_then (validate_dimensions (sq_dimensions q) t ms f) (\<lambda>_.
     and_then (require (ts_field (sq_time q) \<in> set (fm_time_fields f)) INVALID_TIME_FIELD) (\<lambda>_.
     and_then (assert_no_snapshot_sums ms f) (\<lambda>_.
     and_then (calendar_for_context pf cx) (\<lambda>cal.
     and_then (resolve_tenant_time_range (pf_zone pf) (pf_parse pf) (ts_range (sq_time q)) (cx_now cx) cal) (\<lambda>requested.
     and_then (apply_tenant_metric_window pf requested ms cx cal) (\<lambda>period.
       Inr \<lparr>pl_metrics = ms, pl_fact = f, pl_calendar = cal, pl_requested = requested, pl_period = period\<rparr>))))))))))"

record dimension_plan =
  dp_joins :: "dimension_join list"
  dp_labels :: "(string \<times> string) list"
  dp_groupings :: "grouping list"

definition plan_dimensions :: "fact_model \<Rightarrow> identity_join list \<Rightarrow> subquery \<Rightarrow> dimension_plan compiled" where
  "plan_dimensions f js q =
     and_then (resolve_joins f 0 (filter (\<lambda>d. \<not> is_derived_date d) (sq_dimensions q))) (\<lambda>joins.
     and_then (resolve_joins f (length joins) (filter_only_dimensions f joins (sq_filters q))) (\<lambda>filter_joins.
     and_then (map_r (\<lambda>d. and_then (join_label_expression d) (\<lambda>l. Inr (dj_dimension d, l))) (joins @ filter_joins)) (\<lambda>labels.
     and_then (map_r (joined_grouping js) joins) (\<lambda>gs.
     and_then (map_r derived_grouping
         (filter (\<lambda>d. is_derived_date d \<and> d \<notin> dj_dimension ` set joins) (sq_dimensions q))) (\<lambda>ds.
       Inr \<lparr>dp_joins = joins @ filter_joins, dp_labels = labels, dp_groupings = gs @ ds\<rparr>)))))"

type_synonym trusted_cache = "(string \<times> string list) list"

definition trusted_for :: "(metric_contract \<Rightarrow> string list build) \<Rightarrow> trusted_cache \<Rightarrow> metric_contract \<Rightarrow> (string list \<times> trusted_cache) build" where
  "trusted_for trusted cache m =
     (case map_of cache (mc_id m) of
        Some ps \<Rightarrow> pure_b (ps, cache)
      | None \<Rightarrow> bind_b (trusted m) (\<lambda>ps. pure_b (ps, (mc_id m, ps) # cache)))"

text \<open>The predicates that keep a metric beside the lapse metric inside the reporting period.\<close>

definition metric_time_predicates :: "bool \<Rightarrow> string \<Rightarrow> string \<Rightarrow> string \<Rightarrow> metric_contract \<Rightarrow> string list compiled" where
  "metric_time_predicates has_lapsed field from_parameter to_parameter m =
     (if has_lapsed \<and> mc_id m \<noteq> LAPSED_CUSTOMERS then
        and_then (column ''f'' field) (\<lambda>t. Inr [t @ '' >= '' @ from_parameter, t @ '' < '' @ to_parameter])
      else Inr [])"

fun metric_selects ::
    "render_env \<Rightarrow> compiler_context \<Rightarrow> (metric_contract \<Rightarrow> string list build) \<Rightarrow> (metric_contract \<Rightarrow> string list compiled) \<Rightarrow>
     string \<Rightarrow> trusted_cache \<Rightarrow> metric_contract list \<Rightarrow> (string list \<times> trusted_cache) build" where
  "metric_selects env cx trusted timed to_parameter cache [] = pure_b ([], cache)"
| "metric_selects env cx trusted timed to_parameter cache (m # ms) =
     bind_b (lift_b (timed m)) (\<lambda>time_predicates.
     bind_b (trusted_for trusted cache m) (\<lambda>tc.
     bind_b (render_metric_calculation (env\<lparr>re_trusted := fst tc @ time_predicates\<rparr>) cx to_parameter m) (\<lambda>e.
     bind_b (lift_b (as_alias (rounded_to_display_precision e m) (short_metric_name (mc_id m)))) (\<lambda>s.
     bind_b (metric_selects env cx trusted timed to_parameter (snd tc) ms) (\<lambda>rest. pure_b (s # fst rest, snd rest))))))"

fun validation_selects ::
    "render_env \<Rightarrow> (metric_contract \<Rightarrow> string list build) \<Rightarrow> trusted_cache \<Rightarrow> metric_contract list \<Rightarrow> (string \<times> string) list build" where
  "validation_selects env trusted cache [] = pure_b []"
| "validation_selects env trusted cache (m # ms) =
     bind_b (trusted_for trusted cache m) (\<lambda>tc.
     bind_b (render_slice_validation (env\<lparr>re_trusted := fst tc\<rparr>) m) (\<lambda>v.
     bind_b (validation_selects env trusted (snd tc) ms) (\<lambda>rest. pure_b (v @ rest))))"

definition metric_aliases :: "metric_contract list \<Rightarrow> (string \<times> string) list" where
  "metric_aliases ms = foldl (\<lambda>a m. AList.update (mc_id m) (short_metric_name (mc_id m)) a) [] ms"

definition time_predicates :: "bool \<Rightarrow> string \<Rightarrow> string \<Rightarrow> string \<Rightarrow> string list compiled" where
  "time_predicates has_lapsed field from_parameter to_parameter =
     and_then (column ''f'' field) (\<lambda>t.
       Inr ([col ''f'' ''tenant_id'' @ '' = $1''] @ (if has_lapsed then [] else [t @ '' >= '' @ from_parameter]) @ [t @ '' < '' @ to_parameter]))"

definition single_statement :: "string list \<Rightarrow> string \<Rightarrow> string \<Rightarrow> string list \<Rightarrow> string list \<Rightarrow> string" where
  "single_statement selects source join_sql conditions group_by =
     ''SELECT'' @ nl @ ''  '' @ join_with ('','' @ nl @ ''  '') selects @ nl @ ''FROM '' @ source @
     (if join_sql = [] then [] else nl @ join_sql) @ nl @ ''WHERE '' @ join_with (nl @ ''  AND '') conditions @ nl @
     (if group_by = [] then [] else ''GROUP BY '' @ join_with comma group_by @ nl)"

text \<open>What follows the two time parameters. \<open>source\<close> is the relation scanned.\<close>

definition fact_source :: "semantic_registry \<Rightarrow> single_plan \<Rightarrow> string \<Rightarrow> string \<Rightarrow> string compiled" where
  "fact_source r pl from_parameter to_parameter =
     and_then (render_snapshot_latest_source (pl_fact pl) (pl_metrics pl) (reg_metrics r) from_parameter to_parameter) (\<lambda>s.
     case s of Some x \<Rightarrow> Inr x | None \<Rightarrow> and_then (quote_qualified (fm_table (pl_fact pl))) (\<lambda>t. Inr (t @ '' f'')))"

definition has_lapsed_metric :: "metric_contract list \<Rightarrow> bool" where
  "has_lapsed_metric ms \<longleftrightarrow> list_ex (\<lambda>m. mc_id m = LAPSED_CUSTOMERS) ms"

text \<open>The parts after the metrics, in the order of the code.\<close>

definition render_rest ::
    "semantic_registry \<Rightarrow> topic_contract \<Rightarrow> subquery \<Rightarrow> single_plan \<Rightarrow> string \<Rightarrow> string \<Rightarrow> render_env \<Rightarrow>
     (metric_contract \<Rightarrow> string list build) \<Rightarrow> dimension_plan \<Rightarrow> string list \<times> trusted_cache \<Rightarrow> rendered_single build" where
  "render_rest r t q pl from_parameter to_parameter env trusted dp sel =
     (let f = pl_fact pl; ms = pl_metrics pl; js = re_joins env in
      bind_b (validation_selects env trusted (snd sel) ms) (\<lambda>val.
      bind_b (lift_b (time_predicates (has_lapsed_metric ms) (ts_field (sq_time q)) from_parameter to_parameter)) (\<lambda>conditions.
      bind_b (map_b (render_user_filter t ms f js (dp_labels dp)) (sq_filters q)) (\<lambda>user.
      bind_b (lift_b (render_identity_joins js ''f'')) (\<lambda>identity_sql.
      bind_b (lift_b (map_r (join_clauses js) (dp_joins dp))) (\<lambda>clauses.
      bind_b (lift_b (fact_source r pl from_parameter to_parameter)) (\<lambda>source.
        let join_sql = join_with nl (filter (\<lambda>x. x \<noteq> []) [identity_sql, join_with nl (concat clauses)]) in
        pure_b \<lparr>rs_sql = single_statement (concat (map fst (dp_groupings dp)) @ fst sel @ map snd val) source join_sql
                  (conditions @ user) (concat (map (\<lambda>g. fst (snd g)) (dp_groupings dp))),
                rs_metric_ids = map mc_id ms, rs_aliases = metric_aliases ms, rs_dimensions = sq_dimensions q,
                rs_hidden = map (\<lambda>g. snd (snd g)) (dp_groupings dp), rs_validation = map fst val, rs_table = fm_table f,
                rs_requested = pl_requested pl,
                rs_resolved = \<lparr>rt_range = pl_period pl, rt_compare = ts_compare (sq_time q), rt_comparison = None\<rparr>\<rparr>)))))))"

definition render_body ::
    "platform \<Rightarrow> compiler_context \<Rightarrow> semantic_registry \<Rightarrow> topic_contract \<Rightarrow> subquery \<Rightarrow> single_plan \<Rightarrow> string \<Rightarrow> string \<Rightarrow>
     rendered_single build" where
  "render_body pf cx r t q pl from_parameter to_parameter =
     (let js = resolve_identity_joins (pl_fact pl) ''identity'';
          env = \<lparr>re_fact = pl_fact pl, re_metrics = reg_metrics r, re_joins = js, re_trusted = []\<rparr>;
          trusted = trusted_metric_predicates pf cx (pl_period pl) (pl_calendar pl);
          timed = metric_time_predicates (has_lapsed_metric (pl_metrics pl)) (ts_field (sq_time q)) from_parameter to_parameter
      in
      bind_b (lift_b (plan_dimensions (pl_fact pl) js q)) (\<lambda>dp.
      bind_b (metric_selects env cx trusted timed to_parameter [] (pl_metrics pl)) (\<lambda>sel.
        render_rest r t q pl from_parameter to_parameter env trusted dp sel)))"

definition render_single ::
    "platform \<Rightarrow> compiler_context \<Rightarrow> semantic_registry \<Rightarrow> topic_contract \<Rightarrow> subquery \<Rightarrow> rendered_single build" where
  "render_single pf cx r t q =
     bind_b (lift_b (plan_single pf cx r t q)) (\<lambda>pl.
     let values = time_parameter_values (ts_field (sq_time q)) (pl_period pl);
         needs_lower = \<not> has_lapsed_metric (pl_metrics pl) \<or> list_ex (\<lambda>m. mc_id m \<noteq> LAPSED_CUSTOMERS) (pl_metrics pl) in
     bind_b (if needs_lower then bind_b (add_parameter (Text (fst values))) (\<lambda>p. pure_b (Some p)) else pure_b None) (\<lambda>lower.
     bind_b (add_parameter (Text (snd values))) (\<lambda>to_parameter.
       render_body pf cx r t q pl (case lower of Some p \<Rightarrow> p | None \<Rightarrow> to_parameter) to_parameter)))"

end
