(* ===== verification/Semantic_Compiler.thy ===== *)
theory Semantic_Compiler
  imports Semantic_Single "HOL-Library.List_Lexorder"
begin

text \<open>
  \<open>compileSemanticQuery\<close> of \<open>packages/compiler/src/compiler.ts\<close>: single queries, their comparison with a
  prior period, composites that aggregate each fact and align the results, the row and cost budgets,
  and the validation evidence. The schema of \<open>ir.ts\<close> is checked by a library; the parsed query is a
  parameter, and \<open>query_schema\<close> says what the schema admits.
\<close>

section \<open>Queries\<close>

record single_query =
  qs_query :: subquery
  qs_sort :: "sort_item list"
  qs_limit :: int

record composite_query =
  qc_topic :: string
  qc_metrics :: "string list"
  qc_queries :: "subquery list"
  qc_align :: "string list"
  qc_sort :: "sort_item list"
  qc_limit :: int

datatype semantic_query = Single single_query | Composite composite_query

definition between :: "nat \<Rightarrow> nat \<Rightarrow> 'a list \<Rightarrow> bool" where
  "between a b xs \<longleftrightarrow> a \<le> length xs \<and> length xs \<le> b"

definition names_given :: "string list \<Rightarrow> bool" where
  "names_given xs \<longleftrightarrow> list_all (\<lambda>x. x \<noteq> []) xs"

definition filter_schema :: "filter_contract \<Rightarrow> bool" where
  "filter_schema f \<longleftrightarrow> fc_field f \<noteq> [] \<and> length (fc_values f) \<le> 100"

fun range_schema :: "time_range \<Rightarrow> bool" where
  "range_schema (Last_n_days n) \<longleftrightarrow> 1 \<le> n \<and> n \<le> 366"
| "range_schema (Last_n_complete_days n) \<longleftrightarrow> 1 \<le> n \<and> n \<le> 366"
| "range_schema (Last_n_complete_weeks n) \<longleftrightarrow> 1 \<le> n \<and> n \<le> 53"
| "range_schema (Last_n_complete_months n) \<longleftrightarrow> 1 \<le> n \<and> n \<le> 24"
| "range_schema _ \<longleftrightarrow> True"

definition subquery_schema :: "subquery \<Rightarrow> bool" where
  "subquery_schema q \<longleftrightarrow> sq_topic q \<noteq> [] \<and> between 1 20 (sq_metrics q) \<and> names_given (sq_metrics q) \<and>
     between 0 8 (sq_dimensions q) \<and> names_given (sq_dimensions q) \<and> between 0 20 (sq_filters q) \<and>
     list_all filter_schema (sq_filters q) \<and> ts_field (sq_time q) \<noteq> [] \<and> range_schema (ts_range (sq_time q))"

definition result_schema :: "sort_item list \<Rightarrow> int \<Rightarrow> bool" where
  "result_schema sorts limit \<longleftrightarrow> between 0 5 sorts \<and> names_given (map so_metric sorts) \<and> 1 \<le> limit \<and> limit \<le> 1000"

fun query_schema :: "semantic_query \<Rightarrow> bool" where
  "query_schema (Single q) \<longleftrightarrow> subquery_schema (qs_query q) \<and> result_schema (qs_sort q) (qs_limit q)"
| "query_schema (Composite q) \<longleftrightarrow> qc_topic q \<noteq> [] \<and> between 1 10 (qc_metrics q) \<and> names_given (qc_metrics q) \<and>
     between 2 4 (qc_queries q) \<and> list_all subquery_schema (qc_queries q) \<and> between 1 4 (qc_align q) \<and>
     names_given (qc_align q) \<and> result_schema (qc_sort q) (qc_limit q)"

section \<open>Order and limit\<close>

text \<open>\<open>resolveResultOrdering\<close>: the column and direction of each sorts item.\<close>

definition resolve_ordering :: "sort_item list \<Rightarrow> (string \<times> string) list \<Rightarrow> (string \<times> direction) list compiled" where
  "resolve_ordering sorts aliases =
     map_r (\<lambda>i. case find (\<lambda>e. fst e = so_metric i \<or> snd e = so_metric i) aliases of
        None \<Rightarrow> Inl UNKNOWN_METRIC | Some e \<Rightarrow> Inr (snd e, so_direction i)) sorts"

definition order_clause :: "string \<times> direction \<Rightarrow> string compiled" where
  "order_clause o' = and_then (quote_identifier (fst o')) (\<lambda>q. Inr (q @ (case snd o' of Asc \<Rightarrow> '' ASC'' | Desc \<Rightarrow> '' DESC'')))"

definition render_sort :: "sort_item list \<Rightarrow> (string \<times> string) list \<Rightarrow> string option \<Rightarrow> string compiled" where
  "render_sort sorts aliases default_column =
     and_then (resolve_ordering sorts aliases) (\<lambda>ordering.
     if ordering = [] then
       (case default_column of
          None \<Rightarrow> Inr []
        | Some d \<Rightarrow> and_then (quote_identifier d) (\<lambda>q. Inr (''ORDER BY '' @ q @ '' ASC'' @ nl)))
     else and_then (map_r order_clause ordering) (\<lambda>cs. Inr (''ORDER BY '' @ join_with comma cs @ nl)))"

definition chronological_order_column :: "string list \<Rightarrow> string option" where
  "chronological_order_column ds = map_option hidden_key (find (\<lambda>d. is_derived_date d \<and> d \<noteq> ''day_of_week'') ds)"

definition SHORT_WINDOW :: string where
  "SHORT_WINDOW = ''The selected time window is shorter than seven days.''"

definition time_warnings :: "platform \<Rightarrow> resolved_time \<Rightarrow> string list" where
  "time_warnings pf t =
     (case (pf_parse pf (range_to (rt_range t)), pf_parse pf (range_from (rt_range t))) of
        (Some stop, Some start) \<Rightarrow> if stop - start < 7 * 86400000 then [SHORT_WINDOW] else []
      | _ \<Rightarrow> [])"

definition estimate_cost :: "nat \<Rightarrow> nat \<Rightarrow> nat \<Rightarrow> nat" where
  "estimate_cost metrics dimensions facts = metrics * 5 + dimensions * 3 + facts * 20"

record compiled_query =
  co_sql :: string
  co_parameters :: "sql_value list"
  co_topic :: string
  co_metric_ids :: "string list"
  co_dimensions :: "string list"
  co_columns :: "string list"
  co_limit :: int
  co_order :: "(string \<times> direction) list"
  co_tables :: "string list"
  co_time :: resolved_time
  co_warnings :: "string list"
  co_max_rows :: int
  co_cost :: nat

definition enforce_cost_budget :: "js_num option \<Rightarrow> compiled_query \<Rightarrow> compiled_query compiled" where
  "enforce_cost_budget maximum c =
     (case maximum of
        None \<Rightarrow> Inr c
      | Some (Fin x) \<Rightarrow> if x < 0 then Inl INVALID_IR else if of_nat (co_cost c) > x then Inl QUERY_BUDGET_EXCEEDED else Inr c
      | Some _ \<Rightarrow> Inl INVALID_IR)"

section \<open>Comparison with a prior period\<close>

definition null_safe_alignment :: "string \<Rightarrow> string \<Rightarrow> string" where
  "null_safe_alignment l r =
     ''COALESCE(CAST('' @ l @ '' AS text), '' @ sql_text [] @ '') = COALESCE(CAST('' @ r @ '' AS text), '' @ sql_text [] @ '')'' @
     '' AND ('' @ l @ '' IS NULL) = ('' @ r @ '' IS NULL)''"

definition null_safe_key_alignment :: "string \<Rightarrow> string \<Rightarrow> string \<Rightarrow> string compiled" where
  "null_safe_key_alignment l r d = and_then (quote_identifier (hidden_key d)) (\<lambda>k. Inr (null_safe_alignment (l @ ''.'' @ k) (r @ ''.'' @ k)))"

definition has_prefix :: "string \<Rightarrow> string \<Rightarrow> bool" where
  "has_prefix p s \<longleftrightarrow> take (length p) s = p"

definition combine_validation_expressions :: "string \<Rightarrow> string list \<Rightarrow> string compiled" where
  "combine_validation_expressions a es =
     (if has_prefix ''__coverage_eligible__'' a \<or> has_prefix ''__coverage_observed__'' a \<or>
         has_prefix ''__settlement_eligible__'' a \<or> has_prefix ''__settlement_linked__'' a
      then Inr (join_with '' + '' (map (\<lambda>e. ''COALESCE('' @ e @ '', 0)'') es))
      else if has_prefix ''__currency_codes__'' a then Inr (''CONCAT_WS('' @ sql_text '','' @ comma @ join_with comma es @ '')'')
      else Inl INVALID_IR)"

definition combined_validation_select :: "string list \<Rightarrow> string \<Rightarrow> string compiled" where
  "combined_validation_select sources a =
     and_then (map_r (\<lambda>s. column s a) sources) (\<lambda>es. and_then (combine_validation_expressions a es) (\<lambda>e. as_alias e a))"

definition dimension_select :: "string \<Rightarrow> string \<Rightarrow> string \<Rightarrow> string compiled" where
  "dimension_select cur cmp d =
     and_then (column cur d) (\<lambda>c. and_then (column cmp d) (\<lambda>p. as_alias (''COALESCE('' @ c @ comma @ p @ '')'') d))"

definition change_columns :: "string \<Rightarrow> string list" where
  "change_columns a = [a, a @ ''__comparison'', a @ ''__change'', a @ ''__change_pct'']"

definition change_selects :: "string \<Rightarrow> string \<Rightarrow> string \<Rightarrow> string list compiled" where
  "change_selects cur cmp a =
     and_then (column cur a) (\<lambda>c. and_then (column cmp a) (\<lambda>p.
     let now = ''COALESCE('' @ c @ '', 0)''; before = ''COALESCE('' @ p @ '', 0)'' in
     map_r (\<lambda>e. as_alias (fst e) (snd e)) (zip
       [now, before, ''('' @ now @ '' - '' @ before @ '')'',
        ''CASE WHEN '' @ before @ '' = 0 THEN NULL ELSE ROUND(CAST(('' @ now @ '' - '' @ before @ '') * 100 / '' @ before @ '' AS numeric), 2) END'']
       (change_columns a))))"

text \<open>The statement that joins a current and a prior relation, up to its limit.\<close>

definition comparison_statement ::
    "string \<Rightarrow> string \<Rightarrow> string \<Rightarrow> string \<Rightarrow> string list \<Rightarrow> string list \<Rightarrow> string list \<Rightarrow> sort_item list \<Rightarrow> (string \<times> string) list \<Rightarrow>
     string \<Rightarrow> string compiled" where
  "comparison_statement cur cmp current_sql prior_sql dimensions aliases validation sorts sort_aliases limit_parameter =
     and_then (map_r (dimension_select cur cmp) dimensions) (\<lambda>ds.
     and_then (map_r (change_selects cur cmp) aliases) (\<lambda>ms.
     and_then (map_r (combined_validation_select [cur, cmp]) validation) (\<lambda>vs.
     and_then (map_r (null_safe_key_alignment cur cmp) dimensions) (\<lambda>ks.
     and_then (render_sort sorts sort_aliases None) (\<lambda>order.
       Inr (''WITH '' @ cur @ '' AS ('' @ nl @ indent current_sql @ nl @ ''),'' @ nl @ cmp @ '' AS ('' @ nl @ indent prior_sql @ nl @ '')'' @ nl @
         ''SELECT'' @ nl @ ''  '' @ join_with ('','' @ nl @ ''  '') (ds @ concat ms @ vs) @ nl @ ''FROM '' @ cur @ nl @
         ''FULL OUTER JOIN '' @ cmp @ '' ON '' @ (if ks = [] then ''TRUE'' else conj_with ks) @ nl @ order @ ''LIMIT '' @ limit_parameter))))))"

definition prior_query :: "subquery \<Rightarrow> resolved_range \<Rightarrow> subquery" where
  "prior_query q p = q\<lparr>sq_time := \<lparr>ts_field = ts_field (sq_time q), ts_range = Absolute (range_from p) (range_to p), ts_compare = None\<rparr>\<rparr>"

definition prior_period :: "platform \<Rightarrow> compiler_context \<Rightarrow> compare_mode \<Rightarrow> rendered_single \<Rightarrow> resolved_range compiled" where
  "prior_period pf cx mode s =
     and_then (calendar_for_context pf cx) (\<lambda>cal. resolve_comparison_time_range (pf_zone pf) (rs_requested s) mode cal)"

definition add_limit :: "int \<Rightarrow> string build" where
  "add_limit n = add_parameter (Number (of_int n))"

definition bound_values :: "sql_value list build" where
  "bound_values ps = Inr (ps, ps)"

definition compile_single ::
    "platform \<Rightarrow> compiler_context \<Rightarrow> semantic_registry \<Rightarrow> topic_contract \<Rightarrow> int \<Rightarrow> single_query \<Rightarrow> compiled_query build" where
  "compile_single pf cx r t max_rows q =
     (let sq = qs_query q in
      bind_b (render_single pf cx r t sq) (\<lambda>s.
      case ts_compare (sq_time sq) of
        None \<Rightarrow>
          bind_b (add_limit (qs_limit q)) (\<lambda>limit_parameter.
          bind_b (lift_b (render_sort (qs_sort q) (rs_aliases s) (chronological_order_column (sq_dimensions sq)))) (\<lambda>order.
          bind_b (lift_b (resolve_ordering (qs_sort q) (rs_aliases s))) (\<lambda>ordering.
          bind_b bound_values (\<lambda>ps. pure_b
            \<lparr>co_sql = rs_sql s @ nl @ order @ ''LIMIT '' @ limit_parameter, co_parameters = ps, co_topic = tp_id t,
             co_metric_ids = rs_metric_ids s, co_dimensions = rs_dimensions s, co_columns = rs_dimensions s @ map snd (rs_aliases s),
             co_limit = qs_limit q, co_order = ordering, co_tables = [rs_table s], co_time = rs_resolved s,
             co_warnings = time_warnings pf (rs_resolved s), co_max_rows = max_rows,
             co_cost = estimate_cost (length (sq_metrics sq)) (length (sq_dimensions sq)) 1\<rparr>))))
      | Some mode \<Rightarrow>
          bind_b (lift_b (prior_period pf cx mode s)) (\<lambda>p.
          bind_b (render_single pf cx r t (prior_query sq p)) (\<lambda>prior.
          bind_b (add_limit (qs_limit q)) (\<lambda>limit_parameter.
          bind_b (lift_b (comparison_statement ''current_period'' ''comparison_period'' (rs_sql s) (rs_sql prior) (sq_dimensions sq)
            (map snd (rs_aliases s)) (rs_validation s) (qs_sort q) (rs_aliases s) limit_parameter)) (\<lambda>sql.
          bind_b (lift_b (resolve_ordering (qs_sort q) (rs_aliases s))) (\<lambda>ordering.
          bind_b bound_values (\<lambda>ps.
            let time = \<lparr>rt_range = rt_range (rs_resolved s), rt_compare = Some mode, rt_comparison = Some (rt_range (rs_resolved prior))\<rparr> in
            pure_b \<lparr>co_sql = sql, co_parameters = ps, co_topic = tp_id t,
             co_metric_ids = rs_metric_ids s, co_dimensions = rs_dimensions s,
             co_columns = rs_dimensions s @ concat (map change_columns (map snd (rs_aliases s))),
             co_limit = qs_limit q, co_order = ordering, co_tables = [rs_table s], co_time = time,
             co_warnings = time_warnings pf time, co_max_rows = max_rows,
             co_cost = estimate_cost (length (sq_metrics sq)) (length (sq_dimensions sq)) 2\<rparr>))))))))"

section \<open>Composites\<close>

text \<open>\<open>renderAlignedCalculation\<close>: \<open>components\<close> maps the name of a component column to its expression.\<close>

definition component_value :: "(string \<times> string) list \<Rightarrow> string \<Rightarrow> string compiled" where
  "component_value components x =
     (case map_of components x of
        None \<Rightarrow> Inl INVALID_ALIGNMENT
      | Some e \<Rightarrow> if e = [] then Inl INVALID_ALIGNMENT else Inr (''COALESCE('' @ e @ '', 0)''))"

function render_aligned_calculation :: "metric_contract list \<Rightarrow> (string \<times> string) list \<Rightarrow> string list \<Rightarrow> calculation \<Rightarrow> string compiled" where
  "render_aligned_calculation ms components stack (Field x) = component_value components x"
| "render_aligned_calculation ms components stack (Literal v) = Inr (''CAST('' @ sql_text v @ '' AS numeric)'')"
| "render_aligned_calculation ms components stack (Aggregate g x only flt) =
     (if field_given x then component_value components (the x) else Inl INVALID_ALIGNMENT)"
| "render_aligned_calculation ms components stack (Metric k) =
     (case metric_named ms k of
        None \<Rightarrow> Inl INVALID_ALIGNMENT
      | Some dep \<Rightarrow>
          if mc_id dep \<in> set stack then Inl INVALID_ALIGNMENT
          else render_aligned_calculation ms components (mc_id dep # stack) (mc_calculation dep))"
| "render_aligned_calculation ms components stack (Binary b l r) =
     and_then (render_aligned_calculation ms components stack l) (\<lambda>x.
     and_then (render_aligned_calculation ms components stack r) (\<lambda>y. Inr (binary_text b x y)))"
| "render_aligned_calculation ms components stack (Conditional c l r) = Inl INVALID_ALIGNMENT"
  by pat_completeness auto
termination
  by (relation "measures [\<lambda>(ms, components, stack, x). unvisited ms stack, \<lambda>(ms, components, stack, x). size x]")
    (auto intro: unvisited_decreases metric_keys_intro)

record composite_plan =
  cp_sql :: string
  cp_metric_ids :: "string list"
  cp_aliases :: "(string \<times> string) list"
  cp_columns :: "string list"
  cp_validation :: "string list"

definition relation_name :: "string \<Rightarrow> nat \<Rightarrow> string" where
  "relation_name pre i = pre @ string_of_nat i"

text \<open>The loops over \<open>metricAliases\<close>: \<open>seen\<close> holds the ids and aliases taken, in order; its aliases are \<open>usedAliases\<close>.\<close>

fun collect_components :: "string \<Rightarrow> (string \<times> string) list \<Rightarrow> (nat \<times> string \<times> string) list \<Rightarrow>
    ((string \<times> string) list \<times> (string \<times> string) list) compiled" where
  "collect_components pre seen [] = Inr (seen, [])"
| "collect_components pre seen ((i, k, a) # xs) =
     (if k \<in> fst ` set seen \<or> a \<in> snd ` set seen then Inl INVALID_ALIGNMENT
      else and_then (column (relation_name pre i) a) (\<lambda>e.
           and_then (collect_components pre (seen @ [(k, a)]) xs) (\<lambda>r. Inr (fst r, (a, e) # snd r))))"

fun composite_selects :: "metric_contract list \<Rightarrow> (string \<times> string) list \<Rightarrow> (string \<times> string) list \<Rightarrow> metric_contract list \<Rightarrow>
    ((string \<times> string) list \<times> string list) compiled" where
  "composite_selects reg components seen [] = Inr (seen, [])"
| "composite_selects reg components seen (m # ms) =
     (let a = short_metric_name (mc_id m) in
      if mc_id m \<in> fst ` set seen \<or> a \<in> snd ` set seen then Inl INVALID_ALIGNMENT
      else and_then (render_aligned_calculation reg components [mc_id m] (mc_calculation m)) (\<lambda>e.
           and_then (as_alias (rounded_to_display_precision e m) a) (\<lambda>s.
           and_then (composite_selects reg components (seen @ [(mc_id m, a)]) ms) (\<lambda>r. Inr (fst r, s # snd r)))))"

definition indexed :: "'a list \<Rightarrow> (nat \<times> 'a) list" where
  "indexed xs = zip [0..<length xs] xs"

definition key_selects :: "string \<Rightarrow> nat \<Rightarrow> string \<Rightarrow> string list compiled" where
  "key_selects pre n d =
     and_then (map_r (\<lambda>i. column (relation_name pre i) (hidden_key d)) [0..<n]) (\<lambda>hidden.
     and_then (map_r (\<lambda>i. column (relation_name pre i) d) [0..<n]) (\<lambda>visible.
     and_then (as_alias (''COALESCE('' @ join_with comma hidden @ '')'') (hidden_key d)) (\<lambda>k.
     and_then (as_alias (''COALESCE('' @ join_with comma visible @ '')'') d) (\<lambda>v. Inr [k, v]))))"

definition validation_sources :: "rendered_single list \<Rightarrow> (string \<times> nat list) list" where
  "validation_sources rs =
     (let uses = concat (map (\<lambda>e. map (\<lambda>a. (a, fst e)) (rs_validation (snd e))) (indexed rs))
      in map (\<lambda>a. (a, map snd (filter (\<lambda>u. fst u = a) uses))) (uniq (map fst uses)))"

definition validation_select :: "string \<Rightarrow> string \<times> nat list \<Rightarrow> string compiled" where
  "validation_select pre v =
     and_then (map_r (\<lambda>i. column (relation_name pre i) (fst v)) (snd v)) (\<lambda>es.
     and_then (combine_validation_expressions (fst v) es) (\<lambda>e. as_alias e (fst v)))"

definition alignment_join :: "string \<Rightarrow> string list \<Rightarrow> nat \<Rightarrow> string compiled" where
  "alignment_join pre align i =
     and_then (map_r (\<lambda>d.
       and_then (map_r (\<lambda>p. column (relation_name pre p) (hidden_key d)) [0..<i]) (\<lambda>previous.
       and_then (column (relation_name pre i) (hidden_key d)) (\<lambda>own.
         Inr (null_safe_alignment own (''COALESCE('' @ join_with comma previous @ '')''))))) align) (\<lambda>ks.
       Inr (nl @ ''FULL OUTER JOIN '' @ relation_name pre i @ '' ON '' @ conj_with ks))"

definition render_composite_plan ::
    "rendered_single list \<Rightarrow> string list \<Rightarrow> metric_contract list \<Rightarrow> semantic_registry \<Rightarrow> string \<Rightarrow> composite_plan compiled" where
  "render_composite_plan rs align ms r pre =
     and_then (collect_components pre [] (concat (map (\<lambda>e. map (\<lambda>a. (fst e, a)) (rs_aliases (snd e))) (indexed rs)))) (\<lambda>c.
     and_then (composite_selects (reg_metrics r) (snd c) (fst c) ms) (\<lambda>s.
     and_then (map_r (key_selects pre (length rs)) align) (\<lambda>keys.
     and_then (map_r (\<lambda>e. as_alias (snd e) (fst e)) (snd c)) (\<lambda>components.
     and_then (map_r (validation_select pre) (validation_sources rs)) (\<lambda>validation.
     and_then (map_r (alignment_join pre align) [1..<length rs]) (\<lambda>joins.
       Inr \<lparr>cp_sql = ''WITH '' @ join_with ('','' @ nl) (map (\<lambda>e. relation_name pre (fst e) @ '' AS ('' @ nl @ indent (rs_sql (snd e)) @ nl @ '')'') (indexed rs)) @ nl @
              ''SELECT'' @ nl @ ''  '' @ join_with ('','' @ nl @ ''  '') (concat keys @ components @ snd s @ validation) @ nl @
              ''FROM '' @ relation_name pre 0 @ concat joins,
            cp_metric_ids = map fst (fst s), cp_aliases = fst s,
            cp_columns = map fst (snd c) @ map (\<lambda>m. short_metric_name (mc_id m)) ms,
            cp_validation = map fst (validation_sources rs)\<rparr>))))))"

definition same_requested :: "resolved_range \<Rightarrow> resolved_range \<Rightarrow> bool" where
  "same_requested a b \<longleftrightarrow> range_from a = range_from b \<and> range_to a = range_to b \<and>
     from_business_date a = from_business_date b \<and> to_business_date a = to_business_date b"

definition assert_aligned_times :: "rendered_single list \<Rightarrow> unit compiled" where
  "assert_aligned_times rs =
     (case rs of
        [] \<Rightarrow> Inl INVALID_ALIGNMENT
      | s # ss \<Rightarrow> require (list_all (\<lambda>x. same_requested (rs_requested x) (rs_requested s)) ss) INVALID_ALIGNMENT)"

text \<open>A subquery on a composite topic may only use component metrics of one fact.\<close>

definition check_component_topic :: "semantic_registry \<Rightarrow> topic_contract \<Rightarrow> subquery \<Rightarrow> unit compiled" where
  "check_component_topic r t q =
     (if tp_composite t then
        and_then (resolve_metrics (sq_metrics q) t r) (\<lambda>ms.
          require (length (uniq (map mc_base_fact ms)) = 1 \<and> \<not> list_ex (\<lambda>m. has_prefix ''composites.'' (mc_id m)) ms) INVALID_ALIGNMENT)
      else Inr ())"

definition render_component ::
    "platform \<Rightarrow> compiler_context \<Rightarrow> semantic_registry \<Rightarrow> string list \<Rightarrow> subquery \<Rightarrow> rendered_single build" where
  "render_component pf cx r align q =
     bind_b (check_b (same_set (sq_dimensions q) align \<and> distinct (sq_dimensions q)) INVALID_ALIGNMENT) (\<lambda>_.
     bind_b (lift_b (require_topic r (sq_topic q))) (\<lambda>t.
     bind_b (lift_b (check_component_topic r t q)) (\<lambda>_.
     bind_b (lift_b (check_role t (cx_role cx))) (\<lambda>_.
     bind_b (lift_b (check_capabilities (tp_capabilities t) (cx_capabilities cx))) (\<lambda>_. render_single pf cx r t q)))))"

definition render_prior_component ::
    "platform \<Rightarrow> compiler_context \<Rightarrow> semantic_registry \<Rightarrow> compare_mode \<Rightarrow> subquery \<times> rendered_single \<Rightarrow> rendered_single build" where
  "render_prior_component pf cx r mode e =
     bind_b (lift_b (prior_period pf cx mode (snd e))) (\<lambda>p.
     bind_b (lift_b (require_topic r (sq_topic (fst e)))) (\<lambda>t. render_single pf cx r t (prior_query (fst e) p)))"

definition check_composite_metric :: "compiler_context \<Rightarrow> string list \<Rightarrow> metric_contract \<Rightarrow> unit compiled" where
  "check_composite_metric cx align m =
     and_then (check_metric cx m) (\<lambda>_. require (\<forall>d\<in>set align. d \<in> set (mc_dimensions m)) ILLEGAL_DIMENSION)"

definition check_composite :: "topic_contract \<Rightarrow> composite_query \<Rightarrow> unit compiled" where
  "check_composite t q =
     (if \<not> tp_composite t then Inl INVALID_IR
      else if \<not> same_set (qc_align q) (filter (\<lambda>d. d \<in> set (qc_align q)) (tp_align_on t)) \<and>
              filter (\<lambda>d. d \<notin> set (tp_align_on t)) (qc_align q) \<noteq> [] then Inl INVALID_ALIGNMENT
      else if \<not> distinct (qc_align q) then Inl INVALID_ALIGNMENT
      else require (length (uniq (map (\<lambda>x. ts_compare (sq_time x)) (qc_queries q))) = 1) INVALID_ALIGNMENT)"

definition compile_composite ::
    "platform \<Rightarrow> compiler_context \<Rightarrow> semantic_registry \<Rightarrow> topic_contract \<Rightarrow> int \<Rightarrow> composite_query \<Rightarrow> compiled_query build" where
  "compile_composite pf cx r t max_rows q =
     bind_b (lift_b (check_composite t q)) (\<lambda>_.
     bind_b (map_b (render_component pf cx r (qc_align q)) (qc_queries q)) (\<lambda>rs.
     bind_b (check_b (distinct (map rs_table rs)) INVALID_ALIGNMENT) (\<lambda>_.
     bind_b (lift_b (assert_aligned_times rs)) (\<lambda>_.
     bind_b (lift_b (resolve_metrics (qc_metrics q) t r)) (\<lambda>ms.
     bind_b (lift_b (each (check_composite_metric cx (qc_align q)) ms)) (\<lambda>_.
     bind_b (lift_b (render_composite_plan rs (qc_align q) ms r ''q'')) (\<lambda>plan.
     let cost = (\<lambda>facts. estimate_cost (length (qc_metrics q) + length (cp_metric_ids plan)) (length (qc_align q)) facts);
         time = rs_resolved (hd rs) in
     case ts_compare (sq_time (hd (qc_queries q))) of
       None \<Rightarrow>
         bind_b (add_limit (qc_limit q)) (\<lambda>limit_parameter.
         bind_b (lift_b (render_sort (qc_sort q) (cp_aliases plan) (chronological_order_column (qc_align q)))) (\<lambda>order.
         bind_b (lift_b (resolve_ordering (qc_sort q) (cp_aliases plan))) (\<lambda>ordering.
         bind_b bound_values (\<lambda>ps. pure_b
           \<lparr>co_sql = cp_sql plan @ nl @ order @ ''LIMIT '' @ limit_parameter, co_parameters = ps, co_topic = tp_id t,
            co_metric_ids = cp_metric_ids plan, co_dimensions = qc_align q, co_columns = qc_align q @ cp_columns plan,
            co_limit = qc_limit q, co_order = ordering, co_tables = map rs_table rs, co_time = time,
            co_warnings = uniq (concat (map (\<lambda>s. time_warnings pf (rs_resolved s)) rs)), co_max_rows = max_rows,
            co_cost = cost (length rs)\<rparr>))))
     | Some mode \<Rightarrow>
         bind_b (map_b (render_prior_component pf cx r mode) (zip (qc_queries q) rs)) (\<lambda>priors.
         bind_b (lift_b (assert_aligned_times priors)) (\<lambda>_.
         bind_b (lift_b (render_composite_plan priors (qc_align q) ms r ''p'')) (\<lambda>prior_plan.
         bind_b (add_limit (qc_limit q)) (\<lambda>limit_parameter.
         bind_b (lift_b (comparison_statement ''current_composite'' ''comparison_composite'' (cp_sql plan) (cp_sql prior_plan) (qc_align q)
           (map snd (cp_aliases plan)) (cp_validation plan) (qc_sort q) (cp_aliases plan) limit_parameter)) (\<lambda>sql.
         bind_b (lift_b (resolve_ordering (qc_sort q) (cp_aliases plan))) (\<lambda>ordering.
         bind_b bound_values (\<lambda>ps. pure_b
           \<lparr>co_sql = sql, co_parameters = ps, co_topic = tp_id t, co_metric_ids = cp_metric_ids plan, co_dimensions = qc_align q,
            co_columns = qc_align q @ concat (map change_columns (cp_columns plan)), co_limit = qc_limit q, co_order = ordering,
            co_tables = map rs_table rs,
            co_time = \<lparr>rt_range = rt_range time, rt_compare = Some mode, rt_comparison = Some (rt_range (rs_resolved (hd priors)))\<rparr>,
            co_warnings = uniq (concat (map (\<lambda>s. time_warnings pf (rs_resolved s)) (rs @ priors))), co_max_rows = max_rows,
            co_cost = cost (length rs * 2)\<rparr>))))))))))))))"


section \<open>Validation evidence\<close>

record join_evidence =
  je_fact :: string
  je_dimension :: string
  je_cardinality :: cardinality

record snapshot_access =
  sa_fact :: string
  sa_field :: string
  sa_operation :: string

record metric_evidence =
  me_id :: string
  me_base_fact :: string
  me_grain :: string
  me_aggregation :: aggregation
  me_authority :: string
  me_tests :: "string list"
  me_dependencies :: "string list"
  me_snapshots :: "snapshot_access list"

record validation_evidence =
  ve_aligned :: bool
  ve_facts :: "string list"
  ve_align :: "string list"
  ve_joins :: "join_evidence list"
  ve_metrics :: "metric_evidence list"

function dependency_ids :: "metric_contract list \<Rightarrow> string list \<Rightarrow> calculation \<Rightarrow> string list compiled" where
  "dependency_ids ms stack (Metric k) =
     (if k \<in> set stack then Inl INVALID_IR
      else case metric_named ms k of
        None \<Rightarrow> Inl UNKNOWN_METRIC
      | Some dep \<Rightarrow> and_then (dependency_ids ms (mc_id dep # stack) (mc_calculation dep)) (\<lambda>l. Inr (mc_id dep # l)))"
| "dependency_ids ms stack (Binary b x y) =
     and_then (dependency_ids ms stack x) (\<lambda>l. and_then (dependency_ids ms stack y) (\<lambda>r. Inr (l @ r)))"
| "dependency_ids ms stack (Conditional c x y) =
     and_then (dependency_ids ms stack x) (\<lambda>l. and_then (dependency_ids ms stack y) (\<lambda>r. Inr (l @ r)))"
| "dependency_ids ms stack (Field x) = Inr []"
| "dependency_ids ms stack (Literal v) = Inr []"
| "dependency_ids ms stack (Aggregate g x only flt) = Inr []"
  by pat_completeness auto
termination
  by (relation "measures [\<lambda>(ms, stack, x). unvisited ms stack, \<lambda>(ms, stack, x). size x]")
    (auto dest!: metric_named_SomeD intro!: unvisited_decreases simp: metric_keys_def)

definition metric_dependencies :: "metric_contract \<Rightarrow> semantic_registry \<Rightarrow> string list compiled" where
  "metric_dependencies m r = and_then (dependency_ids (reg_metrics r) [mc_id m] (mc_calculation m)) (\<lambda>l. Inr (sort (uniq l)))"

fun operation_name :: "agg_op \<Rightarrow> string" where
  "operation_name Sum = ''sum''"
| "operation_name Avg = ''avg''"
| "operation_name Count = ''count''"
| "operation_name Count_distinct = ''count_distinct''"
| "operation_name Last_value = ''last_value''"
| "operation_name Min_of = ''min''"
| "operation_name Max_of = ''max''"

definition snapshot_access_of :: "semantic_registry \<Rightarrow> string \<Rightarrow> string \<Rightarrow> string \<Rightarrow> snapshot_access list" where
  "snapshot_access_of r base_fact x operation =
     (case fact_named (reg_facts r) base_fact of
        None \<Rightarrow> []
      | Some f \<Rightarrow> if x \<in> set (fm_snapshot_fields f) then [\<lparr>sa_fact = fm_id f, sa_field = x, sa_operation = operation\<rparr>] else [])"

function visit_snapshots :: "metric_contract list \<Rightarrow> semantic_registry \<Rightarrow> string \<Rightarrow> string list \<Rightarrow> calculation \<Rightarrow> snapshot_access list compiled" where
  "visit_snapshots ms r base stack (Metric k) =
     (if k \<in> set stack then Inl INVALID_IR
      else case metric_named ms k of
        None \<Rightarrow> Inl UNKNOWN_METRIC
      | Some dep \<Rightarrow> visit_snapshots ms r (mc_base_fact dep) (mc_id dep # stack) (mc_calculation dep))"
| "visit_snapshots ms r base stack (Binary b x y) =
     and_then (visit_snapshots ms r base stack x) (\<lambda>l. and_then (visit_snapshots ms r base stack y) (\<lambda>u. Inr (l @ u)))"
| "visit_snapshots ms r base stack (Conditional c x y) =
     and_then (visit_snapshots ms r base stack x) (\<lambda>l. and_then (visit_snapshots ms r base stack y) (\<lambda>u. Inr (l @ u)))"
| "visit_snapshots ms r base stack (Field x) = Inr (if x = [] then [] else snapshot_access_of r base x ''field'')"
| "visit_snapshots ms r base stack (Literal v) = Inr []"
| "visit_snapshots ms r base stack (Aggregate g x only flt) =
     Inr (if field_given x then snapshot_access_of r base (the x) (operation_name g) else [])"
  by pat_completeness auto
termination
  by (relation "measures [\<lambda>(ms, r, base, stack, x). unvisited ms stack, \<lambda>(ms, r, base, stack, x). size x]")
    (auto dest!: metric_named_SomeD intro!: unvisited_decreases simp: metric_keys_def)

definition access_key :: "snapshot_access \<Rightarrow> string" where
  "access_key a = sa_fact a @ '':'' @ sa_field a @ '':'' @ sa_operation a"

definition snapshot_accesses :: "(string \<Rightarrow> 'k::linorder) \<Rightarrow> metric_contract \<Rightarrow> semantic_registry \<Rightarrow> snapshot_access list compiled" where
  "snapshot_accesses collate m r =
     and_then (visit_snapshots (reg_metrics r) r (mc_base_fact m) [mc_id m] (mc_calculation m)) (\<lambda>l.
       Inr (sort_key (\<lambda>a. collate (access_key a)) (map snd (foldl (\<lambda>found a. AList.update (access_key a) a found) [] l))))"

definition metric_evidence_of :: "(string \<Rightarrow> 'k::linorder) \<Rightarrow> semantic_registry \<Rightarrow> string \<Rightarrow> metric_evidence compiled" where
  "metric_evidence_of collate r k =
     (case metric_named (reg_metrics r) k of
        None \<Rightarrow> Inl UNKNOWN_METRIC
      | Some m \<Rightarrow>
          and_then (metric_dependencies m r) (\<lambda>ds.
          and_then (snapshot_accesses collate m r) (\<lambda>ss.
            Inr \<lparr>me_id = mc_id m, me_base_fact = mc_base_fact m, me_grain = mc_grain m, me_aggregation = mc_aggregation m,
                 me_authority = mc_authority m, me_tests = sort (uniq (mc_tests m)), me_dependencies = ds, me_snapshots = ss\<rparr>)))"

type_synonym join_map = "(string \<times> join_evidence) list"

definition dimension_evidence :: "fact_model \<Rightarrow> join_map \<Rightarrow> string \<Rightarrow> join_map compiled" where
  "dimension_evidence f js d =
     (if is_derived_date d then Inr js
      else case join_for f d of
        None \<Rightarrow> Inl ILLEGAL_JOIN
      | Some j \<Rightarrow> Inr (AList.update (fm_id f @ '':'' @ d) \<lparr>je_fact = fm_id f, je_dimension = d, je_cardinality = jc_cardinality j\<rparr> js))"

definition identity_evidence :: "fact_model \<Rightarrow> join_map \<Rightarrow> join_contract \<Rightarrow> join_map" where
  "identity_evidence f js j =
     (case jc_identity j of
        None \<Rightarrow> js
      | Some t \<Rightarrow>
          let d = ''identity:'' @ identity_name t in
          AList.update (fm_id f @ '':'' @ d @ '':'' @ jc_fact_key j)
            \<lparr>je_fact = fm_id f, je_dimension = d, je_cardinality = jc_cardinality j\<rparr> js)"

definition subquery_evidence :: "semantic_registry \<Rightarrow> string list \<times> join_map \<Rightarrow> subquery \<Rightarrow> (string list \<times> join_map) compiled" where
  "subquery_evidence r acc q =
     and_then (require_topic r (sq_topic q)) (\<lambda>t.
     and_then (resolve_metrics (sq_metrics q) t r) (\<lambda>ms.
     and_then (single_fact r ms) (\<lambda>f.
     and_then (fold_r (dimension_evidence f) (snd acc) (sq_dimensions q)) (\<lambda>js.
       Inr (fst acc @ [fm_id f], foldl (identity_evidence f) js (fm_joins f))))))"

fun subqueries_of :: "semantic_query \<Rightarrow> subquery list" where
  "subqueries_of (Single q) = [qs_query q]"
| "subqueries_of (Composite q) = qc_queries q"

fun align_of :: "semantic_query \<Rightarrow> string list" where
  "align_of (Single q) = []"
| "align_of (Composite q) = qc_align q"

definition validation_evidence_of ::
    "(string \<Rightarrow> 'k::linorder) \<Rightarrow> semantic_registry \<Rightarrow> semantic_query \<Rightarrow> compiled_query \<Rightarrow> validation_evidence compiled" where
  "validation_evidence_of collate r q c =
     and_then (fold_r (subquery_evidence r) ([], []) (subqueries_of q)) (\<lambda>acc.
     and_then (map_r (metric_evidence_of collate r) (uniq (co_metric_ids c))) (\<lambda>ms.
       Inr \<lparr>ve_aligned = (case q of Single _ \<Rightarrow> False | Composite _ \<Rightarrow> True), ve_facts = uniq (fst acc), ve_align = align_of q,
            ve_joins = map snd (snd acc), ve_metrics = ms\<rparr>))"

section \<open>Compilation\<close>

definition max_rows_of :: "compiler_context \<Rightarrow> int" where
  "max_rows_of cx = min (case cx_max_rows cx of None \<Rightarrow> 1000 | Some n \<Rightarrow> n) 1000"

fun limit_of :: "semantic_query \<Rightarrow> int" where
  "limit_of (Single q) = qs_limit q"
| "limit_of (Composite q) = qc_limit q"

fun topic_of :: "semantic_query \<Rightarrow> string" where
  "topic_of (Single q) = sq_topic (qs_query q)"
| "topic_of (Composite q) = qc_topic q"

definition compile_kind :: "platform \<Rightarrow> compiler_context \<Rightarrow> semantic_registry \<Rightarrow> topic_contract \<Rightarrow> semantic_query \<Rightarrow> compiled_query build" where
  "compile_kind pf cx r t q =
     (case q of
        Composite c \<Rightarrow> compile_composite pf cx r t (max_rows_of cx) c
      | Single s \<Rightarrow> if tp_composite t then fail_b COMPOSITE_REQUIRED else compile_single pf cx r t (max_rows_of cx) s)"

definition compile_query :: "platform \<Rightarrow> (string \<Rightarrow> 'k::linorder) \<Rightarrow> semantic_registry \<Rightarrow> compiler_context \<Rightarrow> semantic_query \<Rightarrow>
    (compiled_query \<times> validation_evidence) compiled" where
  "compile_query pf collate r cx q =
     and_then (require (cx_tenant cx \<noteq> []) INVALID_IR) (\<lambda>_.
     and_then (require_topic r (topic_of q)) (\<lambda>t.
     and_then (check_role t (cx_role cx)) (\<lambda>_.
     and_then (check_capabilities (tp_capabilities t) (cx_capabilities cx)) (\<lambda>_.
     and_then (require (limit_of q \<le> max_rows_of cx) QUERY_BUDGET_EXCEEDED) (\<lambda>_.
     and_then (compile_kind pf cx r t q [Text (cx_tenant cx)]) (\<lambda>c.
     and_then (enforce_cost_budget (cx_max_cost cx) (fst c)) (\<lambda>c'.
     and_then (validation_evidence_of collate r q c') (\<lambda>e. Inr (c', e)))))))))"

definition compile_semantic_query ::
    "platform \<Rightarrow> (string \<Rightarrow> 'k::linorder) \<Rightarrow> ('raw \<Rightarrow> semantic_query option) \<Rightarrow> semantic_registry \<Rightarrow> compiler_context \<Rightarrow> 'raw \<Rightarrow>
     (compiled_query \<times> validation_evidence) compiled" where
  "compile_semantic_query pf collate parse r cx raw =
     (case parse raw of None \<Rightarrow> Inl INVALID_IR | Some q \<Rightarrow> compile_query pf collate r cx q)"

end
