(* ===== verification/Semantic_Samples.thy ===== *)
theory Semantic_Samples
  imports Semantic_Compiler
begin

text \<open>A registry with one order fact, and queries over it, at which the properties are applied.\<close>

definition sample_join :: join_contract where
  "sample_join = \<lparr>jc_dimension = ''worker'', jc_table = ''core.worker'', jc_fact_key = ''worker_id'', jc_dimension_key = ''id'',
     jc_rollup_key = None, jc_identity = Some Worker, jc_cardinality = Many_to_one, jc_fields = [(''worker'', ''name'')]\<rparr>"

definition sample_fact :: fact_model where
  "sample_fact = \<lparr>fm_id = ''order'', fm_table = ''core.order_fact'', fm_fields = [''id'', ''net'', ''worker_id'', ''business_date''],
     fm_time_fields = [''business_date''], fm_joins = [sample_join], fm_snapshot_fields = [], fm_snapshot_keys = [],
     fm_measures = [''net''], fm_fans_out = [], fm_grain_key = ''id''\<rparr>"

definition metric_named_as :: "string \<Rightarrow> calculation \<Rightarrow> metric_contract" where
  "metric_named_as k x = \<lparr>mc_id = k, mc_base_fact = ''order'', mc_grain = ''order'', mc_calculation = x, mc_default_time = ''business_date'',
     mc_filters = [], mc_aggregation = Sum_kind, mc_unit = Units, mc_authority = ''pos'', mc_dimensions = [''worker'', ''calendar_week''],
     mc_capabilities = [''sales''], mc_parameters = [], mc_tests = []\<rparr>"

definition sample_topic :: topic_contract where
  "sample_topic = \<lparr>tp_id = ''sales'', tp_facts = [''order''], tp_dimensions = [''worker'', ''calendar_week''],
     tp_metrics = [''sales.net'', ''sales.average''], tp_capabilities = [''sales''], tp_roles = [Owner], tp_composite = False, tp_align_on = []\<rparr>"

definition sample_registry :: semantic_registry where
  "sample_registry = \<lparr>reg_metrics =
       [metric_named_as ''sales.net'' (Aggregate Sum (Some ''net'') False None),
        metric_named_as ''sales.average'' (Binary Divide (Metric ''sales.net'') (Aggregate Count None False None))],
     reg_topics = [sample_topic], reg_facts = [sample_fact]\<rparr>"

definition sample_compiler_context :: compiler_context where
  "sample_compiler_context = \<lparr>cx_tenant = ''t'', cx_role = Owner, cx_capabilities = [''sales''], cx_now = ''now'',
     cx_calendar = calendar_as_input sample_calendar, cx_parameters = [], cx_max_rows = None, cx_max_cost = None\<rparr>"

definition sample_platform :: platform where
  "sample_platform = \<lparr>pf_zone = sample_zone, pf_parse = sample_now\<rparr>"

definition worker_filter :: "string \<Rightarrow> filter_contract" where
  "worker_filter w = \<lparr>fc_field = ''worker'', fc_op = Neq_op, fc_values = [Text w]\<rparr>"

definition sample_subquery :: "string \<Rightarrow> subquery" where
  "sample_subquery w = \<lparr>sq_topic = ''sales'', sq_metrics = [''average''], sq_dimensions = [''worker'', ''calendar_week''],
     sq_filters = [worker_filter w],
     sq_time = \<lparr>ts_field = ''business_date'', ts_range = Last_n_complete_weeks 6, ts_compare = None\<rparr>, sq_parameters = []\<rparr>"

definition sample_query :: "string \<Rightarrow> semantic_query" where
  "sample_query w = Single \<lparr>qs_query = sample_subquery w, qs_sort = [], qs_limit = 10\<rparr>"

definition sample_compiled :: "string \<Rightarrow> (compiled_query \<times> validation_evidence) compiled" where
  "sample_compiled w = compile_semantic_query sample_platform (\<lambda>s. s) Some sample_registry sample_compiler_context (sample_query w)"

lemma sample_compiles: "\<exists>c e. sample_compiled ''Leigh'' = Inr (c, e)"
proof -
  have "case sample_compiled ''Leigh'' of Inl _ \<Rightarrow> False | Inr _ \<Rightarrow> True" by code_simp
  then show ?thesis by (auto split: sum.splits)
qed

end
