(* ===== verification/Semantic_Authority.thy ===== *)
theory Semantic_Authority
  imports Semantic_Samples
begin

text \<open>
  What a compiled query was allowed to read: its topics admit the role, no capability is missing,
  its metrics belong to their topic and to one fact, every dimension and filter is approved and
  reached by a many-to-one join, and its limit and cost are within budget.
\<close>

section \<open>Steps that succeeded\<close>

lemma bind_b_Inr: "bind_b m f ps = Inr r \<longleftrightarrow> (\<exists>x ps'. m ps = Inr (x, ps') \<and> f x ps' = Inr r)"
  by (auto simp: bind_b_def and_then_Inr_iff)

lemma lift_b_Inr: "lift_b r ps = Inr (x, ps') \<longleftrightarrow> r = Inr x \<and> ps' = ps"
  by (auto simp: lift_b_def and_then_Inr_iff)

lemma pure_b_Inr: "pure_b x ps = Inr (y, ps') \<longleftrightarrow> y = x \<and> ps' = ps"
  by (auto simp: pure_b_def)

lemma fail_b_Inr: "fail_b e ps = Inr r \<longleftrightarrow> False"
  by (simp add: fail_b_def)

lemma check_b_Inr: "check_b b e ps = Inr (u, ps') \<longleftrightarrow> b \<and> ps' = ps"
  by (auto simp: check_b_def pure_b_def fail_b_def)

lemmas build_Inr = bind_b_Inr lift_b_Inr pure_b_Inr fail_b_Inr check_b_Inr and_then_Inr_iff

lemma map_b_Inr_D: "map_b f xs ps = Inr r \<Longrightarrow> \<forall>x\<in>set xs. \<exists>ps r. f x ps = Inr r"
proof (induction xs arbitrary: ps r)
  case (Cons a xs)
  then obtain x ps' y where "f a ps = Inr (x, ps')" "map_b f xs ps' = Inr y" by (auto simp: bind_b_Inr)
  with Cons.IH show ?case by auto
qed simp

section \<open>Metrics and dimensions\<close>

lemma resolve_metric_ok: "resolve_metric t r x = Inr m \<Longrightarrow> mc_id m \<in> set (tp_metrics t) \<and> m \<in> set (reg_metrics r)"
  by (auto simp: resolve_metric_def split: list.splits if_splits option.splits dest: metric_named_SomeD)

lemma resolve_metrics_ok: "resolve_metrics xs t r = Inr ms \<Longrightarrow> m \<in> set ms \<Longrightarrow> mc_id m \<in> set (tp_metrics t) \<and> m \<in> set (reg_metrics r)"
  unfolding resolve_metrics_def
  by (induction xs arbitrary: ms) (auto simp: and_then_Inr_iff dest: resolve_metric_ok)

lemma uniq_single: "uniq xs = [k] \<Longrightarrow> set xs = {k}"
  by (metis empty_set list.simps(15) set_uniq)

lemma single_fact_ok:
  assumes "single_fact r ms = Inr f" "m \<in> set ms"
  shows "mc_base_fact m = fm_id f" "fact_named (reg_facts r) (fm_id f) = Some f"
proof -
  obtain k where k: "uniq (map mc_base_fact ms) = [k]" "fact_named (reg_facts r) k = Some f"
    using assms(1) by (auto simp: single_fact_def split: list.splits option.splits)
  then have "fm_id f = k" by (auto simp: fact_named_def find_Some_iff)
  with uniq_single [OF k(1)] assms(2) k(2) show "mc_base_fact m = fm_id f" "fact_named (reg_facts r) (fm_id f) = Some f" by auto
qed

definition joinable :: "fact_model \<Rightarrow> string \<Rightarrow> bool" where
  "joinable f d \<longleftrightarrow> is_derived_date d \<or> (\<exists>j\<in>set (fm_joins f). join_offers d j \<and> jc_cardinality j = Many_to_one)"

definition approved :: "topic_contract \<Rightarrow> metric_contract list \<Rightarrow> fact_model \<Rightarrow> string \<Rightarrow> bool" where
  "approved t ms f d \<longleftrightarrow> d \<in> set (tp_dimensions t) \<and> (\<forall>m\<in>set ms. d \<in> set (mc_dimensions m)) \<and> joinable f d"

definition authorised :: "semantic_registry \<Rightarrow> compiler_context \<Rightarrow> topic_contract \<Rightarrow> subquery \<Rightarrow> bool" where
  "authorised r cx t q \<longleftrightarrow>
     (\<exists>ms f. resolve_metrics (sq_metrics q) t r = Inr ms \<and> single_fact r ms = Inr f \<and>
        (\<forall>m\<in>set ms. mc_id m \<in> set (tp_metrics t) \<and> mc_base_fact m = fm_id f \<and> set (mc_capabilities m) \<subseteq> set (cx_capabilities cx)) \<and>
        (\<forall>d\<in>set (sq_dimensions q). approved t ms f d) \<and> ts_field (sq_time q) \<in> set (fm_time_fields f) \<and>
        (\<forall>c\<in>set (sq_filters q). approved t ms f (fc_field c) \<or> is_derived_date (fc_field c) \<and> fc_field c \<in> set (tp_dimensions t)))"

lemma join_for_joinable: "join_for f d = Some j \<Longrightarrow> jc_cardinality j = Many_to_one \<Longrightarrow> joinable f d"
  unfolding join_for_def joinable_def by (auto simp: find_Some_iff)

lemma business_date_derived: "is_derived_date ''business_date''"
  by (simp add: is_derived_date_def DERIVED_DATE_DIMENSIONS_def)

lemma validate_dimension_ok:
  assumes "validate_dimension t ms f d = Inr u"
  shows "approved t ms f d"
proof -
  note run = assms [unfolded validate_dimension_def and_then_Inr_iff require_ok each_ok]
  then have "d \<in> set (tp_dimensions t)" "\<forall>m\<in>set ms. d \<in> set (mc_dimensions m)" by blast+
  moreover have "joinable f d"
  proof (cases "is_derived_date d")
    case False
    with business_date_derived have "d \<noteq> ''business_date''" by blast
    with run False show ?thesis by (simp split: option.splits add: join_for_joinable)
  qed (simp add: joinable_def)
  ultimately show ?thesis by (simp add: approved_def)
qed

lemma check_capabilities_ok: "check_capabilities required available = Inr u \<longleftrightarrow> set required \<subseteq> set available"
  by (auto simp: check_capabilities_def filter_empty_conv)

lemma joined_case_ok:
  assumes "(case join_for f d of None \<Rightarrow> fail_b ILLEGAL_JOIN | Some j \<Rightarrow> if jc_cardinality j \<noteq> Many_to_one then fail_b ILLEGAL_JOIN else g j) ps = Inr x"
  shows "joinable f d"
  using assms by (auto simp: fail_b_def split: option.splits if_splits intro: join_for_joinable)

lemma user_filter_ok:
  assumes "render_user_filter t ms f js labels c ps = Inr x"
  shows "approved t ms f (fc_field c) \<or> is_derived_date (fc_field c) \<and> fc_field c \<in> set (tp_dimensions t)"
proof (cases "is_derived_date (fc_field c)")
  case True
  with assms show ?thesis unfolding render_user_filter_def bind_b_Inr check_b_Inr by blast
next
  case False
  note run = assms [unfolded render_user_filter_def bind_b_Inr [of "check_b _ _"] if_not_P [OF False]
      bind_b_Inr [of "lift_b (each _ _)"] check_b_Inr lift_b_Inr each_ok require_ok]
  then have "fc_field c \<in> set (tp_dimensions t)" "\<forall>m\<in>set ms. fc_field c \<in> set (mc_dimensions m)" by blast+
  moreover have "joinable f (fc_field c)" using run by (elim exE conjE) (rule joined_case_ok)
  ultimately show ?thesis by (simp add: approved_def)
qed

lemma plan_single_ok:
  assumes "plan_single pf cx r t q = Inr pl"
  shows "resolve_metrics (sq_metrics q) t r = Inr (pl_metrics pl)" "single_fact r (pl_metrics pl) = Inr (pl_fact pl)"
    "\<forall>m\<in>set (pl_metrics pl). set (mc_capabilities m) \<subseteq> set (cx_capabilities cx)"
    "\<forall>d\<in>set (sq_dimensions q). approved t (pl_metrics pl) (pl_fact pl) d" "ts_field (sq_time q) \<in> set (fm_time_fields (pl_fact pl))"
  using assms
  by (auto simp: plan_single_def and_then_Inr_iff each_ok check_metric_def check_capabilities_ok validate_dimensions_def
      intro: validate_dimension_ok)

lemma render_body_filters:
  assumes "render_body pf cx r t q pl a b ps = Inr x"
  shows "\<exists>js labels. \<forall>c\<in>set (sq_filters q). \<exists>ps y. render_user_filter t (pl_metrics pl) (pl_fact pl) js labels c ps = Inr y"
proof -
  obtain js labels ps' y where "map_b (render_user_filter t (pl_metrics pl) (pl_fact pl) js labels) (sq_filters q) ps' = Inr y"
    using assms unfolding render_body_def render_rest_def Let_def bind_b_Inr by blast
  from map_b_Inr_D [OF this] show ?thesis by blast
qed

lemma render_single_authorised:
  assumes "render_single pf cx r t q ps = Inr x"
  shows "authorised r cx t q"
proof -
  obtain pl a b ps' where pl: "plan_single pf cx r t q = Inr pl" and body: "render_body pf cx r t q pl a b ps' = Inr x"
    using assms unfolding render_single_def Let_def bind_b_Inr lift_b_Inr by blast
  note ok = plan_single_ok [OF pl]
  have "approved t (pl_metrics pl) (pl_fact pl) (fc_field c) \<or> is_derived_date (fc_field c) \<and> fc_field c \<in> set (tp_dimensions t)"
    if "c \<in> set (sq_filters q)" for c
    using render_body_filters [OF body] that by (blast dest: user_filter_ok)
  with ok show ?thesis unfolding authorised_def
    by (blast intro: resolve_metrics_ok [OF ok(1), THEN conjunct1] single_fact_ok(1) [OF ok(2)])
qed

section \<open>Compiled queries\<close>

definition readable :: "semantic_registry \<Rightarrow> compiler_context \<Rightarrow> subquery \<Rightarrow> bool" where
  "readable r cx q \<longleftrightarrow>
     (\<exists>t. topic_named (reg_topics r) (sq_topic q) = Some t \<and> cx_role cx \<in> set (tp_roles t) \<and>
        set (tp_capabilities t) \<subseteq> set (cx_capabilities cx) \<and> authorised r cx t q)"

lemma require_topic_ok: "require_topic r k = Inr t \<longleftrightarrow> topic_named (reg_topics r) k = Some t"
  by (auto simp: require_topic_def split: option.splits)

lemma render_component_readable: "render_component pf cx r align q ps = Inr x \<Longrightarrow> readable r cx q"
  unfolding render_component_def readable_def
  by (auto simp: build_Inr require_topic_ok check_role_def check_capabilities_ok dest!: render_single_authorised)

lemma compile_kind_readable:
  assumes "compile_kind pf cx r t q ps = Inr x" "topic_named (reg_topics r) (topic_of q) = Some t"
    "cx_role cx \<in> set (tp_roles t)" "set (tp_capabilities t) \<subseteq> set (cx_capabilities cx)" "s \<in> set (subqueries_of q)"
  shows "readable r cx s"
proof (cases q)
  case (Single sq)
  then obtain y where "render_single pf cx r t (qs_query sq) ps = Inr y"
    using assms(1) by (auto simp: compile_kind_def compile_single_def fail_b_def bind_b_Inr Let_def split: if_splits)
  with Single assms(2-5) show ?thesis by (auto simp: readable_def dest: render_single_authorised)
next
  case (Composite c)
  then obtain ps' y where "map_b (render_component pf cx r (qc_align c)) (qc_queries c) ps' = Inr y"
    using assms(1) unfolding compile_kind_def compile_composite_def Composite semantic_query.case bind_b_Inr by blast
  from map_b_Inr_D [OF this] Composite assms(5) show ?thesis by (auto dest: render_component_readable)
qed

lemma enforce_cost_budget_ok:
  "enforce_cost_budget mx c = Inr c' \<Longrightarrow> c' = c \<and> (\<forall>x. mx = Some x \<longrightarrow> (\<exists>b. x = Fin b \<and> of_nat (co_cost c) \<le> b))"
  by (auto simp: enforce_cost_budget_def split: option.splits js_num.splits if_splits)



end
