(* ===== verification/Semantic_Blindness.thy ===== *)
theory Semantic_Blindness
  imports Semantic_Authority Semantic_Samples
begin

text \<open>
  The SQL of a query does not depend on the tenant it is compiled for, nor on the values of its
  filters: they reach the database as parameters only. Two runs of a step are compared from equally
  many bound values; related runs throw the same error or return related results and have bound
  equally many values.
\<close>

section \<open>Related runs\<close>

fun related :: "('a \<Rightarrow> 'b \<Rightarrow> bool) \<Rightarrow> (compiler_error_code, 'a \<times> sql_value list) result \<Rightarrow>
    (compiler_error_code, 'b \<times> sql_value list) result \<Rightarrow> bool" where
  "related R (Inl e) (Inl e') \<longleftrightarrow> e = e'"
| "related R (Inr (x, ps)) (Inr (y, qs)) \<longleftrightarrow> R x y \<and> length ps = length qs"
| "related R _ _ \<longleftrightarrow> False"

definition blind :: "('a \<Rightarrow> 'b \<Rightarrow> bool) \<Rightarrow> 'a build \<Rightarrow> 'b build \<Rightarrow> bool" where
  "blind R m m' \<longleftrightarrow> (\<forall>ps qs. length ps = length qs \<longrightarrow> related R (m ps) (m' qs))"

lemma blindD: "blind R m m' \<Longrightarrow> length ps = length qs \<Longrightarrow> related R (m ps) (m' qs)"
  by (simp add: blind_def)

lemma blind_pure: "R x y \<Longrightarrow> blind R (pure_b x) (pure_b y)"
  by (simp add: blind_def pure_b_def)

lemma blind_fail: "blind R (fail_b e) (fail_b e)"
  by (simp add: blind_def fail_b_def)

lemma blind_lift: "blind (=) (lift_b r) (lift_b r)"
  by (cases r) (simp_all add: blind_def lift_b_def)

lemma blind_check: "blind (=) (check_b b e) (check_b b e)"
  by (simp add: check_b_def blind_pure blind_fail)

lemma blind_add: "blind (=) (add_parameter v) (add_parameter v')"
  by (simp add: blind_def add_parameter_def)

lemma blind_bound: "blind (\<lambda>x y. length x = length y) bound_values bound_values"
  by (simp add: blind_def bound_values_def)

lemma blind_bind_rel:
  assumes "blind R m m'" "\<And>x y. R x y \<Longrightarrow> blind S (f x) (f' y)"
  shows "blind S (bind_b m f) (bind_b m' f')"
  unfolding blind_def
proof (intro allI impI)
  fix ps qs :: "sql_value list" assume l: "length ps = length qs"
  show "related S (bind_b m f ps) (bind_b m' f' qs)"
    using blindD [OF assms(1) l] blindD [OF assms(2)]
    by (cases "m ps"; cases "m' qs") (auto simp: bind_b_def)
qed

lemma blind_bind: "blind (=) m m' \<Longrightarrow> (\<And>x. blind S (f x) (f' x)) \<Longrightarrow> blind S (bind_b m f) (bind_b m' f')"
  by (rule blind_bind_rel [where R = "(=)"]) auto

lemma blind_map: "list_all2 (\<lambda>x y. blind (=) (f x) (g y)) xs ys \<Longrightarrow> blind (=) (map_b f xs) (map_b g ys)"
  by (induction rule: list_all2_induct) (auto intro!: blind_bind blind_pure)

lemma blind_map_same: "(\<And>x. blind (=) (f x) (f x)) \<Longrightarrow> blind (=) (map_b f xs) (map_b f xs)"
  by (rule blind_map) (simp add: list_all2_same)

lemma blind_if: "(c \<Longrightarrow> blind R m m') \<Longrightarrow> (\<not> c \<Longrightarrow> blind R n n') \<Longrightarrow> blind R (if c then m else n) (if c then m' else n')"
  by simp

lemma blind_option:
  "(x = None \<Longrightarrow> blind R m m') \<Longrightarrow> (\<And>y. x = Some y \<Longrightarrow> blind R (f y) (f' y)) \<Longrightarrow>
   blind R (case x of None \<Rightarrow> m | Some y \<Rightarrow> f y) (case x of None \<Rightarrow> m' | Some y \<Rightarrow> f' y)"
  by (cases x) simp_all

lemmas blind_intros = blind_bind blind_pure blind_fail blind_lift blind_check blind_add blind_map_same blind_if blind_option

section \<open>Rendering is blind\<close>

lemma blind_filter_expression: "length vs = length ws \<Longrightarrow> blind (=) (render_filter_expression e f vs) (render_filter_expression e f ws)"
proof -
  assume l: "length vs = length ws"
  then have n: "vs = [] \<longleftrightarrow> ws = []" by auto
  have "blind (=) (map_b add_parameter vs) (map_b add_parameter ws)"
    by (rule blind_map) (simp add: l list_all2_conv_all_nth blind_add)
  then show ?thesis
    unfolding render_filter_expression_def l n by (intro blind_intros) auto
qed

lemma blind_contract_filter: "blind (=) (render_contract_filter js c) (render_contract_filter js c)"
  unfolding render_contract_filter_def by (intro blind_intros blind_filter_expression) auto

lemma blind_aggregate: "blind (=) (render_aggregate env fs a g x only flt) (render_aggregate env fs a g x only flt)"
  unfolding render_aggregate_def Let_def by (intro blind_intros blind_contract_filter) auto

lemma blind_calculation: "blind (=) (render_calculation env stack fs a x) (render_calculation env stack fs a x)"
proof (induction env stack fs a x rule: render_calculation.induct)
  case (3 env stack fs a k)
  show ?case unfolding render_calculation.simps
    by (intro blind_intros 3) auto
next
  case (4 env stack fs a b l r)
  show ?case unfolding render_calculation.simps by (intro blind_intros 4) auto
next
  case (5 env stack fs a c l r)
  show ?case unfolding render_calculation.simps by (intro blind_intros blind_contract_filter 5) auto
next
  case (6 env stack fs a g x only flt)
  show ?case unfolding render_calculation.simps by (rule blind_aggregate)
qed (unfold render_calculation.simps, (intro blind_intros; auto)+)

lemma blind_divide:
  "(\<And>l r. blind R (g l r) (g' l r)) \<Longrightarrow>
   blind R (case c of Binary Divide l r \<Rightarrow> g l r | _ \<Rightarrow> fail_b e) (case c of Binary Divide l r \<Rightarrow> g' l r | _ \<Rightarrow> fail_b e)"
  by (auto split: calculation.split bin_op.split intro: blind_fail)

lemma blind_metric_calculation: "blind (=) (render_metric_calculation env cx p m) (render_metric_calculation env cx p m)"
  unfolding render_metric_calculation_def Let_def
  by (intro blind_intros blind_divide blind_contract_filter blind_calculation refl)

lemma blind_base: "blind (=) (base_predicates env m b) (base_predicates env m b)"
  unfolding base_predicates_def by (intro blind_intros blind_contract_filter refl)

lemma blind_count_where: "blind (=) (count_where ps a) (count_where ps a)"
  unfolding count_where_def by (intro blind_intros refl)

lemma blind_slice_validation: "blind (=) (render_slice_validation env m) (render_slice_validation env m)"
  unfolding render_slice_validation_def coverage_part_def currency_part_def settlement_part_def Let_def
  by (intro blind_intros blind_base blind_count_where refl)

lemma blind_trusted: "blind (=) (trusted_metric_predicates pf cx p cal m) (trusted_metric_predicates pf cx p cal m)"
  unfolding trusted_metric_predicates_def trusted_window_def by (intro blind_intros refl)

lemma blind_trusted_for: "blind (=) (trusted_for (trusted_metric_predicates pf cx p cal) cache m) (trusted_for (trusted_metric_predicates pf cx p cal) cache m)"
  unfolding trusted_for_def by (intro blind_intros blind_trusted refl)

lemma blind_metric_selects:
  "blind (=) (metric_selects env cx (trusted_metric_predicates pf cx p cal) timed b cache ms)
     (metric_selects env cx (trusted_metric_predicates pf cx p cal) timed b cache ms)"
  by (induction ms arbitrary: cache) (auto intro!: blind_intros blind_trusted_for blind_metric_calculation)

lemma blind_validation_selects:
  "blind (=) (validation_selects env (trusted_metric_predicates pf cx p cal) cache ms)
     (validation_selects env (trusted_metric_predicates pf cx p cal) cache ms)"
  by (induction ms arbitrary: cache) (auto intro!: blind_intros blind_trusted_for blind_slice_validation)

section \<open>Other values, another tenant\<close>

definition with_values :: "(sql_value \<Rightarrow> sql_value) \<Rightarrow> subquery \<Rightarrow> subquery" where
  "with_values g q = q\<lparr>sq_filters := map (\<lambda>c. c\<lparr>fc_values := map g (fc_values c)\<rparr>) (sq_filters q)\<rparr>"

lemma with_values_same [simp]:
  "sq_topic (with_values g q) = sq_topic q" "sq_metrics (with_values g q) = sq_metrics q" "sq_dimensions (with_values g q) = sq_dimensions q"
  "sq_time (with_values g q) = sq_time q" "sq_parameters (with_values g q) = sq_parameters q"
  "map fc_field (sq_filters (with_values g q)) = map fc_field (sq_filters q)"
  "prior_query (with_values g q) p = with_values g (prior_query q p)"
  by (simp_all add: with_values_def prior_query_def)

abbreviation for_tenant :: "string \<Rightarrow> compiler_context \<Rightarrow> compiler_context" where
  "for_tenant t cx \<equiv> cx\<lparr>cx_tenant := t\<rparr>"

lemma for_tenant_same [simp]:
  "cx_role (for_tenant t cx) = cx_role cx" "cx_capabilities (for_tenant t cx) = cx_capabilities cx"
  "cx_max_cost (for_tenant t cx) = cx_max_cost cx" "cx_tenant (for_tenant t cx) = t"
  "tenant_parameter_days (for_tenant t cx) k = tenant_parameter_days cx k"
  "calendar_for_context pf (for_tenant t cx) = calendar_for_context pf cx"
  "max_rows_of (for_tenant t cx) = max_rows_of cx"
  by (simp_all add: tenant_parameter_days_def calendar_for_context_def max_rows_of_def)

lemma for_tenant_metrics [simp]:
  "check_metric (for_tenant t cx) = check_metric cx" "metric_window (for_tenant t cx) = metric_window cx"
  "trusted_metric_predicates pf (for_tenant t cx) = trusted_metric_predicates pf cx"
  "render_metric_calculation env (for_tenant t cx) = render_metric_calculation env cx"
  "prior_period pf (for_tenant t cx) = prior_period pf cx"
  unfolding fun_eq_iff render_metric_calculation_def for_tenant_same
  by (simp_all add: check_metric_def metric_window_def trusted_metric_predicates_def trusted_window_def prior_period_def)

lemma for_tenant_composite [simp]: "check_composite_metric (for_tenant t cx) = check_composite_metric cx"
  by (simp add: fun_eq_iff check_composite_metric_def)

lemma for_tenant_selects [simp]: "metric_selects env (for_tenant t cx) tr td p cache ms = metric_selects env cx tr td p cache ms"
  by (induction ms arbitrary: cache) simp_all

lemma plan_single_same: "plan_single pf (for_tenant t cx) r tp (with_values g q) = plan_single pf cx r tp q"
  by (simp add: plan_single_def apply_tenant_metric_window_def)

lemma plan_dimensions_same: "plan_dimensions f js (with_values g q) = plan_dimensions f js q"
  by (simp add: plan_dimensions_def filter_only_dimensions_def)

lemma blind_user_filter:
  assumes "fc_field c' = fc_field c" "fc_op c' = fc_op c" "length (fc_values c') = length (fc_values c)"
  shows "blind (=) (render_user_filter t ms f js labels c') (render_user_filter t ms f js labels c)"
  unfolding render_user_filter_def Let_def assms(1,2)
  by (intro blind_intros blind_filter_expression assms(3) refl)

lemma blind_user_filters:
  "blind (=) (map_b (render_user_filter t ms f js labels) (sq_filters (with_values g q))) (map_b (render_user_filter t ms f js labels) (sq_filters q))"
  by (rule blind_map) (simp add: with_values_def list_all2_conv_all_nth blind_user_filter)

lemma blind_rest:
  "blind (=) (render_rest r tp (with_values g q) pl a b env (trusted_metric_predicates pf cx p cal) dp sel)
     (render_rest r tp q pl a b env (trusted_metric_predicates pf cx p cal) dp sel)"
  unfolding render_rest_def Let_def with_values_same
  by (intro blind_intros blind_validation_selects blind_user_filters refl)

lemma blind_body: "blind (=) (render_body pf (for_tenant t cx) r tp (with_values g q) pl a b) (render_body pf cx r tp q pl a b)"
  unfolding render_body_def Let_def plan_dimensions_same for_tenant_metrics for_tenant_selects with_values_same
  by (intro blind_intros blind_metric_selects blind_rest refl)

lemma blind_single: "blind (=) (render_single pf (for_tenant t cx) r tp (with_values g q)) (render_single pf cx r tp q)"
  unfolding render_single_def Let_def plan_single_same with_values_same
  by (intro blind_intros blind_body refl)


section \<open>Compilation is blind\<close>

definition without_values :: "compiled_query \<Rightarrow> compiled_query" where
  "without_values c = c\<lparr>co_parameters := []\<rparr>"

definition same_text :: "compiled_query \<Rightarrow> compiled_query \<Rightarrow> bool" where
  "same_text c c' \<longleftrightarrow> without_values c = without_values c' \<and> length (co_parameters c) = length (co_parameters c')"

fun query_with_values :: "(sql_value \<Rightarrow> sql_value) \<Rightarrow> semantic_query \<Rightarrow> semantic_query" where
  "query_with_values g (Single q) = Single (q\<lparr>qs_query := with_values g (qs_query q)\<rparr>)"
| "query_with_values g (Composite q) = Composite (q\<lparr>qc_queries := map (with_values g) (qc_queries q)\<rparr>)"

lemma blind_bound_last:
  assumes "\<And>ps qs. length ps = length qs \<Longrightarrow> same_text (f ps) (f' qs)"
  shows "blind same_text (bind_b bound_values (\<lambda>ps. pure_b (f ps))) (bind_b bound_values (\<lambda>ps. pure_b (f' ps)))"
  by (rule blind_bind_rel [OF blind_bound]) (rule blind_pure, rule assms)

lemma blind_limit: "blind (=) (add_limit n) (add_limit n)"
  unfolding add_limit_def by (rule blind_add)

lemma blind_compile_single:
  "blind same_text (compile_single pf (for_tenant t cx) r tp n (q\<lparr>qs_query := with_values g (qs_query q)\<rparr>)) (compile_single pf cx r tp n q)"
proof -
  let ?q = "q\<lparr>qs_query := with_values g (qs_query q)\<rparr>"
  have same: "qs_query ?q = with_values g (qs_query q)" "qs_sort ?q = qs_sort q" "qs_limit ?q = qs_limit q" by simp_all
  show ?thesis unfolding compile_single_def Let_def same with_values_same for_tenant_metrics
    by (intro blind_intros blind_single blind_limit blind_bound_last refl) (simp_all add: same_text_def without_values_def)
qed

lemma blind_component: "blind (=) (render_component pf (for_tenant t cx) r al (with_values g q)) (render_component pf cx r al q)"
proof -
  have same: "check_component_topic r tp (with_values g q) = check_component_topic r tp q" for tp
    by (simp add: check_component_topic_def)
  show ?thesis unfolding render_component_def with_values_same same for_tenant_same
    by (intro blind_intros blind_single refl)
qed

lemma blind_components:
  "blind (=) (map_b (render_component pf (for_tenant t cx) r al) (map (with_values g) qs)) (map_b (render_component pf cx r al) qs)"
  by (rule blind_map) (simp add: list_all2_conv_all_nth blind_component)

lemma blind_prior_component:
  "blind (=) (render_prior_component pf (for_tenant t cx) r md (with_values g q, s)) (render_prior_component pf cx r md (q, s))"
  unfolding render_prior_component_def fst_conv snd_conv with_values_same for_tenant_metrics
  by (intro blind_intros blind_single refl)

lemma blind_prior_components:
  "blind (=) (map_b (render_prior_component pf (for_tenant t cx) r md) (zip (map (with_values g) qs) rs))
     (map_b (render_prior_component pf cx r md) (zip qs rs))"
proof (rule blind_map)
  show "list_all2 (\<lambda>x y. blind (=) (render_prior_component pf (for_tenant t cx) r md x) (render_prior_component pf cx r md y))
      (zip (map (with_values g) qs) rs) (zip qs rs)"
    by (simp add: list_all2_conv_all_nth blind_prior_component)
qed

lemma blind_compile_composite:
  assumes "qc_queries q \<noteq> []"
  shows "blind same_text (compile_composite pf (for_tenant t cx) r tp n (q\<lparr>qc_queries := map (with_values g) (qc_queries q)\<rparr>))
    (compile_composite pf cx r tp n q)"
proof -
  let ?q = "q\<lparr>qc_queries := map (with_values g) (qc_queries q)\<rparr>"
  have same: "check_composite tp ?q = check_composite tp q" "qc_metrics ?q = qc_metrics q" "qc_align ?q = qc_align q"
      "qc_sort ?q = qc_sort q" "qc_limit ?q = qc_limit q" "qc_queries ?q = map (with_values g) (qc_queries q)"
      "hd (map (with_values g) (qc_queries q)) = with_values g (hd (qc_queries q))"
    using assms by (simp_all add: check_composite_def comp_def hd_map)
  show ?thesis unfolding compile_composite_def Let_def same with_values_same for_tenant_composite
    by (intro blind_intros blind_components blind_prior_components blind_limit blind_bound_last refl)
      (simp_all add: same_text_def without_values_def)
qed

lemma composite_needs_queries:
  assumes "qc_queries q = []"
  shows "compile_composite pf cx r tp n q ps = Inl (case check_composite tp q of Inl e \<Rightarrow> e | Inr _ \<Rightarrow> INVALID_IR)"
  using assms by (simp add: compile_composite_def bind_b_def lift_b_def check_composite_def require_def)

lemma blind_compile_kind: "blind same_text (compile_kind pf (for_tenant t cx) r tp (query_with_values g q)) (compile_kind pf cx r tp q)"
proof (cases q)
  case (Single s)
  then show ?thesis
    unfolding compile_kind_def query_with_values.simps semantic_query.case for_tenant_same Single
    by (intro blind_if blind_fail blind_compile_single)
next
  case (Composite c)
  show ?thesis
  proof (cases "qc_queries c = []")
    case True
    then show ?thesis by (simp add: compile_kind_def Composite blind_def composite_needs_queries check_composite_def)
  next
    case False
    then show ?thesis by (simp add: compile_kind_def Composite blind_compile_composite)
  qed
qed

lemma evidence_same:
  assumes "without_values c = without_values c'"
  shows "validation_evidence_of collate r (query_with_values g q) c = validation_evidence_of collate r q c'"
proof -
  have ids: "co_metric_ids c = co_metric_ids c'" using arg_cong [OF assms, of co_metric_ids] by (simp add: without_values_def)
  have "fold_r (subquery_evidence r) acc (map (with_values g) qs) = fold_r (subquery_evidence r) acc qs" for acc qs
    by (induction qs arbitrary: acc) (simp_all add: subquery_evidence_def)
  then show ?thesis by (cases q) (simp_all add: validation_evidence_of_def ids subquery_evidence_def)
qed

definition erase_values :: "semantic_query \<Rightarrow> semantic_query" where
  "erase_values = query_with_values (\<lambda>_. Flag False)"

definition compiled_text :: "(compiled_query \<times> validation_evidence) compiled \<Rightarrow> (compiled_query \<times> nat \<times> validation_evidence) compiled" where
  "compiled_text = map_sum (\<lambda>e. e) (\<lambda>(c, e). (without_values c, length (co_parameters c), e))"

definition finish_query :: "(string \<Rightarrow> 'k::linorder) \<Rightarrow> semantic_registry \<Rightarrow> js_num option \<Rightarrow> semantic_query \<Rightarrow> compiled_query \<Rightarrow>
    (compiled_query \<times> validation_evidence) compiled" where
  "finish_query collate r mx q c = and_then (enforce_cost_budget mx c) (\<lambda>c'. and_then (validation_evidence_of collate r q c') (\<lambda>e. Inr (c', e)))"

lemma finish_query_blind:
  assumes "same_text c c'"
  shows "compiled_text (finish_query collate r mx (query_with_values g q) c) = compiled_text (finish_query collate r mx q c')"
proof -
  have s: "without_values c = without_values c'" "length (co_parameters c) = length (co_parameters c')"
    using assms by (simp_all add: same_text_def)
  have cost: "co_cost c = co_cost c'" using arg_cong [OF s(1), of co_cost] by (simp add: without_values_def)
  show ?thesis
    unfolding finish_query_def
    using s cost evidence_same [OF s(1), where collate = collate and r = r and g = g and q = q]
    by (cases "validation_evidence_of collate r q c'")
      (simp_all add: compiled_text_def enforce_cost_budget_def split: option.split js_num.split)
qed

lemma compiled_text_error [simp]: "compiled_text (Inl e) = Inl e"
  by (simp add: compiled_text_def)

lemma finish_related:
  "related same_text m m' \<Longrightarrow>
   compiled_text (and_then m (\<lambda>c. finish_query collate r mx (query_with_values g q) (fst c))) =
   compiled_text (and_then m' (\<lambda>c. finish_query collate r mx q (fst c)))"
  by (cases m; cases m') (auto intro: finish_query_blind)

lemma compile_query_blind:
  assumes "cx_tenant cx \<noteq> []" "t \<noteq> []"
  shows "compiled_text (compile_query pf collate r (for_tenant t cx) (query_with_values g q)) = compiled_text (compile_query pf collate r cx q)"
proof -
  have q: "topic_of (query_with_values g q) = topic_of q" "limit_of (query_with_values g q) = limit_of q" by (cases q; simp)+
  have k: "related same_text (compile_kind pf (for_tenant t cx) r tp (query_with_values g q) [Text t])
      (compile_kind pf cx r tp q [Text (cx_tenant cx)])" for tp
    by (rule blindD [OF blind_compile_kind]) simp
  have step: "compiled_text (and_then m f) = compiled_text (and_then m f')" if "\<And>x. compiled_text (f x) = compiled_text (f' x)"
    for m :: "'x compiled" and f f'
    using that by (cases m) simp_all
  have given: "require (cx_tenant cx \<noteq> []) INVALID_IR = Inr ()" "require (t \<noteq> []) INVALID_IR = Inr ()"
    using assms by (simp_all add: require_def)
  show ?thesis
    unfolding compile_query_def q for_tenant_same given and_then_simps
    by (intro step finish_related [unfolded finish_query_def] k)
qed

text \<open>C5: the text of a compiled query does not depend on who asks or on any
  filter value: two queries that differ in nothing but filter values, compiled for any two tenants,
  fail with the same error or yield the same SQL, columns, order, tables, warnings, cost and
  evidence, and bind equally many parameters.\<close>

theorem values_stay_out_of_sql:
  assumes "erase_values q = erase_values q'" "cx_tenant cx \<noteq> []" "t \<noteq> []"
  shows "compiled_text (compile_query pf collate r cx q) = compiled_text (compile_query pf collate r (cx\<lparr>cx_tenant := t\<rparr>) q')"
proof -
  have "compiled_text (compile_query pf collate r cx q) = compiled_text (compile_query pf collate r (for_tenant t cx) (erase_values q))"
    unfolding erase_values_def by (rule compile_query_blind [OF assms(2,3), symmetric])
  also have "\<dots> = compiled_text (compile_query pf collate r (for_tenant t (for_tenant t cx)) (erase_values q'))"
    using assms(1) by simp
  also have "\<dots> = compiled_text (compile_query pf collate r (for_tenant t cx) q')"
    unfolding erase_values_def by (rule compile_query_blind) (use assms in simp_all)
  finally show ?thesis .
qed

lemma values_stay_out_of_sql_witness:
  "compiled_text (compile_query sample_platform (\<lambda>s. s) sample_registry sample_compiler_context (sample_query ''Leigh'')) =
   compiled_text (compile_query sample_platform (\<lambda>s. s) sample_registry (sample_compiler_context\<lparr>cx_tenant := ''u''\<rparr>) (sample_query [CHR 0x27])) \<and>
   sample_query ''Leigh'' \<noteq> sample_query [CHR 0x27]"
proof -
  have "erase_values (sample_query ''Leigh'') = erase_values (sample_query [CHR 0x27])"
    by (simp add: erase_values_def sample_query_def sample_subquery_def with_values_def worker_filter_def)
  then have "compiled_text (compile_query sample_platform (\<lambda>s. s) sample_registry sample_compiler_context (sample_query ''Leigh'')) =
      compiled_text (compile_query sample_platform (\<lambda>s. s) sample_registry (sample_compiler_context\<lparr>cx_tenant := ''u''\<rparr>) (sample_query [CHR 0x27]))"
    by (rule values_stay_out_of_sql) (simp_all add: sample_compiler_context_def)
  then show ?thesis by (simp add: sample_query_def sample_subquery_def worker_filter_def)
qed

end
