(* ===== verification/Semantic_Parameters.thy ===== *)
theory Semantic_Parameters
  imports Semantic_Authority Semantic_Samples
begin

text \<open>
  The parameters of a compiled query and the placeholders of its text are the same: every bound value
  is referred to, and nothing else is. A hole in the numbering, or a number without a value, would
  make the database reject the whole statement. A step \<open>fits\<close> when the text it returns refers to all
  values it binds, to those it is told to keep, and otherwise only to those it may.
\<close>

section \<open>Placeholders of a text\<close>

fun placeholders :: "string \<Rightarrow> nat list" where
  "placeholders [] = []"
| "placeholders (c # s) = (if c = CHR ''$'' then nat_of_digits (takeWhile is_digit s) # placeholders s else placeholders s)"

definition marks :: "string \<Rightarrow> nat set" where
  "marks s = set (placeholders s)"

definition plain :: "string \<Rightarrow> bool" where
  "plain s \<longleftrightarrow> CHR ''$'' \<notin> set s"

lemma plain_simps [simp]:
  "plain []" "plain (c # s) \<longleftrightarrow> c \<noteq> CHR ''$'' \<and> plain s" "plain (s @ t) \<longleftrightarrow> plain s \<and> plain t" "plain (concat ss) \<longleftrightarrow> (\<forall>s\<in>set ss. plain s)"
  by (auto simp: plain_def)

lemma placeholders_plain: "plain s \<Longrightarrow> placeholders (s @ t) = placeholders t"
  by (induction s) auto

lemma take_digits: "\<not> is_digit c \<Longrightarrow> takeWhile is_digit (s @ c # t) = takeWhile is_digit s"
  by (induction s) simp_all

lemma placeholders_then: "\<not> is_digit c \<Longrightarrow> placeholders (s @ c # t) = placeholders s @ placeholders (c # t)"
  by (induction s) (simp_all add: take_digits)

lemma marks_Nil [simp]: "marks [] = {}"
  by (simp add: marks_def)

lemma marks_Cons [simp]: "c \<noteq> CHR ''$'' \<Longrightarrow> marks (c # s) = marks s"
  by (simp add: marks_def)

lemma marks_plain_append [simp]: "plain s \<Longrightarrow> marks (s @ t) = marks t"
  by (simp add: marks_def placeholders_plain)

lemma marks_plain: "plain s \<Longrightarrow> marks s = {}"
  using marks_plain_append [of s "[]"] by simp

lemma marks_then: "\<not> is_digit c \<Longrightarrow> marks (s @ c # t) = marks s \<union> marks (c # t)"
  by (simp add: marks_def placeholders_then)

lemma not_digits [simp]:
  "\<not> is_digit (CHR '' '')" "\<not> is_digit (CHR '')'')" "\<not> is_digit (CHR '','')" "\<not> is_digit (CHR ''.'')" "\<not> is_digit (CHR '':'')"
  "\<not> is_digit (CHR 0x0A)" "\<not> is_digit (CHR ''_'')" "\<not> is_digit (CHR ''('')" "\<not> is_digit (CHR ''W'')" "\<not> is_digit (CHR ''L'')" "\<not> is_digit (CHR ''O'')"
  by (simp_all add: is_digit_def code_def)

lemmas marks_at [simp] = marks_then [OF not_digits(1)] marks_then [OF not_digits(2)] marks_then [OF not_digits(3)] marks_then [OF not_digits(4)]
  marks_then [OF not_digits(5)] marks_then [OF not_digits(6)] marks_then [OF not_digits(8)] marks_then [OF not_digits(9)]
  marks_then [OF not_digits(10)]

lemma marks_join:
  assumes "\<not> is_digit c" "plain (c # sep)"
  shows "marks (join_with (c # sep) xs) = \<Union> (marks ` set xs)"
proof (induction xs)
  case (Cons x xs)
  with assms show ?case by (cases xs) (auto simp: marks_then)
qed simp

definition texts :: "string list \<Rightarrow> nat set" where
  "texts xs = \<Union> (marks ` set xs)"

lemma texts_simps [simp]:
  "texts [] = {}" "texts (x # xs) = marks x \<union> texts xs" "texts (xs @ ys) = texts xs \<union> texts ys" "texts (concat xss) = \<Union> (texts ` set xss)"
  by (auto simp: texts_def)

lemma join_parts [simp]:
  "marks (join_with comma xs) = texts xs" "marks (conj_with xs) = texts xs" "marks (join_with nl xs) = texts xs"
  "marks (join_with '' OR '' xs) = texts xs" "marks (join_with '' + '' xs) = texts xs"
  "marks (join_with ('','' @ nl @ ''  '') xs) = texts xs" "marks (join_with (nl @ ''  AND '') xs) = texts xs"
  "marks (join_with ('','' @ nl) xs) = texts xs"
  by (simp_all add: comma_def conj_with_def nl_def marks_join texts_def)

lemma join_texts [simp]: "\<not> is_digit c \<Longrightarrow> plain (c # sep) \<Longrightarrow> marks (join_with (c # sep) xs) = texts xs"
  unfolding texts_def by (rule marks_join)

lemma texts_plain: "(\<And>x. x \<in> set xs \<Longrightarrow> plain x) \<Longrightarrow> texts xs = {}"
  by (auto simp: texts_def marks_plain)

section \<open>Texts without placeholders\<close>

lemma plain_nl [simp]: "plain nl" "plain comma" and dq_plain [simp]: "dq \<noteq> CHR ''$''" "CHR ''$'' \<noteq> dq"
  by (simp_all add: nl_def comma_def dq_def)

lemma plain_join: "plain sep \<Longrightarrow> (\<And>x. x \<in> set xs \<Longrightarrow> plain x) \<Longrightarrow> plain (join_with sep xs)"
  by (induction sep xs rule: join_with.induct) auto

lemma plain_nat [simp]: "plain (string_of_nat n)"
proof -
  have "list_all is_digit (string_of_nat n)" by (rule string_of_nat_digits)
  then show ?thesis by (auto simp: list_all_iff is_digit_def code_def plain_def)
qed

lemma plain_quoted [simp]: "plain (quoted v) \<longleftrightarrow> plain v"
  by (auto simp: quoted_def plain_def)

lemma plain_col [simp]: "plain (col a v) \<longleftrightarrow> plain a \<and> plain v"
  by (auto simp: col_def)

lemma plain_sql_text [simp]: "plain (sql_text s) \<longleftrightarrow> plain s"
  by (auto simp: sql_text_def)

lemma marks_fixed [simp]:
  "plain a \<Longrightarrow> plain v \<Longrightarrow> marks (col a v) = {}" "plain v \<Longrightarrow> marks (sql_text v) = {}" "plain v \<Longrightarrow> marks (quoted v) = {}"
  by (simp_all add: marks_plain)

lemma plain_identity_name [simp]: "plain (identity_name t)"
  by (cases t) simp_all

lemma safe_plain: "safe_identifier v \<Longrightarrow> plain v"
proof -
  assume s: "safe_identifier v"
  have "\<not> is_identifier_start (CHR ''$'')" "\<not> is_digit (CHR ''$'')" by (simp_all add: is_identifier_start_def is_digit_def code_def)
  with s show ?thesis by (cases v) (auto simp: safe_identifier_def list_all_iff plain_def)
qed

lemma quote_plain: "quote_identifier v = Inr q \<Longrightarrow> plain q"
  by (auto simp: quote_identifier_def safe_plain split: if_splits)

lemma column_plain: "column a v = Inr x \<Longrightarrow> plain a \<Longrightarrow> plain x"
  by (auto simp: column_def and_then_Inr_iff dest: quote_plain)

lemma as_alias_marks: "as_alias e v = Inr x \<Longrightarrow> marks x = marks e"
  by (auto simp: as_alias_def and_then_Inr_iff marks_plain dest!: quote_plain)

lemma as_alias_plain: "as_alias e v = Inr x \<Longrightarrow> plain e \<Longrightarrow> plain x"
  by (auto simp: as_alias_def and_then_Inr_iff dest: quote_plain)

lemma map_r_all: "map_r f xs = Inr ys \<Longrightarrow> y \<in> set ys \<Longrightarrow> \<exists>x\<in>set xs. f x = Inr y"
  by (induction xs arbitrary: ys) (auto simp: and_then_Inr_iff)

lemma map_r_plain:
  assumes "map_r f xs = Inr ys" "\<And>x y. x \<in> set xs \<Longrightarrow> f x = Inr y \<Longrightarrow> plain y"
  shows "\<forall>y\<in>set ys. plain y"
  using map_r_all [OF assms(1)] assms(2) by blast

lemma quote_qualified_plain: "quote_qualified v = Inr x \<Longrightarrow> plain x"
  by (auto simp: quote_qualified_def and_then_Inr_iff split: if_splits intro!: plain_join dest: map_r_all quote_plain)

definition plain_joins :: "identity_join list \<Rightarrow> bool" where
  "plain_joins js \<longleftrightarrow> (\<forall>j\<in>set js. plain (ij_alias j))"

lemma resolved_field_plain:
  assumes "resolved_fact_field js a x = Inr e" "plain a" "plain_joins js"
  shows "plain e"
proof -
  obtain d where d: "column a x = Inr d"
      "e = (case find (\<lambda>j. ij_key j = x) js of None \<Rightarrow> d | Some j \<Rightarrow> ''COALESCE('' @ col (ij_alias j) ''resolved_entity_id'' @ comma @ d @ '')'')"
    using assms(1) by (auto simp: resolved_fact_field_def and_then_Inr_iff)
  have "plain (ij_alias j)" if "find (\<lambda>j. ij_key j = x) js = Some j" for j
    using that assms(3) by (auto simp: find_Some_iff plain_joins_def)
  with d column_plain [OF d(1) assms(2)] show ?thesis by (cases "find (\<lambda>j. ij_key j = x) js") simp_all
qed

lemma resolve_identity_joins_plain:
  assumes "plain p"
  shows "plain_joins (resolve_identity_joins f p)"
proof -
  have step: "plain_joins js \<Longrightarrow> plain_joins (identity_step p js c)" for js c
    using assms by (auto simp: identity_step_def plain_joins_def split: option.split)
  have "plain_joins js \<Longrightarrow> plain_joins (foldl (identity_step p) js cs)" for js cs
    by (induction cs arbitrary: js) (simp_all add: step)
  from this [of "[]" "fm_joins f"] show ?thesis by (simp add: resolve_identity_joins_def) (simp add: plain_joins_def)
qed

lemma identity_joins_plain:
  assumes "render_identity_joins js a = Inr x" "plain a" "plain_joins js"
  shows "plain x"
proof -
  have "plain y" if "render_identity_join a j = Inr y" "j \<in> set js" for j y
    using that assms by (auto simp: render_identity_join_def and_then_Inr_iff plain_joins_def dest: column_plain quote_qualified_plain)
  with assms(1) show ?thesis
    by (auto simp: render_identity_joins_def and_then_Inr_iff intro!: plain_join dest: map_r_all)
qed

lemma derived_expression_plain: "derived_expression d a = Inr x \<Longrightarrow> plain a \<Longrightarrow> plain x"
  by (auto simp: derived_expression_def split: if_splits)

lemma derived_key_plain: "derived_sort_key d a = Some x \<Longrightarrow> plain a \<Longrightarrow> plain x"
  by (auto simp: derived_sort_key_def split: if_splits)


section \<open>Steps that use their parameters\<close>

definition fits :: "nat set \<Rightarrow> nat set \<Rightarrow> ('a \<Rightarrow> nat set) \<Rightarrow> ('a \<Rightarrow> bool) \<Rightarrow> 'a build \<Rightarrow> bool" where
  "fits may must used Q m \<longleftrightarrow>
     (\<forall>ps x ps'. m ps = Inr (x, ps') \<longrightarrow>
        (\<exists>vs. ps' = ps @ vs) \<and> used x \<subseteq> may \<union> {length ps<..length ps'} \<and> {length ps<..length ps'} \<union> must \<subseteq> used x \<and> Q x)"

abbreviation always :: "'a \<Rightarrow> bool" where
  "always \<equiv> \<lambda>_. True"

lemma fitsD:
  assumes "fits may must used Q m" "m ps = Inr (x, ps')"
  shows "\<exists>vs. ps' = ps @ vs" "used x \<subseteq> may \<union> {length ps<..length ps'}" "{length ps<..length ps'} \<union> must \<subseteq> used x" "Q x"
  using assms by (auto simp: fits_def)

lemma fits_pure: "used x \<subseteq> may \<Longrightarrow> must \<subseteq> used x \<Longrightarrow> Q x \<Longrightarrow> fits may must used Q (pure_b x)"
  by (auto simp: fits_def pure_b_def)

lemma fits_fail: "fits may must used Q (fail_b e)"
  by (simp add: fits_def fail_b_def)

lemma fits_check: "fits may {} (\<lambda>_. {}) (\<lambda>_. b) (check_b b e)"
  by (simp add: fits_def check_b_def fail_b_def pure_b_def)

lemma fits_bind:
  assumes "fits may {} used Q m" "\<And>x. Q x \<Longrightarrow> fits (may \<union> used x) (must \<union> used x) used' Q' (f x)"
  shows "fits may must used' Q' (bind_b m f)"
  unfolding fits_def
proof (intro allI impI)
  fix ps y ps2 assume "bind_b m f ps = Inr (y, ps2)"
  then obtain x ps1 where m: "m ps = Inr (x, ps1)" and f: "f x ps1 = Inr (y, ps2)" by (auto simp: bind_b_Inr)
  note 1 = fitsD [OF assms(1) m]
  note 2 = fitsD [OF assms(2) [OF 1(4)] f]
  obtain vs ws where l: "ps1 = ps @ vs" "ps2 = ps1 @ ws" using 1(1) 2(1) by blast
  then have n: "{length ps<..length ps2} = {length ps<..length ps1} \<union> {length ps1<..length ps2}" by auto
  have "\<exists>vs. ps2 = ps @ vs" using l by simp
  moreover have "used' y \<subseteq> may \<union> {length ps<..length ps2}" unfolding n using 1(2) 2(2) by blast
  moreover have "{length ps<..length ps2} \<union> must \<subseteq> used' y" unfolding n using 1(3) 2(3) by blast
  ultimately show "(\<exists>vs. ps2 = ps @ vs) \<and> used' y \<subseteq> may \<union> {length ps<..length ps2} \<and>
      {length ps<..length ps2} \<union> must \<subseteq> used' y \<and> Q' y" using 2(4) by blast
qed

lemma fits_lift: "(\<And>x. r = Inr x \<Longrightarrow> fits may must used Q (f x)) \<Longrightarrow> fits may must used Q (bind_b (lift_b r) f)"
  by (cases r) (simp_all add: fits_def bind_b_def lift_b_def)

lemma fits_weaken:
  "fits may must used Q m \<Longrightarrow> may \<subseteq> may' \<Longrightarrow> must' \<subseteq> must \<Longrightarrow> (\<And>x. Q x \<Longrightarrow> Q' x) \<Longrightarrow> fits may' must' used Q' m"
  unfolding fits_def by blast

text \<open>What a first step keeps, the whole keeps.\<close>

lemma fits_keep: "fits may must used Q m \<Longrightarrow> may \<subseteq> may' \<Longrightarrow> fits may' {} used (\<lambda>x. must \<subseteq> used x \<and> Q x) m"
  unfolding fits_def by blast

lemma fits_if: "(c \<Longrightarrow> fits may must used Q m) \<Longrightarrow> (\<not> c \<Longrightarrow> fits may must used Q n) \<Longrightarrow> fits may must used Q (if c then m else n)"
  by simp

lemma fits_option:
  "(x = None \<Longrightarrow> fits may must used Q m) \<Longrightarrow> (\<And>y. x = Some y \<Longrightarrow> fits may must used Q (f y)) \<Longrightarrow>
   fits may must used Q (case x of None \<Rightarrow> m | Some y \<Rightarrow> f y)"
  by (cases x) simp_all

lemma fits_map:
  assumes "\<And>x. x \<in> set xs \<Longrightarrow> fits may {} used Q (f x)"
  shows "fits may {} (\<lambda>ys. \<Union> (used ` set ys)) (\<lambda>ys. \<forall>y\<in>set ys. Q y) (map_b f xs)"
  using assms
proof (induction xs)
  case (Cons x xs)
  show ?case unfolding map_b.simps
    by (rule fits_bind [OF Cons.prems], simp, rule fits_bind [OF fits_weaken [OF Cons.IH]])
      (use Cons.prems in \<open>auto intro!: fits_pure\<close>)
qed (auto intro: fits_pure)

lemma digits_of_nat: "takeWhile is_digit (string_of_nat n) = string_of_nat n"
  using string_of_nat_digits [of n] by (simp add: list_all_iff)

lemma marks_parameter: "marks (CHR ''$'' # string_of_nat n) = {n}"
  using placeholders_plain [OF plain_nat, of n "[]"] by (simp add: marks_def digits_of_nat del: string_of_nat.simps)

lemma fits_add: "fits may {} marks always (add_parameter v)"
  by (auto simp: fits_def add_parameter_def marks_parameter simp del: string_of_nat.simps)


section \<open>Filters and calculations fit\<close>

lemma operator_plain: "comparison_operator f = Some c \<Longrightarrow> plain c"
  by (cases f) auto

lemma fits_filter_expression:
  assumes "plain e"
  shows "fits may {} marks always (render_filter_expression e f vs)"
proof -
  have "fits may {} texts always (map_b add_parameter vs)"
    unfolding texts_def by (rule fits_weaken [OF fits_map [where Q = always]]) (auto intro: fits_add)
  then show ?thesis
    unfolding render_filter_expression_def
    by (intro fits_if fits_fail fits_pure fits_option fits_bind [where used = texts and Q = always] fits_bind [OF fits_add])
      (auto simp: assms marks_plain dest: operator_plain)
qed

lemma fits_contract_filter: "plain_joins js \<Longrightarrow> fits may {} marks always (render_contract_filter js c)"
  unfolding render_contract_filter_def
  by (intro fits_lift fits_filter_expression) (auto dest: resolved_field_plain)

lemma fits_contract_filters: "plain_joins js \<Longrightarrow> fits may {} texts always (map_b (render_contract_filter js) cs)"
  unfolding texts_def by (rule fits_weaken [OF fits_map [where Q = always]]) (auto intro: fits_contract_filter)

lemma marks_filter_clause [simp]: "marks (filter_clause ps) = texts ps"
  by (simp add: filter_clause_def)

lemma aggregate_name_plain [simp]: "plain (aggregate_name g)"
  by (cases g) simp_all

definition env_plain :: "render_env \<Rightarrow> bool" where
  "env_plain env \<longleftrightarrow> plain_joins (re_joins env)"

lemma fits_value: "(\<And>x. r = Inr x \<Longrightarrow> Q x) \<Longrightarrow> fits may {} (\<lambda>_. {}) Q (lift_b r)"
  by (cases r) (simp_all add: fits_def lift_b_def)

lemma fits_field:
  assumes "plain_joins js"
  shows "fits may {} (\<lambda>_. {}) plain (if given then lift_b (resolved_fact_field js ''f'' x) else pure_b ''*'')"
  using assms by (auto intro!: fits_value fits_pure dest: resolved_field_plain)

lemma fits_aggregate:
  assumes "env_plain env" "plain a" "texts (re_trusted env) \<subseteq> may"
  shows "fits may (texts (re_trusted env)) marks always (render_aggregate env fs a g x only flt)"
  unfolding render_aggregate_def Let_def
proof (rule fits_bind [OF fits_contract_filters], use assms(1) in \<open>simp add: env_plain_def\<close>,
    rule fits_bind [OF fits_field], use assms(1) in \<open>simp add: env_plain_def\<close>)
  fix fs' field assume p: "plain field"
  let ?may = "may \<union> texts fs' \<union> {}" and ?must = "texts (re_trusted env) \<union> texts fs' \<union> {}"
  show "fits ?may ?must marks always
     (if g = Last_value
      then if \<not> field_given x \<or> fm_snapshot_keys (re_fact env) = [] then fail_b SNAPSHOT_SUM_FORBIDDEN
           else if \<not> is_time_column a then fail_b INVALID_TIME_FIELD
                else bind_b (lift_b (column ''f'' (snapshot_latest_column (the x))))
                      (\<lambda>latest. pure_b (''SUM('' @ field @ '') FILTER (WHERE '' @
                        conj_with ((fs' @ re_trusted env) @ [field @ '' IS NOT NULL'', a @ '' = '' @ latest]) @ '')''))
      else if g = Count_distinct then pure_b (''COUNT(DISTINCT '' @ field @ '')'' @ filter_clause (fs' @ re_trusted env))
      else pure_b (aggregate_name g @ ''('' @ (if only then ''DISTINCT '' else []) @ field @ '')'' @ filter_clause (fs' @ re_trusted env)))"
    using p assms(2,3)
    by (intro fits_if fits_fail fits_lift fits_pure) (auto simp: marks_plain dest!: column_plain)
qed

lemma binary_marks [simp]: "marks (binary_text b l r) = marks l \<union> marks r"
  by (cases b) simp_all

function reaches_aggregate :: "metric_contract list \<Rightarrow> string list \<Rightarrow> calculation \<Rightarrow> bool" where
  "reaches_aggregate ms stack (Aggregate g x only flt) = True"
| "reaches_aggregate ms stack (Binary b l r) = (reaches_aggregate ms stack l \<or> reaches_aggregate ms stack r)"
| "reaches_aggregate ms stack (Conditional c l r) = (reaches_aggregate ms stack l \<or> reaches_aggregate ms stack r)"
| "reaches_aggregate ms stack (Metric k) =
     (case metric_named ms k of
        None \<Rightarrow> False
      | Some dep \<Rightarrow> if mc_id dep \<in> set stack then False else reaches_aggregate ms (mc_id dep # stack) (mc_calculation dep))"
| "reaches_aggregate ms stack (Field x) = False"
| "reaches_aggregate ms stack (Literal v) = False"
  by pat_completeness auto
termination
  by (relation "measures [\<lambda>(ms, stack, x). unvisited ms stack, \<lambda>(ms, stack, x). size x]")
    (auto intro: unvisited_decreases metric_keys_intro)

lemma fits_calculation:
  assumes "env_plain env" "plain a" "texts (re_trusted env) \<subseteq> may"
  shows "fits may (if reaches_aggregate (re_metrics env) stack x then texts (re_trusted env) else {}) marks always
    (render_calculation env stack fs a x)"
  using assms
proof (induction env stack fs a x arbitrary: may rule: render_calculation.induct)
  case (1 env stack fs a x)
  then show ?case by (auto simp: env_plain_def fits_def lift_b_def and_then_Inr_iff marks_plain dest!: resolved_field_plain)
next
  case (2 env stack fs a v)
  show ?case unfolding render_calculation.simps reaches_aggregate.simps
    by (intro fits_if fits_fail fits_bind [OF fits_add] fits_pure) auto
next
  case (3 env stack fs a k)
  show ?case unfolding render_calculation.simps reaches_aggregate.simps
  proof (intro fits_option fits_if fits_fail fits_lift)
    fix dep time
    assume d: "metric_named (re_metrics env) k = Some dep" "\<not> mc_base_fact dep \<noteq> fm_id (re_fact env)" "mc_id dep \<notin> set stack"
      and t: "column ''f'' (mc_default_time dep) = Inr time"
    have "plain time" using column_plain [OF t] by simp
    with 3 d show "fits may (if case metric_named (re_metrics env) k of None \<Rightarrow> False
             | Some dep \<Rightarrow> if mc_id dep \<in> set stack then False else reaches_aggregate (re_metrics env) (mc_id dep # stack) (mc_calculation dep)
          then texts (re_trusted env) else {}) marks always
        (render_calculation env (mc_id dep # stack) (mc_filters dep) time (mc_calculation dep))"
      by simp
  qed
next
  case (4 env stack fs a b l r)
  note l = fits_keep [OF 4(1) [OF 4(3-5)] subset_refl] and r = 4(2) [OF 4(3,4)]
  show ?case unfolding render_calculation.simps
    by (rule fits_bind [OF l], rule fits_bind [OF fits_keep [OF r subset_refl]], use 4(5) in blast, rule fits_pure)
      (auto split: if_splits)
next
  case (5 env stack fs a c l r)
  note l = fits_keep [OF 5(1) [OF 5(3,4)] subset_refl] and r = 5(2) [OF 5(3,4)]
  have joins: "plain_joins (re_joins env)" using 5(3) by (simp add: env_plain_def)
  show ?case unfolding render_calculation.simps
    by (rule fits_bind [OF fits_contract_filter [OF joins]], rule fits_bind [OF l], use 5(5) in blast,
        rule fits_bind [OF fits_keep [OF r subset_refl]], use 5(5) in blast, rule fits_pure)
      (auto split: if_splits)
next
  case (6 env stack fs a g x only flt)
  then show ?case unfolding render_calculation.simps by (simp add: fits_aggregate)
qed


section \<open>Metrics and their validation fit\<close>

lemma fits_divide:
  "(\<And>l r. c = Binary Divide l r \<Longrightarrow> fits may must used Q (g l r)) \<Longrightarrow> fits may must used Q (case c of Binary Divide l r \<Rightarrow> g l r | _ \<Rightarrow> fail_b e)"
  by (auto split: calculation.split bin_op.split intro: fits_fail)

lemma fits_metric_calculation:
  assumes "env_plain env" "texts (re_trusted env) \<subseteq> may" "marks to_parameter \<subseteq> may"
    and "texts (re_trusted env) = {} \<or> reaches_aggregate (re_metrics env) [mc_id m] (mc_calculation m)"
  shows "fits may (texts (re_trusted env)) marks always (render_metric_calculation env cx to_parameter m)"
proof -
  have joins: "plain_joins (re_joins env)" using assms(1) by (simp add: env_plain_def)
  have calc: "fits may (texts (re_trusted env)) marks always (render_calculation env [mc_id m] (mc_filters m) time (mc_calculation m))"
    if "plain time" for time
    by (rule fits_weaken [OF fits_calculation [OF assms(1) that assms(2)]]) (use assms(4) in auto)
  show ?thesis
    unfolding render_metric_calculation_def Let_def
  proof (intro fits_if fits_lift fits_divide)
    fix time assume "column ''f'' (mc_default_time m) = Inr time"
    then show "fits may (texts (re_trusted env)) marks always (render_calculation env [mc_id m] (mc_filters m) time (mc_calculation m))"
      by (intro calc) (auto dest: column_plain)
  next
    fix l r days
    show "fits may (texts (re_trusted env)) marks always
      (bind_b (add_parameter (Number (real_of_int days))) (\<lambda>w. bind_b (lift_b (column ''f'' (mc_default_time m)))
        (\<lambda>time. bind_b (render_calculation env [mc_id m] (mc_filters m) time l)
        (\<lambda>numerator. bind_b (map_b (render_contract_filter (re_joins env)) (mc_filters m))
        (\<lambda>fs. pure_b (''('' @ numerator @ '' / NULLIF('' @ (''(SUM('' @ col ''f'' ''units_sold'' @ '') FILTER (WHERE '' @
          conj_with (fs @ re_trusted env @
            [col ''f'' ''business_date'' @ '' >= (CAST('' @ to_parameter @ '' AS date) - CAST('' @ w @ '' AS integer))'',
             col ''f'' ''business_date'' @ '' < CAST('' @ to_parameter @ '' AS date)'']) @
          '') / CAST('' @ w @ '' AS numeric))'') @ '', 0))''))))))"
    proof (rule fits_bind [OF fits_add], rule fits_lift, rule fits_bind)
      fix w time assume "column ''f'' (mc_default_time m) = Inr time"
      then have "plain time" by (auto dest: column_plain)
      then show "fits (may \<union> marks w) {} marks always (render_calculation env [mc_id m] (mc_filters m) time l)"
        by (rule fits_weaken [OF fits_calculation [OF assms(1)]]) (use assms(2) in auto)
    qed (rule fits_bind [OF fits_contract_filters [OF joins]], rule fits_pure, use assms(2,3) in auto)
  qed
qed

fun base_marks :: "string list option \<Rightarrow> nat set" where
  "base_marks None = {}"
| "base_marks (Some ps) = texts ps"

definition part_marks :: "validation_part \<Rightarrow> nat set" where
  "part_marks v = texts (map snd (fst v)) \<union> base_marks (snd v)"

abbreviation part_keeps :: "string list option \<Rightarrow> validation_part \<Rightarrow> bool" where
  "part_keeps base v \<equiv> base_marks (snd v) \<subseteq> base_marks base \<union> texts (map snd (fst v))"

lemma fits_base:
  assumes "env_plain env" "texts (re_trusted env) \<subseteq> may" "base_marks b \<subseteq> may"
  shows "fits may {} texts (\<lambda>ps. base_marks b \<subseteq> texts ps) (base_predicates env m b)"
  unfolding base_predicates_def
proof (rule fits_option)
  assume "b = None"
  then show "fits may {} texts (\<lambda>ps. base_marks b \<subseteq> texts ps)
      (bind_b (map_b (render_contract_filter (re_joins env)) (mc_filters m)) (\<lambda>fs. pure_b (fs @ re_trusted env)))"
    using assms by (intro fits_bind [OF fits_contract_filters] fits_pure) (auto simp: env_plain_def)
qed (use assms in \<open>auto intro: fits_pure\<close>)

lemma fits_count_where: "fits may {} (\<lambda>_. {}) (\<lambda>r. marks (snd r) = texts ps) (count_where ps a)"
  unfolding count_where_def by (intro fits_lift fits_pure) (auto dest: as_alias_marks)

lemma eligibility_plain: "plain (cost_eligibility_predicate f x)"
  by (simp add: cost_eligibility_predicate_def)

lemma not_null_plain: "not_null env x = Inr e \<Longrightarrow> env_plain env \<Longrightarrow> plain e"
  by (auto simp: not_null_def and_then_Inr_iff env_plain_def dest!: resolved_field_plain)

lemma not_nulls_plain: "map_r (not_null env) xs = Inr es \<Longrightarrow> env_plain env \<Longrightarrow> texts es = {}"
  by (rule texts_plain) (auto dest: map_r_all not_null_plain)

lemma fits_coverage:
  assumes "env_plain env" "texts (re_trusted env) \<subseteq> may" "base_marks b \<subseteq> may"
  shows "fits may {} part_marks (part_keeps b) (coverage_part env m used b)"
proof -
  have e: "texts [if es = [] then ''TRUE'' else ''('' @ join_with '' OR '' es @ '')''] = texts es" for es by simp
  have elig: "texts (filter (\<lambda>p. p \<noteq> []) (map (cost_eligibility_predicate f) xs)) = {}" for f xs
    by (rule texts_plain) (auto simp: eligibility_plain)
  show ?thesis
    unfolding coverage_part_def Let_def
  proof (intro fits_if fits_bind [OF fits_base [OF assms]] fits_lift)
    show "fits may {} part_marks (part_keeps b) (pure_b ([], b))"
      using assms(3) by (intro fits_pure) (auto simp: part_marks_def)
  next
    fix base seen
    let ?es = "filter (\<lambda>p. p \<noteq> []) (map (cost_eligibility_predicate (re_fact env)) (filter is_cost_coverage_field used))"
    let ?e = "base @ [if ?es = [] then ''TRUE'' else ''('' @ join_with '' OR '' ?es @ '')'']"
    assume b: "base_marks b \<subseteq> texts base" and seen: "map_r (not_null env) (filter is_cost_coverage_field used) = Inr seen"
    have m: "texts ?e = texts base" "texts (?e @ seen) = texts base"
      using not_nulls_plain [OF seen assms(1)] e [of ?es] elig by simp_all
    show "fits (may \<union> texts base) ({} \<union> texts base) part_marks (part_keeps b)
       (bind_b (count_where ?e (''__coverage_eligible__'' @ short_metric_name (mc_id m)))
         (\<lambda>e. bind_b (count_where (?e @ seen) (''__coverage_observed__'' @ short_metric_name (mc_id m)))
           (\<lambda>seen_count. pure_b ([e, seen_count], Some base))))"
      by (rule fits_bind [OF fits_count_where], rule fits_bind [OF fits_count_where], rule fits_pure)
        (use m b in \<open>auto simp: part_marks_def\<close>)
  qed
qed


lemma fits_currency:
  assumes "env_plain env" "texts (re_trusted env) \<subseteq> may" "base_marks b \<subseteq> may"
  shows "fits may {} part_marks (part_keeps b) (currency_part env m used b)"
  unfolding currency_part_def Let_def
proof (intro fits_if fits_lift fits_bind [OF fits_base [OF assms]])
  fix cs base currency s
  assume cs: "map_r (not_null env) used = Inr cs" and b: "base_marks b \<subseteq> texts base"
    and cur: "resolved_fact_field (re_joins env) ''f'' ''currency'' = Inr currency"
    and s: "as_alias (''STRING_AGG(DISTINCT '' @ currency @ comma @ sql_text '','' @ '' ORDER BY '' @ currency @ '') FILTER (WHERE '' @
        conj_with (base @ [if used = [] then ''TRUE'' else ''('' @ join_with '' OR '' cs @ '')'']) @ '')'')
        (''__currency_codes__'' @ short_metric_name (mc_id m)) = Inr s"
  have "plain currency" using cur assms(1) by (auto simp: env_plain_def dest: resolved_field_plain)
  then have "marks s = texts base"
    unfolding as_alias_marks [OF s] using not_nulls_plain [OF cs assms(1)] by (simp add: marks_plain)
  then show "fits (may \<union> texts base) ({} \<union> texts base) part_marks (part_keeps b)
      (pure_b ([(''__currency_codes__'' @ short_metric_name (mc_id m), s)], Some base))"
    using b by (intro fits_pure) (auto simp: part_marks_def)
next
  show "fits may {} part_marks (part_keeps b) (pure_b ([], b))"
    using assms(3) by (intro fits_pure) (auto simp: part_marks_def)
qed

lemma settlement_plain: "plain settlement_exists"
  by (simp add: settlement_exists_def)

lemma fits_settlement:
  assumes "env_plain env" "texts (re_trusted env) \<subseteq> may" "base_marks b \<subseteq> may"
  shows "fits may {} part_marks (part_keeps b) (settlement_part env m b)"
  unfolding settlement_part_def Let_def
proof (intro fits_if fits_bind [OF fits_base [OF assms]])
  fix base assume b: "base_marks b \<subseteq> texts base"
  let ?e = "if base = [] then [''TRUE''] else base"
  have m: "texts ?e = texts base" "texts (?e @ [settlement_exists]) = texts base" by (simp_all add: marks_plain settlement_plain)
  show "fits (may \<union> texts base) ({} \<union> texts base) part_marks (part_keeps b)
     (bind_b (count_where ?e (''__settlement_eligible__'' @ short_metric_name (mc_id m)))
       (\<lambda>e. bind_b (count_where (?e @ [settlement_exists]) (''__settlement_linked__'' @ short_metric_name (mc_id m)))
         (\<lambda>l. pure_b ([e, l], Some base))))"
    by (rule fits_bind [OF fits_count_where], rule fits_bind [OF fits_count_where], rule fits_pure)
      (use m b in \<open>auto simp: part_marks_def\<close>)
next
  show "fits may {} part_marks (part_keeps b) (pure_b ([], b))"
    using assms(3) by (intro fits_pure) (auto simp: part_marks_def)
qed

lemma fits_slice_validation:
  assumes "env_plain env" "texts (re_trusted env) \<subseteq> may"
  shows "fits may {} (\<lambda>v. texts (map snd v)) always (render_slice_validation env m)"
  unfolding render_slice_validation_def Let_def
proof (rule fits_bind [OF fits_coverage [OF assms]])
  fix c assume c: "part_keeps None c"
  note t = assms(2) [THEN subset_trans, OF Un_upper1]
  show "fits (may \<union> part_marks c) ({} \<union> part_marks c) (\<lambda>v. texts (map snd v)) always
      (bind_b (currency_part env m (filter (\<lambda>x. x \<in> set (fm_fields (re_fact env)))
          (calculation_fields (re_metrics env) [mc_id m] (mc_calculation m))) (snd c))
        (\<lambda>u. bind_b (settlement_part env m (snd u)) (\<lambda>s. pure_b (fst c @ fst u @ fst s))))"
  proof (rule fits_bind [OF fits_currency [OF assms(1) t]])
    fix u assume u: "part_keeps (snd c) u"
    show "fits (may \<union> part_marks c \<union> part_marks u) ({} \<union> part_marks c \<union> part_marks u) (\<lambda>v. texts (map snd v)) always
        (bind_b (settlement_part env m (snd u)) (\<lambda>s. pure_b (fst c @ fst u @ fst s)))"
      by (rule fits_bind [OF fits_settlement [OF assms(1)]], use assms(2) in blast, force simp: part_marks_def, rule fits_pure)
        (use c u in \<open>auto simp: part_marks_def\<close>)
  qed (force simp: part_marks_def)
qed simp

section \<open>Trusted predicates\<close>

definition customer_metric :: "string \<Rightarrow> bool" where
  "customer_metric k \<longleftrightarrow> k = ACTIVE_CUSTOMERS \<or> k = LAPSED_CUSTOMERS"

lemma fits_trusted: "fits may {} texts (\<lambda>ps. \<not> customer_metric (mc_id m) \<longrightarrow> ps = []) (trusted_metric_predicates pf cx p cal m)"
proof -
  have "fits may {} texts always (trusted_window pf cx p cal k c)" if "plain c" for k c
    unfolding trusted_window_def by (intro fits_lift fits_bind [OF fits_add] fits_pure) (use that in auto)
  then have w: "customer_metric (mc_id m) \<Longrightarrow> fits may {} texts (\<lambda>ps. \<not> customer_metric (mc_id m) \<longrightarrow> ps = []) (trusted_window pf cx p cal k c)"
    if "plain c" for k c using that by (rule_tac fits_weaken [of may "{}"]) auto
  show ?thesis unfolding trusted_metric_predicates_def
    by (intro fits_if w fits_pure) (auto simp: customer_metric_def)
qed

definition cache_marks :: "trusted_cache \<Rightarrow> nat set" where
  "cache_marks cache = \<Union> (texts ` snd ` set cache)"

definition cache_ok :: "trusted_cache \<Rightarrow> bool" where
  "cache_ok cache \<longleftrightarrow> (\<forall>(k, ps)\<in>set cache. \<not> customer_metric k \<longrightarrow> ps = [])"

definition extends_cache :: "trusted_cache \<Rightarrow> trusted_cache \<Rightarrow> bool" where
  "extends_cache c c' \<longleftrightarrow> set c \<subseteq> set c' \<and> cache_ok c'"

lemma extends_marks: "extends_cache c c' \<Longrightarrow> cache_marks c \<subseteq> cache_marks c'"
  by (auto simp: extends_cache_def cache_marks_def)

abbreviation found_marks :: "string list \<times> trusted_cache \<Rightarrow> nat set" where
  "found_marks r \<equiv> texts (fst r) \<union> cache_marks (snd r)"

lemma fits_trusted_for:
  assumes "cache_marks cache \<subseteq> may" "cache_ok cache"
  shows "fits may {} found_marks (\<lambda>r. (mc_id m, fst r) \<in> set (snd r) \<and> extends_cache cache (snd r) \<and>
      cache_marks (snd r) \<subseteq> cache_marks cache \<union> texts (fst r) \<and> (\<not> customer_metric (mc_id m) \<longrightarrow> fst r = []))
    (trusted_for (trusted_metric_predicates pf cx p cal) cache m)"
  unfolding trusted_for_def
proof (rule fits_option)
  show "fits may {} found_marks (\<lambda>r. (mc_id m, fst r) \<in> set (snd r) \<and> extends_cache cache (snd r) \<and>
      cache_marks (snd r) \<subseteq> cache_marks cache \<union> texts (fst r) \<and> (\<not> customer_metric (mc_id m) \<longrightarrow> fst r = []))
    (bind_b (trusted_metric_predicates pf cx p cal m) (\<lambda>ps. pure_b (ps, (mc_id m, ps) # cache)))"
    by (rule fits_bind [OF fits_trusted], rule fits_pure)
      (use assms in \<open>auto simp: cache_marks_def extends_cache_def cache_ok_def\<close>)
next
  fix ps assume "map_of cache (mc_id m) = Some ps"
  then have i: "(mc_id m, ps) \<in> set cache" by (rule map_of_SomeD)
  then show "fits may {} found_marks (\<lambda>r. (mc_id m, fst r) \<in> set (snd r) \<and> extends_cache cache (snd r) \<and>
      cache_marks (snd r) \<subseteq> cache_marks cache \<union> texts (fst r) \<and> (\<not> customer_metric (mc_id m) \<longrightarrow> fst r = []))
    (pure_b (ps, cache))"
    by (intro fits_pure) (use assms in \<open>force simp: cache_marks_def extends_cache_def cache_ok_def\<close>)+
qed


lemma rounded_marks [simp]: "marks (rounded_to_display_precision e m) = marks e"
  by (simp add: rounded_to_display_precision_def precision_of_def marks_plain split: metric_unit.split)

definition selects_found :: "(metric_contract \<Rightarrow> string list compiled) \<Rightarrow> trusted_cache \<Rightarrow> metric_contract list \<Rightarrow> string list \<times> trusted_cache \<Rightarrow> bool" where
  "selects_found timed cache ms r \<longleftrightarrow>
     extends_cache cache (snd r) \<and> cache_marks (snd r) \<subseteq> cache_marks cache \<union> texts (fst r) \<and>
     (\<forall>m\<in>set ms. (\<exists>ps. (mc_id m, ps) \<in> set (snd r)) \<and> (\<forall>tps. timed m = Inr tps \<longrightarrow> texts tps \<subseteq> texts (fst r)))"

lemma fits_metric_selects:
  assumes "plain_joins (re_joins env)" "cache_marks cache \<subseteq> may" "cache_ok cache" "marks b \<subseteq> may"
    and "\<forall>m\<in>set ms. \<forall>tps. timed m = Inr tps \<longrightarrow> texts tps \<subseteq> may"
    and "\<forall>m\<in>set ms. reaches_aggregate (re_metrics env) [mc_id m] (mc_calculation m) \<or> \<not> customer_metric (mc_id m) \<and> timed m = Inr []"
  shows "fits may {} found_marks (selects_found timed cache ms) (metric_selects env cx (trusted_metric_predicates pf cx p cal) timed b cache ms)"
  using assms(2-)
proof (induction ms arbitrary: cache may)
  case Nil
  then show ?case by (auto intro!: fits_pure simp: selects_found_def extends_cache_def)
next
  case (Cons m ms)
  show ?case unfolding metric_selects.simps
  proof (rule fits_lift, rule fits_bind [OF fits_trusted_for [OF Cons.prems(1,2)]])
    fix tps tc
    assume t: "timed m = Inr tps" and tc: "(mc_id m, fst tc) \<in> set (snd tc) \<and> extends_cache cache (snd tc) \<and>
        cache_marks (snd tc) \<subseteq> cache_marks cache \<union> texts (fst tc) \<and> (\<not> customer_metric (mc_id m) \<longrightarrow> fst tc = [])"
    let ?env = "env\<lparr>re_trusted := fst tc @ tps\<rparr>" and ?may = "may \<union> found_marks tc"
    have tm: "texts tps \<subseteq> may" using Cons.prems(4) t by simp
    have calc: "fits ?may (texts (re_trusted ?env)) marks always (render_metric_calculation ?env cx b m)"
      by (rule fits_metric_calculation)
        (use assms(1) Cons.prems(3,5) tm t tc in \<open>auto simp: env_plain_def\<close>)
    show "fits ?may ({} \<union> found_marks tc) found_marks (selects_found timed cache (m # ms))
        (bind_b (render_metric_calculation ?env cx b m)
          (\<lambda>e. bind_b (lift_b (as_alias (rounded_to_display_precision e m) (short_metric_name (mc_id m))))
            (\<lambda>s. bind_b (metric_selects env cx (trusted_metric_predicates pf cx p cal) timed b (snd tc) ms)
              (\<lambda>rest. pure_b (s # fst rest, snd rest)))))"
    proof (rule fits_bind [OF fits_keep [OF calc subset_refl]], rule fits_lift, rule fits_bind [OF Cons.IH])
      fix e s rest
      assume e: "texts (re_trusted ?env) \<subseteq> marks e \<and> always e" and rest: "selects_found timed (snd tc) ms rest"
        and s: "as_alias (rounded_to_display_precision e m) (short_metric_name (mc_id m)) = Inr s"
      have s: "marks s = marks e" using as_alias_marks [OF s] by simp
      have "cache_marks (snd tc) \<subseteq> cache_marks (snd rest)"
        using rest by (auto simp: selects_found_def dest!: extends_marks)
      then show "fits (?may \<union> marks e \<union> found_marks rest) ({} \<union> found_marks tc \<union> marks e \<union> found_marks rest) found_marks
          (selects_found timed cache (m # ms)) (pure_b (s # fst rest, snd rest))"
        using e s rest t tc
        by (intro fits_pure) (auto simp: selects_found_def extends_cache_def, blast+)
    qed (use Cons.prems tc in \<open>auto simp: extends_cache_def, blast+\<close>)
  qed
qed

lemma bind_pure [simp]: "bind_b (pure_b x) f = f x"
  by (simp add: bind_b_def pure_b_def fun_eq_iff)

lemma trusted_for_hit:
  assumes "(mc_id m, ps) \<in> set cache"
  shows "\<exists>ps'. trusted_for tr cache m = pure_b (ps', cache) \<and> texts ps' \<subseteq> cache_marks cache"
proof -
  obtain ps' where p: "map_of cache (mc_id m) = Some ps'" using assms by (metis map_of_eq_None_iff fst_conv imageI not_None_eq)
  from map_of_SomeD [OF this] have "texts ps' \<subseteq> cache_marks cache" by (force simp: cache_marks_def)
  with p show ?thesis by (auto simp: trusted_for_def intro!: exI [of _ ps'])
qed

lemma fits_validation_selects:
  assumes "plain_joins (re_joins env)" "cache_marks cache \<subseteq> may" "\<And>m. m \<in> set ms \<Longrightarrow> \<exists>ps. (mc_id m, ps) \<in> set cache"
  shows "fits may {} (\<lambda>v. texts (map snd v)) always (validation_selects env tr cache ms)"
  using assms(2,3)
proof (induction ms arbitrary: may)
  case Nil
  then show ?case by (auto intro: fits_pure)
next
  case (Cons m ms)
  obtain ps where "(mc_id m, ps) \<in> set cache" using Cons.prems(2) by fastforce
  from trusted_for_hit [OF this] obtain ps' where h: "trusted_for tr cache m = pure_b (ps', cache)" "texts ps' \<subseteq> may"
    using Cons.prems(1) by blast
  show ?case unfolding validation_selects.simps h(1) bind_pure fst_conv snd_conv
    by (rule fits_bind [OF fits_slice_validation], use assms(1) h(2) in \<open>simp_all add: env_plain_def\<close>,
        rule fits_bind [OF Cons.IH], use Cons.prems in auto, rule fits_pure, auto)
qed


section \<open>A single aggregate fits\<close>

lemma resolve_join_plain: "resolve_join f i d = Inr j \<Longrightarrow> plain (dj_alias j)"
  by (auto simp: resolve_join_def split: option.splits if_splits)

lemma resolve_joins_plain: "resolve_joins f i ds = Inr js \<Longrightarrow> \<forall>j\<in>set js. plain (dj_alias j)"
  by (induction f i ds arbitrary: js rule: resolve_joins.induct) (auto simp: and_then_Inr_iff dest: resolve_join_plain)

lemma join_label_plain: "join_label_expression d = Inr l \<Longrightarrow> plain (dj_alias d) \<Longrightarrow> plain l"
  by (auto simp: join_label_expression_def and_then_Inr_iff rollup_alias_def split: option.splits dest!: column_plain)

lemma join_key_plain: "join_key_expression js d = Inr k \<Longrightarrow> plain (dj_alias d) \<Longrightarrow> plain_joins js \<Longrightarrow> plain k"
  by (auto simp: join_key_expression_def and_then_Inr_iff split: option.splits dest!: column_plain resolved_field_plain)

definition grouping_plain :: "grouping \<Rightarrow> bool" where
  "grouping_plain g \<longleftrightarrow> (\<forall>x\<in>set (fst g). plain x) \<and> (\<forall>x\<in>set (fst (snd g)). plain x)"

lemma joined_grouping_plain: "joined_grouping js d = Inr g \<Longrightarrow> plain (dj_alias d) \<Longrightarrow> plain_joins js \<Longrightarrow> grouping_plain g"
  by (auto simp: joined_grouping_def and_then_Inr_iff grouping_plain_def dest!: join_key_plain join_label_plain dest: as_alias_plain)

lemma derived_grouping_plain:
  assumes "derived_grouping d = Inr g"
  shows "grouping_plain g"
proof -
  obtain e where e: "derived_expression d ''f'' = Inr e" using assms by (auto simp: derived_grouping_def and_then_Inr_iff)
  define key where "key = (case derived_sort_key d ''f'' of None \<Rightarrow> e | Some k \<Rightarrow> k)"
  have p: "plain e" "plain key"
    using derived_expression_plain [OF e] derived_key_plain [of d "''f''"] by (auto simp: key_def split: option.split)
  obtain l k where "as_alias e d = Inr l" "as_alias key (hidden_key d) = Inr k"
      "g = ([l, k], (if key = e then [e] else [e, key]), hidden_key d)"
    using assms unfolding derived_grouping_def e and_then_simps Let_def key_def [symmetric] by (auto simp: and_then_Inr_iff)
  with p show ?thesis by (auto simp: grouping_plain_def dest: as_alias_plain)
qed

lemma join_clauses_plain: "join_clauses js d = Inr cs \<Longrightarrow> plain (dj_alias d) \<Longrightarrow> plain_joins js \<Longrightarrow> \<forall>c\<in>set cs. plain c"
  by (auto simp: join_clauses_def Let_def and_then_Inr_iff rollup_alias_def split: option.splits
      dest!: quote_qualified_plain column_plain resolved_field_plain)

definition dimensions_plain :: "dimension_plan \<Rightarrow> bool" where
  "dimensions_plain dp \<longleftrightarrow> (\<forall>d\<in>set (dp_joins dp). plain (dj_alias d)) \<and> (\<forall>l\<in>set (dp_labels dp). plain (snd l)) \<and>
     (\<forall>g\<in>set (dp_groupings dp). grouping_plain g)"

lemma plan_dimensions_plain:
  assumes "plan_dimensions f js q = Inr dp" "plain_joins js"
  shows "dimensions_plain dp"
proof -
  obtain a b ls gs ds where
      ab: "resolve_joins f 0 (filter (\<lambda>d. \<not> is_derived_date d) (sq_dimensions q)) = Inr a"
        "resolve_joins f (length a) (filter_only_dimensions f a (sq_filters q)) = Inr b"
      and ls: "map_r (\<lambda>d. and_then (join_label_expression d) (\<lambda>l. Inr (dj_dimension d, l))) (a @ b) = Inr ls"
      and gs: "map_r (joined_grouping js) a = Inr gs"
      and ds: "map_r derived_grouping (filter (\<lambda>d. is_derived_date d \<and> d \<notin> dj_dimension ` set a) (sq_dimensions q)) = Inr ds"
      and dp: "dp = \<lparr>dp_joins = a @ b, dp_labels = ls, dp_groupings = gs @ ds\<rparr>"
    using assms(1) unfolding plan_dimensions_def and_then_Inr_iff by blast
  have j: "\<forall>d\<in>set (a @ b). plain (dj_alias d)" using resolve_joins_plain [OF ab(1)] resolve_joins_plain [OF ab(2)] by auto
  have "plain (snd l)" if "l \<in> set ls" for l
    using map_r_all [OF ls that] j by (auto simp: and_then_Inr_iff dest: join_label_plain)
  moreover have "grouping_plain g" if "g \<in> set gs" for g
    using map_r_all [OF gs that] j assms(2) by (auto intro: joined_grouping_plain)
  moreover have "grouping_plain g" if "g \<in> set ds" for g
    using map_r_all [OF ds that] by (auto intro: derived_grouping_plain)
  ultimately show ?thesis using j by (auto simp: dimensions_plain_def dp)
qed

lemma groupings_plain:
  assumes "dimensions_plain dp"
  shows "texts (concat (map fst (dp_groupings dp))) = {}" "texts (concat (map (\<lambda>g. fst (snd g)) (dp_groupings dp))) = {}"
  by (rule texts_plain, use assms in \<open>force simp: dimensions_plain_def grouping_plain_def\<close>)+

lemma fits_user_filter:
  assumes "plain_joins js" "\<forall>l\<in>set labels. plain (snd l)"
  shows "fits may {} marks always (render_user_filter t ms f js labels c)"
proof -
  have label: "plain l" if "map_of (rev labels) k = Some l" for k l
    using map_of_SomeD [OF that] assms(2) by auto
  have two: "fits may' {} marks always (bind_b (render_filter_expression a g vs) (\<lambda>k. bind_b (render_filter_expression b g vs) (\<lambda>l. pure_b (h k l))))"
    if "plain a" "plain b" "\<And>k l. marks (h k l) = marks k \<union> marks l" for may' a b g vs and h :: "string \<Rightarrow> string \<Rightarrow> string"
    by (rule fits_bind [OF fits_filter_expression], rule that, rule fits_bind [OF fits_filter_expression], rule that, rule fits_pure)
      (auto simp: that)
  show ?thesis
    unfolding render_user_filter_def Let_def
    by (rule fits_bind [OF fits_check])
      (intro fits_if fits_lift fits_option fits_fail;
        auto intro!: fits_filter_expression two dest: derived_expression_plain resolved_field_plain [OF _ _ assms(1)] intro: label)
qed

lemma marks_one: "marks (CHR ''$'' # ''1'') = {1}"
  by (simp add: marks_def is_digit_def code_def nat_of_digits_def digit_val_def)

lemma column_marks: "column ''f'' v = Inr x \<Longrightarrow> marks x = {} \<and> plain x"
  using column_plain [of "''f''" v x] by (simp add: marks_plain)

lemma time_predicates_marks:
  assumes "time_predicates lapsed field a b = Inr cs"
  shows "texts cs = {1} \<union> (if lapsed then {} else marks a) \<union> marks b" "\<exists>t. column ''f'' field = Inr t"
proof -
  obtain t where t: "column ''f'' field = Inr t"
      "cs = [col ''f'' ''tenant_id'' @ '' = $1''] @ (if lapsed then [] else [t @ '' >= '' @ a]) @ [t @ '' < '' @ b]"
    using assms by (auto simp: time_predicates_def and_then_Inr_iff)
  with column_marks [OF t(1)] show "texts cs = {1} \<union> (if lapsed then {} else marks a) \<union> marks b" "\<exists>t. column ''f'' field = Inr t"
    by (simp_all add: marks_one)
qed

lemma metric_time_marks:
  assumes "metric_time_predicates lapsed field a b m = Inr tps"
  shows "texts tps = (if lapsed \<and> mc_id m \<noteq> LAPSED_CUSTOMERS then marks a \<union> marks b else {})"
  using assms by (auto simp: metric_time_predicates_def and_then_Inr_iff dest!: column_marks split: if_splits)

lemma snapshot_select_plain: "snapshot_select t es x = Inr s \<Longrightarrow> plain es \<Longrightarrow> plain s"
  by (auto simp: snapshot_select_def and_then_Inr_iff dest!: column_plain as_alias_plain)

lemma fact_source_marks:
  assumes "fact_source r pl a b = Inr s"
  shows "marks s \<subseteq> {1} \<union> marks a \<union> marks b"
proof (cases "render_snapshot_latest_source (pl_fact pl) (pl_metrics pl) (reg_metrics r) a b")
  case (Inr x)
  show ?thesis
  proof (cases x)
    case None
    with assms Inr show ?thesis by (auto simp: fact_source_def and_then_Inr_iff marks_plain dest!: quote_qualified_plain)
  next
    case (Some y)
    let ?js = "resolve_identity_joins (pl_fact pl) ''snapshot_identity''"
    have js: "plain_joins ?js" by (rule resolve_identity_joins_plain) simp
    obtain w where "x = Some y" and "s = y" using assms Inr Some by (auto simp: fact_source_def)
    then obtain j ks selects t tf table where
        j: "render_identity_joins ?js ''base'' = Inr j" and ks: "map_r (resolved_fact_field ?js ''base'') (fm_snapshot_keys (pl_fact pl)) = Inr ks"
        and sel: "map_r (snapshot_select tf (join_with comma ks)) (uniq (map fst (concat (map (collect_snapshot_windows (reg_metrics r)) (pl_metrics pl))))) = Inr selects"
        and t: "column ''base'' tf = Inr t" and table: "quote_qualified (fm_table (pl_fact pl)) = Inr table"
        and s: "s = ''(SELECT base.*, '' @ join_with comma selects @ nl @ ''   FROM '' @ table @ '' base'' @
            (if j = [] then [] else nl @ ''   '' @ j) @ nl @ ''  WHERE '' @
            conj_with [col ''base'' ''tenant_id'' @ '' = $1'', t @ '' >= '' @ a, t @ '' < '' @ b] @ '') f''"
      using Inr Some unfolding render_snapshot_latest_source_def Let_def
      by (auto simp: and_then_Inr_iff split: if_splits)
    have p: "plain j" "plain t" "plain table"
      using identity_joins_plain [OF j _ js] column_plain [OF t] quote_qualified_plain [OF table] by simp_all
    have "plain (join_with comma ks)" by (rule plain_join) (use js in \<open>auto dest!: map_r_all [OF ks] dest: resolved_field_plain\<close>)
    then have "plain z" if "z \<in> set selects" for z using map_r_all [OF sel that] by (auto dest: snapshot_select_plain)
    then have "texts selects = {}" by (rule texts_plain)
    with p show ?thesis unfolding s by (auto simp: nl_def marks_one marks_plain)
  qed
qed (use assms in \<open>simp add: fact_source_def\<close>)

lemma statement_marks:
  "marks (single_statement selects source join_sql conditions group_by) =
     texts selects \<union> marks source \<union> marks join_sql \<union> texts conditions \<union> texts group_by"
  by (cases "join_sql = []"; cases "group_by = []") (auto simp: single_statement_def nl_def)


definition aggregating :: "metric_contract list \<Rightarrow> metric_contract list \<Rightarrow> bool" where
  "aggregating reg ms \<longleftrightarrow> (\<forall>m\<in>set ms. reaches_aggregate reg [mc_id m] (mc_calculation m))"

lemma fits_rest:
  assumes may: "{1} \<union> marks a \<union> marks b \<union> found_marks sel \<subseteq> may"
    and env: "plain_joins (re_joins env)" and dims: "dimensions_plain dp"
    and found: "selects_found (metric_time_predicates (has_lapsed_metric (pl_metrics pl)) (ts_field (sq_time q)) a b) [] (pl_metrics pl) sel"
    and lower: "has_lapsed_metric (pl_metrics pl) \<Longrightarrow> (\<exists>m\<in>set (pl_metrics pl). mc_id m \<noteq> LAPSED_CUSTOMERS) \<or> marks a = marks b"
  shows "fits may ({1} \<union> marks a \<union> marks b \<union> found_marks sel) (\<lambda>s. marks (rs_sql s)) always
    (render_rest r t q pl a b env tr dp sel)"
proof -
  let ?js = "re_joins env" and ?lapsed = "has_lapsed_metric (pl_metrics pl)" and ?field = "ts_field (sq_time q)"
  have entries: "\<exists>ps. (mc_id m, ps) \<in> set (snd sel)" if "m \<in> set (pl_metrics pl)" for m
    using found that by (simp add: selects_found_def)
  have cached: "cache_marks (snd sel) \<subseteq> texts (fst sel)"
    using found by (simp add: selects_found_def cache_marks_def)
  have labels: "\<forall>l\<in>set (dp_labels dp). plain (snd l)" using dims by (simp add: dimensions_plain_def)
  have filters: "fits may' {} texts always (map_b (render_user_filter t (pl_metrics pl) (pl_fact pl) ?js (dp_labels dp)) (sq_filters q))" for may'
    unfolding texts_def by (rule fits_weaken [OF fits_map [where Q = always]]) (auto intro: fits_user_filter [OF env labels])
  have clauses: "texts (concat cs) = {}" if "map_r (join_clauses ?js) (dp_joins dp) = Inr cs" for cs
    by (rule texts_plain) (use dims env in \<open>auto simp: dimensions_plain_def dest!: map_r_all [OF that] join_clauses_plain\<close>)
  have from_used: "marks a \<subseteq> texts cs \<union> texts (fst sel)" if c: "time_predicates ?lapsed ?field a b = Inr cs" for cs
  proof (cases "?lapsed \<and> marks a \<noteq> marks b")
    case True
    with lower obtain m where m: "m \<in> set (pl_metrics pl)" "mc_id m \<noteq> LAPSED_CUSTOMERS" by blast
    obtain tps where tps: "metric_time_predicates ?lapsed ?field a b m = Inr tps"
      using time_predicates_marks(2) [OF c] True m by (auto simp: metric_time_predicates_def)
    with found m(1) have "texts tps \<subseteq> texts (fst sel)" by (simp add: selects_found_def)
    with metric_time_marks [OF tps] True m show ?thesis by auto
  qed (use time_predicates_marks(1) [OF c] in auto)
  show ?thesis
    unfolding render_rest_def Let_def
  proof (rule fits_bind [OF fits_validation_selects [OF env]], use may in blast, rule entries, assumption, intro fits_lift fits_bind [OF filters])
    fix val :: "(string \<times> string) list" and cs user ids cls source
    assume cs: "time_predicates ?lapsed ?field a b = Inr cs" and ids: "render_identity_joins ?js ''f'' = Inr ids"
      and cls: "map_r (join_clauses ?js) (dp_joins dp) = Inr cls" and source: "fact_source r pl a b = Inr source"
    have "marks ids = {}" using identity_joins_plain [OF ids _ env] by (simp add: marks_plain)
    then have "texts (filter (\<lambda>x. x \<noteq> []) [ids, join_with nl (concat cls)]) = {}" using clauses [OF cls] by simp
    note no_joins = this
    let ?sql = "single_statement (concat (map fst (dp_groupings dp)) @ fst sel @ map snd val) source
      (join_with nl (filter (\<lambda>x. x \<noteq> []) [ids, join_with nl (concat cls)])) (cs @ user) (concat (map (\<lambda>g. fst (snd g)) (dp_groupings dp)))"
    have "marks ?sql = texts (fst sel) \<union> texts (map snd val) \<union> marks source \<union> texts cs \<union> texts user"
      unfolding statement_marks texts_simps(2,3) join_parts groupings_plain [OF dims] no_joins by blast
    moreover have "texts cs = {1} \<union> (if ?lapsed then {} else marks a) \<union> marks b" by (rule time_predicates_marks(1) [OF cs])
    moreover note fact_source_marks [OF source] from_used [OF cs] cached
    ultimately have sql: "marks ?sql \<subseteq> may \<union> texts (map snd val) \<union> texts user"
        "{1} \<union> marks a \<union> marks b \<union> found_marks sel \<union> texts (map snd val) \<union> texts user \<subseteq> marks ?sql"
      using may by (auto split: if_splits)
    then show "fits (may \<union> texts (map snd val) \<union> texts user)
        ({1} \<union> marks a \<union> marks b \<union> found_marks sel \<union> texts (map snd val) \<union> texts user) (\<lambda>s. marks (rs_sql s)) always
        (pure_b \<lparr>rs_sql = single_statement (concat (map fst (dp_groupings dp)) @ fst sel @ map snd val) source
                   (join_with nl (filter (\<lambda>x. x \<noteq> []) [ids, join_with nl (concat cls)]))
                   (cs @ user) (concat (map (\<lambda>g. fst (snd g)) (dp_groupings dp))),
                 rs_metric_ids = map mc_id (pl_metrics pl), rs_aliases = metric_aliases (pl_metrics pl), rs_dimensions = sq_dimensions q,
                 rs_hidden = map (\<lambda>g. snd (snd g)) (dp_groupings dp), rs_validation = map fst val, rs_table = fm_table (pl_fact pl),
                 rs_requested = pl_requested pl,
                 rs_resolved = \<lparr>rt_range = pl_period pl, rt_compare = ts_compare (sq_time q), rt_comparison = None\<rparr>\<rparr>)"
      by (intro fits_pure) simp_all
  qed
qed

lemma fits_body:
  assumes may: "{1} \<union> marks a \<union> marks b \<subseteq> may"
    and agg: "(\<exists>m\<in>set (pl_metrics pl). customer_metric (mc_id m)) \<Longrightarrow> aggregating (reg_metrics r) (pl_metrics pl)"
    and lower: "has_lapsed_metric (pl_metrics pl) \<Longrightarrow> (\<exists>m\<in>set (pl_metrics pl). mc_id m \<noteq> LAPSED_CUSTOMERS) \<or> marks a = marks b"
  shows "fits may ({1} \<union> marks a \<union> marks b) (\<lambda>s. marks (rs_sql s)) always (render_body pf cx r t q pl a b)"
proof -
  let ?js = "resolve_identity_joins (pl_fact pl) ''identity''"
  let ?env = "\<lparr>re_fact = pl_fact pl, re_metrics = reg_metrics r, re_joins = ?js, re_trusted = []\<rparr>"
  let ?timed = "metric_time_predicates (has_lapsed_metric (pl_metrics pl)) (ts_field (sq_time q)) a b"
  have js: "plain_joins ?js" by (rule resolve_identity_joins_plain) simp
  have timed: "\<forall>m\<in>set (pl_metrics pl). \<forall>tps. ?timed m = Inr tps \<longrightarrow> texts tps \<subseteq> may"
    using may by (auto dest!: metric_time_marks split: if_splits)
  have reach: "\<forall>m\<in>set (pl_metrics pl). reaches_aggregate (re_metrics ?env) [mc_id m] (mc_calculation m) \<or>
      \<not> customer_metric (mc_id m) \<and> ?timed m = Inr []"
  proof (cases "\<exists>m\<in>set (pl_metrics pl). customer_metric (mc_id m)")
    case True
    from agg [OF this] show ?thesis by (auto simp: aggregating_def)
  next
    case False
    then have "\<not> has_lapsed_metric (pl_metrics pl)" by (auto simp: has_lapsed_metric_def list_ex_iff customer_metric_def)
    with False show ?thesis by (auto simp: metric_time_predicates_def)
  qed
  have marks_b: "marks b \<subseteq> may" using may by simp
  note sel = fits_metric_selects [of ?env "[]", simplified, OF js _ _ marks_b timed reach [simplified]]
  show ?thesis
    unfolding render_body_def Let_def
  proof (rule fits_lift, rule fits_bind [OF sel])
    fix dp sel
    assume dp: "plan_dimensions (pl_fact pl) ?js q = Inr dp" and found: "selects_found ?timed [] (pl_metrics pl) sel"
    show "fits (may \<union> found_marks sel) ({1} \<union> marks a \<union> marks b \<union> found_marks sel) (\<lambda>s. marks (rs_sql s)) always
        (render_rest r t q pl a b ?env (trusted_metric_predicates pf cx (pl_period pl) (pl_calendar pl)) dp sel)"
      by (rule fits_rest [OF _ _ plan_dimensions_plain [OF dp js] found lower]) (use may js in auto)
  qed (simp_all add: cache_marks_def cache_ok_def)
qed

definition customer_metrics_aggregate :: "semantic_registry \<Rightarrow> bool" where
  "customer_metrics_aggregate r \<longleftrightarrow>
     (\<forall>m\<in>set (reg_metrics r). \<forall>k\<in>set (reg_metrics r). customer_metric (mc_id k) \<longrightarrow> mc_base_fact k = mc_base_fact m \<longrightarrow>
        reaches_aggregate (reg_metrics r) [mc_id m] (mc_calculation m))"

lemma fits_single:
  assumes "customer_metrics_aggregate r" "{1} \<subseteq> may"
  shows "fits may {1} (\<lambda>s. marks (rs_sql s)) always (render_single pf cx r t q)"
  unfolding render_single_def Let_def
proof (rule fits_lift)
  fix pl assume pl: "plan_single pf cx r t q = Inr pl"
  note ok = plan_single_ok [OF pl]
  have agg: "aggregating (reg_metrics r) (pl_metrics pl)" if "\<exists>m\<in>set (pl_metrics pl). customer_metric (mc_id m)"
    using that assms(1) single_fact_ok(1) [OF ok(2)] resolve_metrics_ok [OF ok(1)]
    unfolding aggregating_def customer_metrics_aggregate_def by metis
  let ?window = "time_parameter_values (ts_field (sq_time q)) (pl_period pl)" and ?lapsed = "has_lapsed_metric (pl_metrics pl)"
  let ?needs = "\<not> ?lapsed \<or> list_ex (\<lambda>m. mc_id m \<noteq> LAPSED_CUSTOMERS) (pl_metrics pl)"
  show "fits may {1} (\<lambda>s. marks (rs_sql s)) always
      (bind_b (if ?needs then bind_b (add_parameter (Text (fst ?window))) (\<lambda>p. pure_b (Some p)) else pure_b None) (\<lambda>lower.
       bind_b (add_parameter (Text (snd ?window))) (\<lambda>to_parameter.
         render_body pf cx r t q pl (case lower of Some p \<Rightarrow> p | None \<Rightarrow> to_parameter) to_parameter)))"
  proof (rule fits_bind [where used = "\<lambda>l. case l of None \<Rightarrow> {} | Some p \<Rightarrow> marks p" and Q = "\<lambda>l. (l = None) = (\<not> ?needs)"])
    show "fits may {} (\<lambda>l. case l of None \<Rightarrow> {} | Some p \<Rightarrow> marks p) (\<lambda>l. (l = None) = (\<not> ?needs))
        (if ?needs then bind_b (add_parameter (Text (fst ?window))) (\<lambda>p. pure_b (Some p)) else pure_b None)"
      by (intro fits_if fits_bind [OF fits_add] fits_pure) auto
  next
    fix l :: "string option" assume l: "(l = None) = (\<not> ?needs)"
    show "fits (may \<union> (case l of None \<Rightarrow> {} | Some p \<Rightarrow> marks p)) ({1} \<union> (case l of None \<Rightarrow> {} | Some p \<Rightarrow> marks p)) (\<lambda>s. marks (rs_sql s)) always
        (bind_b (add_parameter (Text (snd ?window))) (\<lambda>to_parameter.
          render_body pf cx r t q pl (case l of Some p \<Rightarrow> p | None \<Rightarrow> to_parameter) to_parameter))"
    proof (rule fits_bind [OF fits_add])
      fix p
      let ?low = "case l of Some q \<Rightarrow> q | None \<Rightarrow> p" and ?used = "case l of None \<Rightarrow> {} | Some q \<Rightarrow> marks q"
      have lower: "(\<exists>m\<in>set (pl_metrics pl). mc_id m \<noteq> LAPSED_CUSTOMERS) \<or> marks ?low = marks p" if ?lapsed
        using l that by (cases l) (auto simp: list_ex_iff)
      have "fits ({1} \<union> marks ?low \<union> marks p) ({1} \<union> marks ?low \<union> marks p) (\<lambda>s. marks (rs_sql s)) always
          (render_body pf cx r t q pl ?low p)"
        by (rule fits_body [OF subset_refl agg lower])
      then show "fits (may \<union> ?used \<union> marks p) ({1} \<union> ?used \<union> marks p) (\<lambda>s. marks (rs_sql s)) always
          (render_body pf cx r t q pl ?low p)"
        by (rule fits_weaken) (use assms(2) in \<open>auto split: option.splits\<close>)
    qed
  qed
qed

end
