(* ===== verification/Semantic_Placeholders.thy ===== *)
theory Semantic_Placeholders
  imports Semantic_Parameters
begin

text \<open>
  The numbering of the parameters of a whole compiled query: the statements of single queries, of their
  comparison with a prior period and of composites only combine the texts of their parts, and the
  limit is the last parameter.
\<close>

section \<open>Statements built from statements\<close>

lemma join_split: "join_with [c] (split_on c s) = s"
proof (induction s)
  case (Cons x s)
  then show ?case by (cases "split_on c s"; cases "tl (split_on c s)") auto
qed simp

lemma marks_indent [simp]: "marks (indent s) = marks s"
proof -
  have "texts (map (\<lambda>l. ''  '' @ l) ls) = texts ls" for ls by (induction ls) simp_all
  then have "marks (indent s) = texts (split_on (CHR 0x0A) s)" by (simp add: indent_def)
  also have "\<dots> = marks (join_with nl (split_on (CHR 0x0A) s))" by simp
  also have "\<dots> = marks s" by (simp add: nl_def join_split)
  finally show ?thesis .
qed

lemma order_clause_plain: "order_clause o' = Inr c \<Longrightarrow> plain c"
  by (auto simp: order_clause_def and_then_Inr_iff split: direction.split dest: quote_plain)

lemma sort_plain:
  assumes "render_sort sorts aliases d = Inr s"
  shows "plain s"
proof -
  have "plain (join_with comma cs)" if "map_r order_clause os = Inr cs" for os cs
    by (rule plain_join) (auto dest: map_r_all [OF that] order_clause_plain)
  with assms show ?thesis by (auto simp: render_sort_def and_then_Inr_iff split: if_splits option.splits dest!: quote_plain)
qed

lemma alignment_plain [simp]: "plain (null_safe_alignment l r) \<longleftrightarrow> plain l \<and> plain r"
  by (auto simp: null_safe_alignment_def)

lemma key_alignment_plain: "null_safe_key_alignment l r d = Inr s \<Longrightarrow> plain l \<Longrightarrow> plain r \<Longrightarrow> plain s"
  by (auto simp: null_safe_key_alignment_def and_then_Inr_iff dest: quote_plain)

lemma combine_plain: "combine_validation_expressions a es = Inr s \<Longrightarrow> \<forall>e\<in>set es. plain e \<Longrightarrow> plain s"
  by (auto simp: combine_validation_expressions_def split: if_splits intro!: plain_join)

lemma dimension_select_plain: "dimension_select cur cmp d = Inr s \<Longrightarrow> plain cur \<Longrightarrow> plain cmp \<Longrightarrow> plain s"
  by (auto simp: dimension_select_def and_then_Inr_iff dest!: column_plain as_alias_plain)

lemma change_selects_plain:
  assumes "change_selects cur cmp a = Inr cs" "plain cur" "plain cmp"
  shows "\<forall>s\<in>set cs. plain s"
proof -
  obtain c p where "column cur a = Inr c" "column cmp a = Inr p" using assms(1) by (auto simp: change_selects_def and_then_Inr_iff)
  with assms show ?thesis
    by (auto simp: change_selects_def Let_def change_columns_def and_then_Inr_iff dest!: column_plain as_alias_plain)
qed

lemma combined_plain: "combined_validation_select ss a = Inr x \<Longrightarrow> \<forall>s\<in>set ss. plain s \<Longrightarrow> plain x"
  by (auto simp: combined_validation_select_def and_then_Inr_iff dest!: map_r_all
      elim!: as_alias_plain combine_plain intro: column_plain)

lemma comparison_marks:
  assumes "comparison_statement cur cmp now before ds as vs sorts sa limit = Inr sql" "plain cur" "plain cmp"
  shows "marks sql = marks now \<union> marks before \<union> marks limit"
proof -
  obtain xs ms vals ks order where
      xs: "map_r (dimension_select cur cmp) ds = Inr xs" and ms: "map_r (change_selects cur cmp) as = Inr ms"
      and vals: "map_r (combined_validation_select [cur, cmp]) vs = Inr vals"
      and ks: "map_r (null_safe_key_alignment cur cmp) ds = Inr ks" and order: "render_sort sorts sa None = Inr order"
      and sql: "sql = ''WITH '' @ cur @ '' AS ('' @ nl @ indent now @ nl @ ''),'' @ nl @ cmp @ '' AS ('' @ nl @ indent before @ nl @ '')'' @ nl @
         ''SELECT'' @ nl @ ''  '' @ join_with ('','' @ nl @ ''  '') (xs @ concat ms @ vals) @ nl @ ''FROM '' @ cur @ nl @
         ''FULL OUTER JOIN '' @ cmp @ '' ON '' @ (if ks = [] then ''TRUE'' else conj_with ks) @ nl @ order @ ''LIMIT '' @ limit"
    using assms(1) unfolding comparison_statement_def and_then_Inr_iff by blast
  have "texts (xs @ concat ms @ vals) = {}"
    using assms(2,3) by (intro texts_plain)
      (auto dest!: map_r_all [OF xs] map_r_all [OF ms] map_r_all [OF vals] dest: dimension_select_plain change_selects_plain combined_plain)
  moreover have "texts ks = {}"
    using assms(2,3) by (intro texts_plain) (auto dest!: map_r_all [OF ks] dest: key_alignment_plain)
  moreover note sort_plain [OF order]
  moreover have "marks cur = {}" "marks cmp = {}" "marks order = {}" using assms(2,3) sort_plain [OF order] by (simp_all add: marks_plain)
  ultimately show ?thesis unfolding sql by (cases "ks = []") (simp_all add: nl_def Un_assoc)
qed

section \<open>Single queries\<close>

lemma fits_limit: "fits may {} marks always (add_limit n)"
  by (simp add: add_limit_def fits_add)

text \<open>A statement that ends with the values bound so far fits when its text fits.\<close>

definition numbered :: "compiled_query build \<Rightarrow> bool" where
  "numbered m \<longleftrightarrow> (\<forall>v c ps. m [v] = Inr (c, ps) \<longrightarrow> marks (co_sql c) = {1..length (co_parameters c)} \<and> (\<exists>vs. co_parameters c = v # vs))"

definition fits_query :: "nat set \<Rightarrow> nat set \<Rightarrow> compiled_query build \<Rightarrow> bool" where
  "fits_query may must m \<longleftrightarrow> (\<forall>ps c ps'. m ps = Inr (c, ps') \<longrightarrow>
     (\<exists>vs. co_parameters c = ps @ vs) \<and> marks (co_sql c) \<subseteq> may \<union> {length ps<..length (co_parameters c)} \<and>
     {length ps<..length (co_parameters c)} \<union> must \<subseteq> marks (co_sql c))"

lemma numbered_fits: "fits_query {1} {1} m \<Longrightarrow> numbered m"
  unfolding fits_query_def numbered_def
proof (intro allI impI)
  fix v c ps
  assume "\<forall>ps c ps'. m ps = Inr (c, ps') \<longrightarrow> (\<exists>vs. co_parameters c = ps @ vs) \<and>
      marks (co_sql c) \<subseteq> {1} \<union> {length ps<..length (co_parameters c)} \<and> {length ps<..length (co_parameters c)} \<union> {1} \<subseteq> marks (co_sql c)"
    and "m [v] = Inr (c, ps)"
  then have *: "\<exists>vs. co_parameters c = [v] @ vs" "marks (co_sql c) \<subseteq> {1} \<union> {1<..length (co_parameters c)}"
      "{1<..length (co_parameters c)} \<union> {1} \<subseteq> marks (co_sql c)"
    by fastforce+
  then have "{1..length (co_parameters c)} = {1} \<union> {1<..length (co_parameters c)}" by auto
  with * show "marks (co_sql c) = {1..length (co_parameters c)} \<and> (\<exists>vs. co_parameters c = v # vs)" by auto
qed

lemma fits_query_bind:
  assumes "fits may {} used Q m" "\<And>x. Q x \<Longrightarrow> fits_query (may \<union> used x) (must \<union> used x) (f x)"
  shows "fits_query may must (bind_b m f)"
  unfolding fits_query_def
proof (intro allI impI)
  fix ps c ps2 assume "bind_b m f ps = Inr (c, ps2)"
  then obtain x ps1 where m: "m ps = Inr (x, ps1)" and f: "f x ps1 = Inr (c, ps2)" by (auto simp: bind_b_Inr)
  note 1 = fitsD [OF assms(1) m]
  have 2: "\<exists>vs. co_parameters c = ps1 @ vs" "marks (co_sql c) \<subseteq> may \<union> used x \<union> {length ps1<..length (co_parameters c)}"
      "{length ps1<..length (co_parameters c)} \<union> (must \<union> used x) \<subseteq> marks (co_sql c)"
    using assms(2) [OF 1(4)] f unfolding fits_query_def by blast+
  obtain vs ws where l: "ps1 = ps @ vs" "co_parameters c = ps1 @ ws" using 1(1) 2(1) by blast
  then have n: "{length ps<..length (co_parameters c)} = {length ps<..length ps1} \<union> {length ps1<..length (co_parameters c)}" by auto
  show "(\<exists>vs. co_parameters c = ps @ vs) \<and> marks (co_sql c) \<subseteq> may \<union> {length ps<..length (co_parameters c)} \<and>
      {length ps<..length (co_parameters c)} \<union> must \<subseteq> marks (co_sql c)"
    unfolding n using 1(2,3) 2(2,3) l by auto
qed

lemma fits_query_lift: "(\<And>x. r = Inr x \<Longrightarrow> fits_query may must (f x)) \<Longrightarrow> fits_query may must (bind_b (lift_b r) f)"
  by (cases r) (simp_all add: fits_query_def bind_b_def lift_b_def)

lemma fits_query_fail: "fits_query may must (fail_b e)"
  by (simp add: fits_query_def fail_b_def)

lemma fits_query_bound:
  assumes "\<And>ps. co_parameters (c ps) = ps" "\<And>ps. marks (co_sql (c ps)) \<subseteq> may" "\<And>ps. must \<subseteq> marks (co_sql (c ps))"
  shows "fits_query may must (bind_b bound_values (\<lambda>ps. pure_b (c ps)))"
  using assms by (auto simp: fits_query_def bound_values_def bind_b_def pure_b_def)

lemma fits_query_option:
  "(x = None \<Longrightarrow> fits_query may must m) \<Longrightarrow> (\<And>y. x = Some y \<Longrightarrow> fits_query may must (f y)) \<Longrightarrow>
   fits_query may must (case x of None \<Rightarrow> m | Some y \<Rightarrow> f y)"
  by (cases x) simp_all

lemma fits_rendered:
  assumes "customer_metrics_aggregate r" "1 \<in> may"
  shows "fits may {} (\<lambda>s. marks (rs_sql s)) (\<lambda>s. 1 \<in> marks (rs_sql s)) (render_single pf cx r t x)"
  using fits_keep [OF fits_single [OF assms(1)], of may may] assms(2) by simp

lemma sort_marks: "render_sort sorts aliases d = Inr s \<Longrightarrow> marks s = {}"
  by (simp add: marks_plain sort_plain)

lemma fits_compile_single:
  assumes "customer_metrics_aggregate r"
  shows "fits_query {1} {1} (compile_single pf cx r t max_rows q)"
  unfolding compile_single_def Let_def
proof (rule fits_query_bind [OF fits_rendered [OF assms]], simp, rule fits_query_option, goal_cases)
  case (1 s)
  then show ?case
    by - (rule fits_query_bind [OF fits_limit], intro fits_query_lift fits_query_bound; auto simp: nl_def dest: sort_marks)
next
  case (2 s mode)
  then show ?case
    by - (rule fits_query_lift, rule fits_query_bind [OF fits_rendered [OF assms]], simp, rule fits_query_bind [OF fits_limit],
        intro fits_query_lift fits_query_bound; auto dest: comparison_marks)
qed

section \<open>Composites\<close>

fun plain_literals :: "calculation \<Rightarrow> bool" where
  "plain_literals (Literal v) = plain v"
| "plain_literals (Binary b l r) = (plain_literals l \<and> plain_literals r)"
| "plain_literals _ = True"

definition registry_plain :: "semantic_registry \<Rightarrow> bool" where
  "registry_plain r \<longleftrightarrow> (\<forall>m\<in>set (reg_metrics r). plain_literals (mc_calculation m))"

lemma relation_plain [simp]: "plain pre \<Longrightarrow> plain (relation_name pre i)"
  by (simp add: relation_name_def del: string_of_nat.simps)

lemma component_plain: "component_value cs x = Inr e \<Longrightarrow> \<forall>c\<in>set cs. plain (snd c) \<Longrightarrow> plain e"
  by (auto simp: component_value_def split: option.splits if_splits dest!: map_of_SomeD)

lemma aligned_plain:
  "render_aligned_calculation ms cs stack x = Inr e \<Longrightarrow> \<forall>c\<in>set cs. plain (snd c) \<Longrightarrow> plain_literals x \<Longrightarrow>
   \<forall>m\<in>set ms. plain_literals (mc_calculation m) \<Longrightarrow> plain e"
proof (induction ms cs stack x arbitrary: e rule: render_aligned_calculation.induct)
  case (5 ms cs stack b l r)
  then show ?case by (cases b) (auto simp: and_then_Inr_iff)
qed (auto simp: component_plain split: if_splits option.splits dest!: metric_named_SomeD)

lemma rounded_plain [simp]: "plain (rounded_to_display_precision e m) \<longleftrightarrow> plain e"
  by (auto simp: rounded_to_display_precision_def precision_of_def split: metric_unit.split)

lemma components_plain: "collect_components pre seen xs = Inr c \<Longrightarrow> plain pre \<Longrightarrow> \<forall>e\<in>set (snd c). plain (snd e)"
proof (induction pre seen xs arbitrary: c rule: collect_components.induct)
  case (2 pre seen i k a xs)
  then obtain e d where "column (relation_name pre i) a = Inr e" "collect_components pre (seen @ [(k, a)]) xs = Inr d" "snd c = (a, e) # snd d"
      "k \<notin> fst ` set seen \<and> a \<notin> snd ` set seen"
    by (auto simp: and_then_Inr_iff split: if_splits)
  with 2 show ?case by (auto dest: column_plain)
qed simp

lemma columns_plain:
  assumes "map_r (\<lambda>i. column (relation_name pre i) x) is = Inr es" "plain pre"
  shows "\<forall>e\<in>set es. plain e" "plain (join_with comma es)"
proof -
  show es: "\<forall>e\<in>set es. plain e" using map_r_all [OF assms(1)] assms(2) by (blast dest: column_plain [OF _ relation_plain])
  then show "plain (join_with comma es)" by (intro plain_join) simp_all
qed

lemma composite_selects_plain:
  "composite_selects reg cs seen ms = Inr s \<Longrightarrow> \<forall>c\<in>set cs. plain (snd c) \<Longrightarrow> \<forall>m\<in>set reg. plain_literals (mc_calculation m) \<Longrightarrow>
   \<forall>m\<in>set ms. plain_literals (mc_calculation m) \<Longrightarrow> texts (snd s) = {}"
proof (induction reg cs seen ms arbitrary: s rule: composite_selects.induct)
  case (2 reg cs seen m ms)
  then show ?case
    by (auto simp: and_then_Inr_iff Let_def split: if_splits dest!: aligned_plain as_alias_plain simp: marks_plain)
qed simp

lemma key_selects_plain: "key_selects pre n d = Inr ks \<Longrightarrow> plain pre \<Longrightarrow> \<forall>k\<in>set ks. plain k"
  by (auto simp: key_selects_def and_then_Inr_iff dest!: as_alias_plain columns_plain(2))

lemma validation_select_plain: "validation_select pre v = Inr s \<Longrightarrow> plain pre \<Longrightarrow> plain s"
  by (auto simp: validation_select_def and_then_Inr_iff dest!: as_alias_plain columns_plain(1) combine_plain)

lemma alignment_join_plain:
  assumes "alignment_join pre align i = Inr s" "plain pre"
  shows "plain s"
proof -
  obtain ks where ks: "map_r (\<lambda>d. and_then (map_r (\<lambda>p. column (relation_name pre p) (hidden_key d)) [0..<i]) (\<lambda>previous.
       and_then (column (relation_name pre i) (hidden_key d)) (\<lambda>own. Inr (null_safe_alignment own (''COALESCE('' @ join_with comma previous @ '')''))))) align = Inr ks"
      and s: "s = nl @ ''FULL OUTER JOIN '' @ relation_name pre i @ '' ON '' @ conj_with ks"
    using assms(1) unfolding alignment_join_def and_then_Inr_iff by blast
  have "plain k" if "k \<in> set ks" for k
    using map_r_all [OF ks that] assms(2) by (auto simp: and_then_Inr_iff dest!: columns_plain(2) column_plain)
  then have "plain (conj_with ks)" unfolding conj_with_def by (intro plain_join) simp_all
  with assms(2) show ?thesis by (simp add: s)
qed

lemma composite_plan_marks:
  assumes "render_composite_plan rs align ms r pre = Inr plan" "registry_plain r" "\<forall>m\<in>set ms. plain_literals (mc_calculation m)" "plain pre"
  shows "marks (cp_sql plan) = \<Union> ((\<lambda>s. marks (rs_sql s)) ` set rs)"
proof -
  obtain c s keys comps vals joins where
      c: "collect_components pre [] (concat (map (\<lambda>e. map (\<lambda>a. (fst e, a)) (rs_aliases (snd e))) (indexed rs))) = Inr c"
      and s: "composite_selects (reg_metrics r) (snd c) (fst c) ms = Inr s"
      and keys: "map_r (key_selects pre (length rs)) align = Inr keys"
      and comps: "map_r (\<lambda>e. as_alias (snd e) (fst e)) (snd c) = Inr comps"
      and vals: "map_r (validation_select pre) (validation_sources rs) = Inr vals"
      and joins: "map_r (alignment_join pre align) [1..<length rs] = Inr joins"
      and sql: "cp_sql plan = ''WITH '' @ join_with ('','' @ nl) (map (\<lambda>e. relation_name pre (fst e) @ '' AS ('' @ nl @ indent (rs_sql (snd e)) @ nl @ '')'') (indexed rs)) @ nl @
          ''SELECT'' @ nl @ ''  '' @ join_with ('','' @ nl @ ''  '') (concat keys @ comps @ snd s @ vals) @ nl @
          ''FROM '' @ relation_name pre 0 @ concat joins"
    using assms(1) unfolding render_composite_plan_def and_then_Inr_iff by auto
  note cp = components_plain [OF c assms(4)]
  have "texts (snd s) = {}" using composite_selects_plain [OF s cp] assms(2,3) by (simp add: registry_plain_def)
  moreover have "texts (concat keys @ comps @ vals) = {}"
    using assms(4) cp
    by (intro texts_plain) (auto dest!: map_r_all [OF keys] map_r_all [OF comps] map_r_all [OF vals]
        dest: key_selects_plain validation_select_plain as_alias_plain)
  moreover have "plain (concat joins)" using assms(4) by (auto dest!: map_r_all [OF joins] dest: alignment_join_plain)
  moreover have "texts (map (\<lambda>e. relation_name pre (fst e) @ '' AS ('' @ nl @ indent (rs_sql (snd e)) @ nl @ '')'') (indexed rs)) =
      \<Union> ((\<lambda>s. marks (rs_sql s)) ` snd ` set (indexed rs))"
    using assms(4) by (auto simp: texts_def nl_def marks_plain)
  moreover have "snd ` set (indexed rs) = set rs" by (force simp: indexed_def set_zip in_set_conv_nth image_iff)
  ultimately show ?thesis unfolding sql using assms(4) by (simp add: nl_def marks_plain)
qed


definition statements :: "rendered_single list \<Rightarrow> nat set" where
  "statements rs = \<Union> ((\<lambda>s. marks (rs_sql s)) ` set rs)"

lemma fits_statements:
  assumes "\<And>x. x \<in> set xs \<Longrightarrow> fits may {} (\<lambda>s. marks (rs_sql s)) (\<lambda>s. 1 \<in> marks (rs_sql s)) (f x)"
  shows "fits may {} statements (\<lambda>rs. \<forall>s\<in>set rs. 1 \<in> marks (rs_sql s)) (map_b f xs)"
  unfolding statements_def by (rule fits_map [where used = "\<lambda>s. marks (rs_sql s)" and Q = "\<lambda>s. 1 \<in> marks (rs_sql s)"]) (rule assms)

lemma fits_component:
  "customer_metrics_aggregate r \<Longrightarrow> 1 \<in> may \<Longrightarrow>
   fits may {} (\<lambda>s. marks (rs_sql s)) (\<lambda>s. 1 \<in> marks (rs_sql s)) (render_component pf cx r align q)"
  unfolding render_component_def by (rule fits_bind [OF fits_check], intro fits_lift fits_weaken [OF fits_rendered]) auto

lemma fits_prior_component:
  "customer_metrics_aggregate r \<Longrightarrow> 1 \<in> may \<Longrightarrow>
   fits may {} (\<lambda>s. marks (rs_sql s)) (\<lambda>s. 1 \<in> marks (rs_sql s)) (render_prior_component pf cx r mode e)"
  unfolding render_prior_component_def by (intro fits_lift fits_rendered)

lemma aligned_nonempty: "assert_aligned_times rs = Inr u \<Longrightarrow> \<forall>s\<in>set rs. 1 \<in> marks (rs_sql s) \<Longrightarrow> 1 \<in> statements rs"
  by (cases rs) (auto simp: assert_aligned_times_def statements_def)

lemma composite_statements:
  assumes "resolve_metrics ks t r = Inr ms" "render_composite_plan rs align ms r pre = Inr plan" "registry_plain r" "plain pre"
  shows "marks (cp_sql plan) = statements rs"
  unfolding statements_def
  by (rule composite_plan_marks [OF assms(2,3) _ assms(4)]) (use resolve_metrics_ok [OF assms(1)] assms(3) in \<open>auto simp: registry_plain_def\<close>)

lemma fits_compile_composite:
  assumes agg: "customer_metrics_aggregate r" and reg: "registry_plain r"
  shows "fits_query {1} {1} (compile_composite pf cx r t max_rows q)"
  unfolding compile_composite_def Let_def
proof (rule fits_query_lift, rule fits_query_bind [OF fits_statements], rule fits_component [OF agg], simp, rule fits_query_bind [OF fits_check],
    intro fits_query_lift, rule fits_query_option, goal_cases)
  case (1 u rs v w ms y plan)
  then have "1 \<in> statements rs" "marks (cp_sql plan) = statements rs"
    using aligned_nonempty composite_statements [OF _ _ reg] by simp_all
  then show ?case
    by - (rule fits_query_bind [OF fits_limit], intro fits_query_lift fits_query_bound; auto simp: nl_def dest: sort_marks)
next
  case (2 u rs v w ms y plan mode)
  then have now: "1 \<in> statements rs" "marks (cp_sql plan) = statements rs"
    using aligned_nonempty composite_statements [OF _ _ reg] by simp_all
  show ?case
  proof (rule fits_query_bind [OF fits_statements], rule fits_prior_component [OF agg], simp, intro fits_query_lift,
      rule fits_query_bind [OF fits_limit], intro fits_query_lift fits_query_bound, goal_cases)
    case (2 priors u' prior_plan l sql ordering ps)
    then have "marks (cp_sql prior_plan) = statements priors" "marks sql = marks (cp_sql plan) \<union> marks (cp_sql prior_plan) \<union> marks l"
      using composite_statements [OF \<open>resolve_metrics _ _ _ = _\<close> _ reg] comparison_marks by simp_all
    with now show ?case by auto
  next
    case (3 priors u' prior_plan l sql ordering ps)
    then have "marks (cp_sql prior_plan) = statements priors" "marks sql = marks (cp_sql plan) \<union> marks (cp_sql prior_plan) \<union> marks l"
      using composite_statements [OF \<open>resolve_metrics _ _ _ = _\<close> _ reg] comparison_marks by simp_all
    with now show ?case by auto
  qed simp
qed


lemma compile_query_kind:
  assumes "compile_query pf collate r cx q = Inr (c, e)"
  shows "\<exists>t ps. compile_kind pf cx r t q [Text (cx_tenant cx)] = Inr (c, ps)"
  using assms by (auto simp: compile_query_def and_then_Inr_iff dest!: enforce_cost_budget_ok)



end
