(* ===== verification/Semantic_Walks.thy ===== *)
theory Semantic_Walks
  imports Semantic_Samples
begin

text \<open>
  Metrics defined by other metrics. \<open>validateRegistry\<close> walks each metric once, with an empty stack; the
  compiler walks the same references again, starting from the metric itself, and fails on a cycle or
  an unknown metric. The walks agree: what the registry accepts has no cycle, so no such failure is
  left for the compiler. The guard against summing a snapshot field, in contrast, does not follow
  references at all.
\<close>

section \<open>References\<close>

primrec references :: "calculation \<Rightarrow> string set" where
  "references (Field x) = {}"
| "references (Literal v) = {}"
| "references (Aggregate g x only flt) = {}"
| "references (Metric k) = {k}"
| "references (Binary b x y) = references x \<union> references y"
| "references (Conditional c x y) = references x \<union> references y"

definition refers :: "metric_contract list \<Rightarrow> (string \<times> string) set" where
  "refers ms = {(k, l). \<exists>m. metric_named ms k = Some m \<and> l \<in> references (mc_calculation m)}"

lemma validate_reference:
  "validate_calculation ms f n stack x = Inr () \<Longrightarrow> k \<in> references x \<Longrightarrow>
   k \<notin> set stack \<and> (\<exists>dep. metric_named ms k = Some dep \<and> mc_base_fact dep = fm_id f \<and>
     validate_calculation ms f n (k # stack) (mc_calculation dep) = Inr ())"
  by (induction ms f n stack x rule: validate_calculation.induct)
    (auto simp: and_then_Inr_iff split: option.splits if_splits dest: metric_named_SomeD)

lemma validate_reaches:
  assumes "validate_calculation ms f n stack x = Inr ()" "k \<in> references x" "(k, l) \<in> (refers ms)\<^sup>*"
  shows "l \<notin> set stack \<and> (\<exists>dep stack'. metric_named ms l = Some dep \<and> mc_base_fact dep = fm_id f \<and> set stack \<subseteq> set stack' \<and> l \<in> set stack' \<and>
    validate_calculation ms f n stack' (mc_calculation dep) = Inr ())"
  using assms(3)
proof induction
  case base
  with validate_reference [OF assms(1,2)] show ?case by (metis list.set_intros(1) set_subset_Cons)
next
  case (step y z)
  then obtain dep stack' where y: "metric_named ms y = Some dep" "set stack \<subseteq> set stack'"
      "validate_calculation ms f n stack' (mc_calculation dep) = Inr ()" by blast
  from step(2) y(1) have "z \<in> references (mc_calculation dep)" by (simp add: refers_def)
  from validate_reference [OF y(3) this] y(2) show ?case by (metis list.set_intros(1) set_subset_Cons subset_iff)
qed

text \<open>A cycle would be met again with its start on the stack.\<close>

lemma validated_no_cycle:
  assumes "validate_calculation ms f n stack (mc_calculation m) = Inr ()" "metric_named ms k = Some m"
  shows "(k, k) \<notin> (refers ms)\<^sup>+"
proof
  assume cycle: "(k, k) \<in> (refers ms)\<^sup>+"
  then obtain l where l: "(k, l) \<in> refers ms" "(l, k) \<in> (refers ms)\<^sup>*" by (meson tranclD)
  then have r: "l \<in> references (mc_calculation m)" using assms(2) by (simp add: refers_def)
  from validate_reaches [OF assms(1) r l(2)] assms(2) obtain stack' where
      "k \<in> set stack'" "validate_calculation ms f n stack' (mc_calculation m) = Inr ()" by auto
  with validate_reaches [OF this(2) r l(2)] show False by blast
qed

section \<open>What the registry accepts the compiler can walk\<close>

lemma dependency_ids_total:
  assumes "\<And>k. k \<in> references x \<Longrightarrow> k \<notin> set stack"
    "\<And>k l. k \<in> references x \<Longrightarrow> (k, l) \<in> (refers ms)\<^sup>* \<Longrightarrow>
       l \<notin> set stack \<and> (l, l) \<notin> (refers ms)\<^sup>+ \<and> (\<exists>dep. metric_named ms l = Some dep)"
  shows "\<exists>ks. dependency_ids ms stack x = Inr ks \<and> (\<forall>l\<in>set ks. \<exists>k\<in>references x. (k, l) \<in> (refers ms)\<^sup>*)"
  using assms
proof (induction ms stack x rule: dependency_ids.induct)
  case (1 ms stack k)
  obtain dep where dep: "metric_named ms k = Some dep" "mc_id dep = k" using 1(3) [of k k] metric_named_SomeD by fastforce
  have step: "(k, l) \<in> refers ms" if "l \<in> references (mc_calculation dep)" for l using that dep by (simp add: refers_def)
  have "\<exists>ks. dependency_ids ms (mc_id dep # stack) (mc_calculation dep) = Inr ks \<and>
      (\<forall>l\<in>set ks. \<exists>i\<in>references (mc_calculation dep). (i, l) \<in> (refers ms)\<^sup>*)"
  proof (rule 1(1))
    show "k \<notin> set stack" using 1(2) by simp
    show "metric_named ms k = Some dep" by (rule dep(1))
  next
    fix i assume "i \<in> references (mc_calculation dep)"
    with step have "(k, i) \<in> refers ms" .
    then have "(k, i) \<in> (refers ms)\<^sup>*" "(k, i) \<in> (refers ms)\<^sup>+" by auto
    with 1(3) [of k i] 1(3) [of k k] show "i \<notin> set (mc_id dep # stack)" by (auto simp: dep(2))
  next
    fix i l assume i: "i \<in> references (mc_calculation dep)" "(i, l) \<in> (refers ms)\<^sup>*"
    then have "(k, l) \<in> (refers ms)\<^sup>*" "(k, l) \<in> (refers ms)\<^sup>+" using step by (auto intro: rtrancl_into_trancl2 converse_rtrancl_into_rtrancl)
    with 1(3) [of k l] 1(3) [of k k]
    show "l \<notin> set (mc_id dep # stack) \<and> (l, l) \<notin> (refers ms)\<^sup>+ \<and> (\<exists>d. metric_named ms l = Some d)" by (auto simp: dep(2))
  qed
  then obtain ks where ks: "dependency_ids ms (mc_id dep # stack) (mc_calculation dep) = Inr ks"
      "\<forall>l\<in>set ks. \<exists>i\<in>references (mc_calculation dep). (i, l) \<in> (refers ms)\<^sup>*" by blast
  have "\<forall>l\<in>set ks. (k, l) \<in> (refers ms)\<^sup>*" using ks(2) step by (meson converse_rtrancl_into_rtrancl)
  with ks(1) dep 1(2) show ?case by simp
next
  case (2 ms stack b x y)
  have "\<exists>ks. dependency_ids ms stack x = Inr ks \<and> (\<forall>l\<in>set ks. \<exists>k\<in>references x. (k, l) \<in> (refers ms)\<^sup>*)"
    by (rule 2(1)) (use 2(3,4) in force)+
  moreover have "\<exists>ks. dependency_ids ms stack y = Inr ks \<and> (\<forall>l\<in>set ks. \<exists>k\<in>references y. (k, l) \<in> (refers ms)\<^sup>*)"
    by (rule 2(2)) (use 2(3,4) in force)+
  ultimately show ?case by fastforce
next
  case (3 ms stack c x y)
  have "\<exists>ks. dependency_ids ms stack x = Inr ks \<and> (\<forall>l\<in>set ks. \<exists>k\<in>references x. (k, l) \<in> (refers ms)\<^sup>*)"
    by (rule 3(1)) (use 3(3,4) in force)+
  moreover have "\<exists>ks. dependency_ids ms stack y = Inr ks \<and> (\<forall>l\<in>set ks. \<exists>k\<in>references y. (k, l) \<in> (refers ms)\<^sup>*)"
    by (rule 3(2)) (use 3(3,4) in force)+
  ultimately show ?case by fastforce
qed simp_all

lemma assert_unique_ok: "assert_unique seen xs = Inr u \<Longrightarrow> distinct xs \<and> set xs \<inter> set seen = {}"
  by (induction seen xs rule: assert_unique.induct) (auto split: if_splits)

lemma named_in:
  assumes "distinct (map mc_id ms)" "m \<in> set ms"
  shows "metric_named ms (mc_id m) = Some m"
proof -
  obtain n where n: "metric_named ms (mc_id m) = Some n" using assms(2) by (cases "metric_named ms (mc_id m)") (auto simp: metric_named_def find_None_iff)
  with metric_named_SomeD [OF n] assms show ?thesis by (metis distinct_map inj_onD)
qed

text \<open>C7: the compiler's walk over the dependencies of a metric succeeds for every metric
  of a registry that \<open>buildRegistry\<close> accepts. It finds only metrics of the registry on the same base fact,
  and never the metric itself.\<close>

theorem validated_dependencies:
  assumes "build_registry d = Inr r" "m \<in> set (reg_metrics r)"
  shows "\<exists>ks. metric_dependencies m r = Inr ks \<and>
    (\<forall>k\<in>set ks. k \<noteq> mc_id m \<and> (\<exists>dep. metric_named (reg_metrics r) k = Some dep \<and> mc_base_fact dep = mc_base_fact m))"
proof -
  let ?ms = "reg_metrics r"
  have r: "?ms = rd_metrics d" "distinct (map mc_id ?ms)" and metrics: "\<forall>m\<in>set ?ms. validate_metric d m = Inr ()"
    using assms(1) by (auto simp: build_registry_def validate_registry_def and_then_Inr_iff each_ok dest: assert_unique_ok)
  have valid: "\<exists>f. mc_base_fact n = fm_id f \<and> validate_calculation ?ms f (mc_id n) [] (mc_calculation n) = Inr ()" if n: "n \<in> set ?ms" for n
  proof -
    obtain f where f: "fact_named (rd_facts d) (mc_base_fact n) = Some f" "validate_calculation ?ms f (mc_id n) [] (mc_calculation n) = Inr ()"
      using bspec [OF metrics n] unfolding validate_metric_def r(1) by (cases "fact_named (rd_facts d) (mc_base_fact n)") (auto simp: and_then_Inr_iff)
    moreover from f(1) have "mc_base_fact n = fm_id f" by (auto simp: fact_named_def find_Some_iff)
    ultimately show ?thesis by blast
  qed
  obtain f where f: "mc_base_fact m = fm_id f" "validate_calculation ?ms f (mc_id m) [] (mc_calculation m) = Inr ()" using valid [OF assms(2)] by blast
  have m: "metric_named ?ms (mc_id m) = Some m" by (rule named_in [OF r(2) assms(2)])
  have acyclic: "(l, l) \<notin> (refers ?ms)\<^sup>+" if "metric_named ?ms l = Some dep" for l dep
    using valid [of dep] validated_no_cycle that metric_named_SomeD [OF that] by blast
  have reach: "l \<noteq> mc_id m \<and> (\<exists>dep. metric_named ?ms l = Some dep \<and> mc_base_fact dep = fm_id f)"
    if "k \<in> references (mc_calculation m)" "(k, l) \<in> (refers ?ms)\<^sup>*" for k l
  proof -
    have "(mc_id m, k) \<in> refers ?ms" using m that(1) by (simp add: refers_def)
    then have "(mc_id m, l) \<in> (refers ?ms)\<^sup>+" using that(2) by (rule rtrancl_into_trancl2)
    with acyclic [OF m] validate_reaches [OF f(2) that] show ?thesis by blast
  qed
  have "\<exists>ks. dependency_ids ?ms [mc_id m] (mc_calculation m) = Inr ks \<and>
      (\<forall>l\<in>set ks. \<exists>k\<in>references (mc_calculation m). (k, l) \<in> (refers ?ms)\<^sup>*)"
    by (rule dependency_ids_total) (use reach acyclic in force)+
  then show ?thesis using reach f(1) by (fastforce simp: metric_dependencies_def)
qed

definition sample_document :: registry_document where
  "sample_document = \<lparr>rd_metrics = reg_metrics sample_registry, rd_topics = reg_topics sample_registry, rd_facts = reg_facts sample_registry\<rparr>"

lemma validated_dependencies_witness:
  "build_registry sample_document = Inr sample_registry \<and>
   (\<exists>ks. metric_dependencies (metric_named_as ''sales.average'' (Binary Divide (Metric ''sales.net'') (Aggregate Count None False None))) sample_registry = Inr ks)"
proof -
  have "build_registry sample_document = Inr sample_registry" by code_simp
  moreover have "metric_named_as ''sales.average'' (Binary Divide (Metric ''sales.net'') (Aggregate Count None False None)) \<in> set (reg_metrics sample_registry)"
    by (simp add: sample_registry_def)
  ultimately show ?thesis using validated_dependencies by blast
qed

section \<open>Sums of snapshot fields\<close>

lemma column_safe: "safe_identifier x \<Longrightarrow> column a x = Inr (col a x)"
  by (simp add: column_def col_def quote_identifier_def)

text \<open>C8: \<open>assertNoSnapshotSums\<close> refuses a metric that sums a snapshot field, but lets pass
  any other metric that merely refers to it, and the text compiled for that one is the very sum: levels
  such as stock on hand are added up across dates.\<close>

theorem snapshot_sum_behind_reference:
  assumes "metric_named (re_metrics env) k = Some dep" "mc_calculation dep = Aggregate Sum (Some x) False None"
    "x \<in> set (fm_snapshot_fields (re_fact env))" "mc_base_fact dep = fm_id (re_fact env)" "mc_filters dep = []"
    "safe_identifier x" "safe_identifier (mc_default_time dep)" "re_joins env = []" "re_trusted env = []"
    "mc_calculation m = Metric k" "mc_id m \<noteq> k"
  shows "assert_no_snapshot_sums [dep] (re_fact env) = Inl SNAPSHOT_SUM_FORBIDDEN \<and>
    assert_no_snapshot_sums [m] (re_fact env) = Inr () \<and>
    render_calculation env [mc_id m] (mc_filters m) time (mc_calculation m) ps = Inr (''SUM('' @ col ''f'' x @ '')'', ps)"
proof -
  have "x \<noteq> []" using assms(6) by (auto simp: safe_identifier_def)
  with assms metric_named_SomeD [OF assms(1)] show ?thesis
    by (auto simp: assert_no_snapshot_sums_def require_def render_aggregate_def column_safe bind_b_def lift_b_def pure_b_def
        field_given_def resolved_fact_field_def filter_clause_def)
qed

definition stock_env :: render_env where
  "stock_env = \<lparr>re_fact = sample_fact\<lparr>fm_snapshot_fields := [''net'']\<rparr>, re_metrics = reg_metrics sample_registry, re_joins = [], re_trusted = []\<rparr>"

lemma snapshot_sum_behind_reference_witness:
  "assert_no_snapshot_sums [metric_named_as ''sales.net'' (Aggregate Sum (Some ''net'') False None)] (re_fact stock_env) = Inl SNAPSHOT_SUM_FORBIDDEN \<and>
   assert_no_snapshot_sums [metric_named_as ''stock'' (Metric ''sales.net'')] (re_fact stock_env) = Inr () \<and>
   render_calculation stock_env [''stock''] [] ''day'' (Metric ''sales.net'') [] = Inr (''SUM('' @ col ''f'' ''net'' @ '')'', [])"
  using snapshot_sum_behind_reference [of stock_env "''sales.net''" "metric_named_as ''sales.net'' (Aggregate Sum (Some ''net'') False None)" "''net''"
      "metric_named_as ''stock'' (Metric ''sales.net'')" "''day''" "[]"]
  by (simp add: stock_env_def sample_registry_def metric_named_def metric_named_as_def sample_fact_def safe_identifier_def is_identifier_start_def
      is_digit_def code_def)

end
