(* ===== verification/Raw_Purge.thy ===== *)
theory Raw_Purge
  imports Raw_Storage
begin

text \<open>
  Removing the raw objects of a tenant or of one connection: the list-and-delete adapter
  \<open>S3RawDeletionObjectStore\<close> of \<open>packages/storage/src/s3-deletion.ts\<close>, and the purge loop and the leased
  sessions of \<open>services/deletion-worker/src/raw-storage.ts\<close>. The specification of a purge is one
  step: the keys below the prefix are gone and all others stay. The loop refines it, whatever pages
  S3 answers with, and ends.
\<close>

section \<open>Scopes\<close>

datatype deletion_operation = Purge | Verify

record session_scope =
  ss_tenant :: string
  ss_connection :: "string option"
  ss_operation :: deletion_operation

definition prefix_of_scope :: "string \<Rightarrow> string option \<Rightarrow> string" where
  "prefix_of_scope t c =
     ''tenant/'' @ t @ (case c of None \<Rightarrow> ''/'' | Some x \<Rightarrow> ''/connection/'' @ x @ ''/'')"

definition scope_valid :: "string \<Rightarrow> string option \<Rightarrow> bool" where
  "scope_valid t c \<longleftrightarrow> is_ulid t \<and> (case c of None \<Rightarrow> True | Some x \<Rightarrow> is_ulid x)"

definition scope_prefix :: "string \<Rightarrow> string option \<Rightarrow> (thrown, string) result" where
  "scope_prefix t c = (if scope_valid t c then Inr (prefix_of_scope t c) else Inl (plain_error ''raw_deletion_scope_invalid''))"

definition below :: "string \<Rightarrow> string \<Rightarrow> bool" where
  "below p k \<longleftrightarrow> take (length p) k = p"

section \<open>The list and delete adapter\<close>

record deletion_store =
  ds_scope :: "session_scope option"
  ds_prefix :: "string option"

text \<open>\<open>governed\<close>: the bucket and the machine purpose of the configuration are the expected ones.\<close>

definition new_deletion_store :: "bool \<Rightarrow> session_scope option \<Rightarrow> bool \<Rightarrow> (thrown, deletion_store) result" where
  "new_deletion_store governed scope authorizer =
     (if \<not> governed then Inl (plain_error ''Raw deletion requires the deletion machine principal.'')
      else if (case scope of None \<Rightarrow> False | Some s \<Rightarrow> \<not> scope_valid (ss_tenant s) (ss_connection s))
      then Inl (plain_error ''Raw deletion session scope is invalid.'')
      else if (scope \<noteq> None) \<noteq> authorizer
      then Inl (plain_error ''Raw deletion scope and session authorizer must be provided together.'')
      else Inr \<lparr>ds_scope = scope, ds_prefix = map_option (\<lambda>s. prefix_of_scope (ss_tenant s) (ss_connection s)) scope\<rparr>)"

definition assert_raw_prefix :: "string \<Rightarrow> (thrown, unit) result" where
  "assert_raw_prefix p =
     (if (case split_on (CHR ''/'') p of
            [a, t, e] \<Rightarrow> a = ''tenant'' \<and> is_ulid t \<and> e = []
          | [a, t, b, c, e] \<Rightarrow> a = ''tenant'' \<and> is_ulid t \<and> b = ''connection'' \<and> is_ulid c \<and> e = []
          | _ \<Rightarrow> False)
      then Inr () else Inl (plain_error ''Raw storage prefix is outside the governed tenant scope.''))"

definition assert_authorized_key :: "deletion_store \<Rightarrow> string \<Rightarrow> (thrown, unit) result" where
  "assert_authorized_key st k =
     (if (case ds_prefix st of None \<Rightarrow> False | Some p \<Rightarrow> below p k) then Inr ()
      else Inl (plain_error ''Raw storage object key is outside the authorized deletion scope.''))"

fun check_keys :: "deletion_store \<Rightarrow> string list \<Rightarrow> (thrown, unit) result" where
  "check_keys st [] = Inr ()"
| "check_keys st (k # ks) = and_then (assert_raw_key k) (\<lambda>_. and_then (assert_authorized_key st k) (\<lambda>_. check_keys st ks))"

text \<open>\<open>send_list\<close> and \<open>send_delete\<close> are \<open>client.send\<close> of the two commands: the keys in \<open>Contents\<close>, and the
  codes in \<open>Errors\<close>. An entry without a string is \<open>None\<close>.\<close>

type_synonym 's list_call = "string \<Rightarrow> ('s, string option list option) io"
type_synonym 's delete_call = "string list \<Rightarrow> ('s, string option list option) io"

definition keys_of :: "string option list option \<Rightarrow> string list" where
  "keys_of contents = concat (map (\<lambda>k. case k of None \<Rightarrow> [] | Some s \<Rightarrow> [s]) (case contents of None \<Rightarrow> [] | Some ks \<Rightarrow> ks))"

definition list_prefix :: "'s list_call \<Rightarrow> deletion_store \<Rightarrow> string \<Rightarrow> ('s, string list) io" where
  "list_prefix send_list st p =
     io_bind (io_lift (assert_raw_prefix p)) (\<lambda>_.
     if ds_prefix st \<noteq> Some p then io_throw (plain_error ''Raw deletion listing requires an exact active session scope.'')
     else io_bind (send_list p) (\<lambda>contents.
       io_bind (io_lift (check_keys st (keys_of contents))) (\<lambda>_. io_return (keys_of contents))))"

definition delete_error :: "string option list \<Rightarrow> thrown" where
  "delete_error es =
     plain_error (''Raw object deletion failed ('' @
       (case hd es of None \<Rightarrow> ''delete_error'' | Some c \<Rightarrow> if c = [] then ''delete_error'' else safe_text c) @ '').'')"

definition delete_keys :: "'s delete_call \<Rightarrow> deletion_store \<Rightarrow> string list \<Rightarrow> ('s, unit) io" where
  "delete_keys send_delete st ks =
     (if length ks < 1 \<or> 1000 < int (length ks) then io_throw (plain_error ''Raw object deletion batch must contain 1 to 1000 keys.'')
      else if map_option ss_operation (ds_scope st) \<noteq> Some Purge
      then io_throw (plain_error ''Raw deletion requires a purge-scoped active session.'')
      else io_bind (io_lift (check_keys st ks)) (\<lambda>_.
        io_bind (send_delete ks) (\<lambda>errors.
          case errors of None \<Rightarrow> io_return () | Some es \<Rightarrow> if es = [] then io_return () else io_throw (delete_error es))))"

section \<open>The purger\<close>

partial_function (option) purge_loop ::
    "(string \<Rightarrow> 's \<Rightarrow> (thrown, string list) result \<times> 's) \<Rightarrow> (string list \<Rightarrow> 's \<Rightarrow> (thrown, unit) result \<times> 's) \<Rightarrow> string \<Rightarrow> nat \<Rightarrow> 's \<Rightarrow>
     ((thrown, nat) result \<times> 's) option" where
  "purge_loop list_keys remove p n s =
     (case list_keys p s of
        (Inl e, s') \<Rightarrow> Some (Inl e, s')
      | (Inr ks, s') \<Rightarrow>
          if ks = [] then Some (Inr n, s')
          else (case remove ks s' of
            (Inl e, s'') \<Rightarrow> Some (Inl e, s'')
          | (Inr _, s'') \<Rightarrow> purge_loop list_keys remove p (n + length ks) s''))"

declare purge_loop.simps [code]

record raw_verification =
  rv_verified :: bool
  rv_remaining :: nat

record raw_purge_result =
  rp_prefix :: string
  rp_removed :: nat

definition raw_verify :: "(string \<Rightarrow> ('s, string list) io) \<Rightarrow> string \<Rightarrow> string option \<Rightarrow> ('s, raw_verification) io" where
  "raw_verify list_keys t c =
     io_bind (io_lift (scope_prefix t c)) (\<lambda>p.
     io_bind (list_keys p) (\<lambda>ks. io_return \<lparr>rv_verified = (ks = []), rv_remaining = length ks\<rparr>))"

definition verified_purge :: "(string \<Rightarrow> ('s, string list) io) \<Rightarrow> string \<Rightarrow> string option \<Rightarrow> string \<Rightarrow> nat \<Rightarrow> ('s, raw_purge_result) io" where
  "verified_purge list_keys t c p n =
     io_bind (raw_verify list_keys t c) (\<lambda>v.
       if \<not> rv_verified v then io_throw (plain_error (''raw_storage_verification_failed:'' @ string_of_nat (rv_remaining v)))
       else io_return \<lparr>rp_prefix = p, rp_removed = n\<rparr>)"

definition raw_purge ::
    "(string \<Rightarrow> ('s, string list) io) \<Rightarrow> (string list \<Rightarrow> ('s, unit) io) \<Rightarrow> string \<Rightarrow> string option \<Rightarrow> 's \<Rightarrow>
     ((thrown, raw_purge_result) result \<times> 's) option" where
  "raw_purge list_keys remove t c s =
     (case scope_prefix t c of
        Inl e \<Rightarrow> Some (Inl e, s)
      | Inr p \<Rightarrow>
          (case purge_loop list_keys remove p 0 s of
             None \<Rightarrow> None
           | Some (Inl e, s') \<Rightarrow> Some (Inl e, s')
           | Some (Inr n, s') \<Rightarrow> Some (verified_purge list_keys t c p n s')))"

section \<open>What a purge means\<close>

text \<open>The specification: what is below the prefix goes, the rest stays.\<close>

definition without_prefix :: "string \<Rightarrow> string set \<Rightarrow> string set" where
  "without_prefix p K = {k \<in> K. \<not> below p k}"

text \<open>\<open>RawDeletionObjectStore\<close>, while nothing else writes below the prefix: a listing shows some of the keys
  below the prefix, and none only when there are none; a deletion that returns removed exactly its
  keys, and one that throws may have removed some of them.\<close>

locale deletable_store =
  fixes objects :: "'s \<Rightarrow> string set" and p :: string
    and list_keys :: "string \<Rightarrow> ('s, string list) io" and remove :: "string list \<Rightarrow> ('s, unit) io"
  assumes list_keeps: "list_keys p s = (r, s') \<Longrightarrow> objects s' = objects s"
    and list_shows: "list_keys p s = (Inr ks, s') \<Longrightarrow>
      distinct ks \<and> set ks \<subseteq> {k \<in> objects s. below p k} \<and> (ks = [] \<longrightarrow> {k \<in> objects s. below p k} = {})"
    and remove_within: "remove ks s = (q, s') \<Longrightarrow> objects s - set ks \<subseteq> objects s' \<and> objects s' \<subseteq> objects s"
    and remove_done: "remove ks s = (Inr u, s') \<Longrightarrow> objects s' = objects s - set ks"
begin

abbreviation under :: "'s \<Rightarrow> string set" where
  "under s \<equiv> {k \<in> objects s. below p k}"

text \<open>Whatever happens the loop ends, and has removed only keys below the prefix; when it returns, all of them.\<close>

lemma purge_loop_ends:
  assumes "finite (under s)"
  shows "\<exists>r s'. purge_loop list_keys remove p n s = Some (r, s') \<and> without_prefix p (objects s) \<subseteq> objects s' \<and> objects s' \<subseteq> objects s \<and>
    (\<forall>m. r = Inr m \<longrightarrow> objects s' = without_prefix p (objects s) \<and> m = n + card (under s))"
  using assms
proof (induction "card (under s)" arbitrary: n s rule: less_induct)
  case less
  obtain q s1 where q: "list_keys p s = (q, s1)" by (metis prod.collapse)
  note o1 = list_keeps [OF q]
  show ?case
  proof (cases q)
    case (Inl e)
    with q o1 show ?thesis by (subst purge_loop.simps) (auto simp: without_prefix_def)
  next
    case (Inr ks)
    note shown = list_shows [OF q [unfolded Inr]]
    show ?thesis
    proof (cases "ks = []")
      case True
      with shown have empty: "under s = {}" by simp
      then have "without_prefix p (objects s) = objects s" by (auto simp: without_prefix_def)
      moreover have "card (under s) = 0" unfolding empty by (rule card.empty)
      ultimately show ?thesis using q Inr True o1 by (subst purge_loop.simps) (simp del: card_0_eq)
    next
      case False
      obtain u s2 where u: "remove ks s1 = (u, s2)" by (metis prod.collapse)
      note within = remove_within [OF u, unfolded o1]
      show ?thesis
      proof (cases u)
        case (Inl e)
        with q u False \<open>q = Inr ks\<close> within shown show ?thesis by (subst purge_loop.simps) (auto simp: without_prefix_def)
      next
        case (Inr y)
        have o2: "objects s2 = objects s - set ks" using remove_done [OF u [unfolded Inr]] o1 by simp
        then have under2: "under s2 = under s - set ks" by auto
        have "card (set ks) = length ks" using shown by (simp add: distinct_card)
        moreover have "length ks \<le> card (under s)" using card_mono [OF less.prems, of "set ks"] shown \<open>card (set ks) = length ks\<close> by simp
        ultimately have less2: "card (under s2) + length ks = card (under s)"
          unfolding under2 using shown by (simp add: card_Diff_subset)
        then have lt: "card (under s2) < card (under s)" using False by (cases ks) simp_all
        have fin: "finite (under s2)" using less.prems under2 by simp
        obtain r s' where run: "purge_loop list_keys remove p (n + length ks) s2 = Some (r, s')"
            and kept: "without_prefix p (objects s2) \<subseteq> objects s'" "objects s' \<subseteq> objects s2"
            and outcome: "\<forall>m. r = Inr m \<longrightarrow> objects s' = without_prefix p (objects s2) \<and> m = n + length ks + card (under s2)"
          using less.hyps [OF lt fin, of "n + length ks"] by blast
        have rest: "without_prefix p (objects s2) = without_prefix p (objects s)" using o2 shown by (auto simp: without_prefix_def)
        have "purge_loop list_keys remove p n s = Some (r, s')"
          using q u False \<open>q = Inr ks\<close> Inr run by (subst purge_loop.simps) simp
        with kept outcome rest o2 less2 show ?thesis by auto
      qed
    qed
  qed
qed

lemma verify_keeps: "scope_prefix t c = Inr p \<Longrightarrow> raw_verify list_keys t c s = (r, s') \<Longrightarrow>
    objects s' = objects s \<and> (\<forall>v. r = Inr v \<longrightarrow> (rv_verified v \<longleftrightarrow> under s = {}))"
proof -
  assume p: "scope_prefix t c = Inr p" and v: "raw_verify list_keys t c s = (r, s')"
  obtain q s1 where q: "list_keys p s = (q, s1)" by (metis prod.collapse)
  note facts = list_keeps [OF q] list_shows [of s _ s1]
  show ?thesis
  proof (cases q)
    case (Inl e)
    with p v q facts(1) show ?thesis by (auto simp: raw_verify_def io_bind_def io_lift_def)
  next
    case (Inr ks)
    with q facts(2) have "ks = [] \<longleftrightarrow> under s = {}" by (metis (no_types, lifting) set_empty subset_empty)
    with p v q facts(1) Inr show ?thesis by (auto simp: raw_verify_def io_bind_def io_lift_def io_return_def)
  qed
qed

lemma raw_purge_refines:
  assumes "scope_prefix t c = Inr p" "finite (under s)"
  shows "\<exists>r s'. raw_purge list_keys remove t c s = Some (r, s') \<and> without_prefix p (objects s) \<subseteq> objects s' \<and> objects s' \<subseteq> objects s \<and>
    (\<forall>x. r = Inr x \<longrightarrow> objects s' = without_prefix p (objects s) \<and> x = \<lparr>rp_prefix = p, rp_removed = card (under s)\<rparr>)"
proof -
  obtain r s1 where run: "purge_loop list_keys remove p 0 s = Some (r, s1)" "without_prefix p (objects s) \<subseteq> objects s1" "objects s1 \<subseteq> objects s"
      and loop: "\<forall>m. r = Inr m \<longrightarrow> objects s1 = without_prefix p (objects s) \<and> m = card (under s)"
    using purge_loop_ends [OF assms(2), of 0] by auto
  show ?thesis
  proof (cases r)
    case (Inl e)
    with run assms(1) show ?thesis by (simp add: raw_purge_def)
  next
    case (Inr n)
    obtain v s2 where v: "raw_verify list_keys t c s1 = (v, s2)" by (metis prod.collapse)
    note keeps = verify_keeps [OF assms(1) v]
    with run loop Inr assms(1) v show ?thesis
      by (cases v) (auto simp: raw_purge_def verified_purge_def io_bind_def io_throw_def io_return_def)
  qed
qed

end

section \<open>The adapter provides the store\<close>

text \<open>S3, while nothing else writes below the prefix: listings are strongly consistent, and a multi-object
  deletion without errors removed its keys.\<close>

locale deletion_s3 =
  fixes objects :: "'s \<Rightarrow> string set" and send_list :: "'s list_call" and send_delete :: "'s delete_call"
  assumes send_list_keeps: "send_list p s = (r, s') \<Longrightarrow> objects s' = objects s"
    and send_list_shows: "send_list p s = (Inr c, s') \<Longrightarrow>
      distinct (keys_of c) \<and> set (keys_of c) \<subseteq> {k \<in> objects s. below p k} \<and> (keys_of c = [] \<longrightarrow> {k \<in> objects s. below p k} = {})"
    and send_delete_within: "send_delete ks s = (q, s') \<Longrightarrow> objects s - set ks \<subseteq> objects s' \<and> objects s' \<subseteq> objects s"
    and send_delete_done: "send_delete ks s = (Inr e, s') \<Longrightarrow> e = None \<or> e = Some [] \<Longrightarrow> objects s' = objects s - set ks"
begin

lemma adapter_lists:
  assumes "list_prefix send_list st p s = (r, s')"
  shows "objects s' = objects s" "r = Inr ks \<Longrightarrow>
      distinct ks \<and> set ks \<subseteq> {k \<in> objects s. below p k} \<and> (ks = [] \<longrightarrow> {k \<in> objects s. below p k} = {})"
proof -
  obtain q s1 where q: "send_list p s = (q, s1)" by (metis prod.collapse)
  note facts = send_list_keeps [OF q] send_list_shows [of p s _ s1]
  show "objects s' = objects s"
    using assms q facts(1)
    by (auto simp: list_prefix_def io_bind_def io_lift_def io_throw_def io_return_def split: if_splits sum.splits prod.splits)
  show "distinct ks \<and> set ks \<subseteq> {k \<in> objects s. below p k} \<and> (ks = [] \<longrightarrow> {k \<in> objects s. below p k} = {})" if "r = Inr ks"
    using assms that q facts(2)
    by (auto simp: list_prefix_def io_bind_def io_lift_def io_throw_def io_return_def split: if_splits sum.splits prod.splits)
qed

lemma adapter_deletes:
  assumes "delete_keys send_delete st ks s = (q, s')"
  shows "objects s - set ks \<subseteq> objects s' \<and> objects s' \<subseteq> objects s" "q = Inr u \<Longrightarrow> objects s' = objects s - set ks"
proof -
  obtain e s1 where e: "send_delete ks s = (e, s1)" by (metis prod.collapse)
  note facts = send_delete_within [OF e] send_delete_done [of ks s _ s1]
  show "objects s - set ks \<subseteq> objects s' \<and> objects s' \<subseteq> objects s"
    using assms e facts(1)
    by (auto simp: delete_keys_def io_bind_def io_lift_def io_throw_def io_return_def split: if_splits sum.splits prod.splits option.splits)
  show "objects s' = objects s - set ks" if "q = Inr u"
    using assms that e facts(2)
    by (auto simp: delete_keys_def io_bind_def io_lift_def io_throw_def io_return_def split: if_splits sum.splits prod.splits option.splits)
qed

lemma provides_deletable: "deletable_store objects p (list_prefix send_list st) (delete_keys send_delete st)"
proof unfold_locales
  fix s r s' ks q u
  show "list_prefix send_list st p s = (r, s') \<Longrightarrow> objects s' = objects s" by (rule adapter_lists(1))
  show "list_prefix send_list st p s = (Inr ks, s') \<Longrightarrow>
      distinct ks \<and> set ks \<subseteq> {k \<in> objects s. below p k} \<and> (ks = [] \<longrightarrow> {k \<in> objects s. below p k} = {})"
    by (rule adapter_lists(2) [OF _ refl])
  show "delete_keys send_delete st ks s = (q, s') \<Longrightarrow> objects s - set ks \<subseteq> objects s' \<and> objects s' \<subseteq> objects s" by (rule adapter_deletes(1))
  show "delete_keys send_delete st ks s = (Inr u, s') \<Longrightarrow> objects s' = objects s - set ks" by (rule adapter_deletes(2) [OF _ refl])
qed

end

sublocale deletion_s3 \<subseteq> deletable: deletable_store objects p "list_prefix send_list st" "delete_keys send_delete st" for p st
  by (rule provides_deletable)


section \<open>A bucket in memory\<close>

text \<open>Pages of two keys; S3 uses a thousand.\<close>

definition bucket_list :: "string list list_call" where
  "bucket_list p s = (Inr (Some (map Some (take 2 (remdups (filter (below p) s))))), s)"

definition bucket_delete :: "string list delete_call" where
  "bucket_delete ks s = (Inr None, filter (\<lambda>k. k \<notin> set ks) s)"

lemma keys_of_some [simp]: "keys_of (Some (map Some ks)) = ks"
  by (simp add: keys_of_def comp_def)

interpretation bucket: deletion_s3 set bucket_list bucket_delete
proof unfold_locales
  fix p s r s' c ks q e
  show "bucket_list p s = (r, s') \<Longrightarrow> set s' = set s" by (simp add: bucket_list_def)
  show "distinct (keys_of c) \<and> set (keys_of c) \<subseteq> {k \<in> set s. below p k} \<and> (keys_of c = [] \<longrightarrow> {k \<in> set s. below p k} = {})"
    if "bucket_list p s = (Inr c, s')"
  proof -
    have c: "keys_of c = take 2 (remdups (filter (below p) s))" using that by (auto simp: bucket_list_def)
    have "set (take 2 (remdups (filter (below p) s))) \<subseteq> set (filter (below p) s)" by (metis set_remdups set_take_subset)
    moreover have "take 2 (remdups (filter (below p) s)) = [] \<Longrightarrow> filter (below p) s = []" by simp
    ultimately show ?thesis unfolding c by (auto simp: filter_empty_conv)
  qed
  show "bucket_delete ks s = (q, s') \<Longrightarrow> set s - set ks \<subseteq> set s' \<and> set s' \<subseteq> set s" by (auto simp: bucket_delete_def)
  show "bucket_delete ks s = (Inr e, s') \<Longrightarrow> e = None \<or> e = Some [] \<Longrightarrow> set s' = set s - set ks" by (auto simp: bucket_delete_def)
qed

section \<open>Purging a scope\<close>

text \<open>C13: over any S3 with consistent listings and deletions, the purge of a tenant
  or a connection ends, whatever calls fail. It never removes a key outside the prefix of the scope;
  when it returns, it has done exactly the specified step, all keys below the prefix removed and no
  other, and the number it reports is the number of those keys.\<close>

theorem raw_purge_removes_scope:
  assumes "deletion_s3 objects send_list send_delete" "scope_valid t c" "finite {k \<in> objects s. below (prefix_of_scope t c) k}"
  shows "\<exists>r s'. raw_purge (list_prefix send_list st) (delete_keys send_delete st) t c s = Some (r, s') \<and>
    without_prefix (prefix_of_scope t c) (objects s) \<subseteq> objects s' \<and> objects s' \<subseteq> objects s \<and>
    (\<forall>x. r = Inr x \<longrightarrow> objects s' = without_prefix (prefix_of_scope t c) (objects s) \<and>
       x = \<lparr>rp_prefix = prefix_of_scope t c, rp_removed = card {k \<in> objects s. below (prefix_of_scope t c) k}\<rparr>)"
proof -
  have "scope_prefix t c = Inr (prefix_of_scope t c)" using assms(2) by (simp add: scope_prefix_def)
  from deletable_store.raw_purge_refines [OF deletion_s3.provides_deletable [OF assms(1)] this assms(3)] show ?thesis .
qed

definition sample_ulid :: "char \<Rightarrow> string" where
  "sample_ulid c = replicate 26 c"

definition sample_bucket :: "string list" where
  "sample_bucket = map (\<lambda>k. ''tenant/'' @ k)
     [sample_ulid (CHR ''0'') @ ''/a'', sample_ulid (CHR ''1'') @ ''/b'', sample_ulid (CHR ''0'') @ ''/c'', sample_ulid (CHR ''0'') @ ''/d'']"

definition sample_deletion_store :: deletion_store where
  "sample_deletion_store =
     \<lparr>ds_scope = Some \<lparr>ss_tenant = sample_ulid (CHR ''0''), ss_connection = None, ss_operation = Purge\<rparr>,
      ds_prefix = Some (prefix_of_scope (sample_ulid (CHR ''0'')) None)\<rparr>"

lemma sample_purge_runs:
  "raw_purge (list_prefix bucket_list sample_deletion_store) (delete_keys bucket_delete sample_deletion_store) (sample_ulid (CHR ''0'')) None sample_bucket =
     Some (Inr \<lparr>rp_prefix = prefix_of_scope (sample_ulid (CHR ''0'')) None, rp_removed = 3\<rparr>, [''tenant/'' @ sample_ulid (CHR ''1'') @ ''/b''])"
  by code_simp

lemma raw_purge_removes_scope_witness:
  "\<exists>x. raw_purge (list_prefix bucket_list sample_deletion_store) (delete_keys bucket_delete sample_deletion_store) (sample_ulid (CHR ''0'')) None sample_bucket =
     Some (Inr x, [''tenant/'' @ sample_ulid (CHR ''1'') @ ''/b'']) \<and>
     {''tenant/'' @ sample_ulid (CHR ''1'') @ ''/b''} = without_prefix (prefix_of_scope (sample_ulid (CHR ''0'')) None) (set sample_bucket)"
proof -
  have "scope_valid (sample_ulid (CHR ''0'')) None" by code_simp
  from raw_purge_removes_scope [OF bucket.deletion_s3_axioms this, of sample_bucket sample_deletion_store]
  show ?thesis unfolding sample_purge_runs by auto
qed

end
