(* ===== verification/Deletion_Evidence.thy ===== *)
theory Deletion_Evidence
  imports Raw_Purge
begin

text \<open>
  The evidence of a deletion: what \<open>services/deletion-worker/src/processor.ts\<close> accepts from each store
  before it may enter the deletion proof, and what it records of a failure. Evidence is an object as
  \<open>JSON.parse\<close> gives it, a list of entries with distinct keys; its numbers are integers.
\<close>

type_synonym evidence = "(string \<times> json) list"

datatype deletion_scope = Connection_scope | Tenant_scope

record deletion_claim =
  dc_message :: int
  dc_reads :: nat
  dc_deadline :: string
  dc_request :: string
  dc_tenant :: string
  dc_connection :: "string option"
  dc_scope :: deletion_scope

fun scope_text :: "deletion_scope \<Rightarrow> string" where
  "scope_text Connection_scope = ''connection''"
| "scope_text Tenant_scope = ''tenant''"

section \<open>Checks\<close>

definition has_exact_keys :: "evidence \<Rightarrow> string list \<Rightarrow> bool" where
  "has_exact_keys v ks \<longleftrightarrow> length v = length ks \<and> list_all (\<lambda>k. k \<in> fst ` set v) ks"

definition invalid :: "string \<Rightarrow> (thrown, 'a) result" where
  "invalid m = Inl (plain_error m)"

definition demand :: "bool \<Rightarrow> string \<Rightarrow> (thrown, unit) result" where
  "demand b m = (if b then Inr () else invalid m)"

definition evidence_count :: "json option \<Rightarrow> string \<Rightarrow> (thrown, int) result" where
  "evidence_count v store =
     (case v of
        Some (JNum n) \<Rightarrow> if 0 \<le> n \<and> n \<le> 2 ^ 53 - 1 then Inr n else invalid (store @ ''_deletion_attestation_invalid'')
      | _ \<Rightarrow> invalid (store @ ''_deletion_attestation_invalid''))"

definition is_true :: "json option \<Rightarrow> bool" where
  "is_true v \<longleftrightarrow> v = Some (JBool True)"

definition has_text :: "json option \<Rightarrow> string \<Rightarrow> bool" where
  "has_text v s \<longleftrightarrow> v = Some (JStr s)"

section \<open>The analytical store\<close>

definition analytical_residual_keys :: "string list" where
  "analytical_residual_keys =
     [''stagingRows'', ''canonicalRows'', ''bridgeRows'', ''linkRows'', ''embeddingRows'', ''cacheRows'', ''otherAnalyticalRows'']"

definition analytical_attestation_keys :: "string list" where
  "analytical_attestation_keys = [''verified'', ''scope'', ''measurement'', ''remainingRows'', ''residuals'']"

fun counts_of :: "evidence \<Rightarrow> string \<Rightarrow> string list \<Rightarrow> (thrown, (string \<times> int) list) result" where
  "counts_of v store [] = Inr []"
| "counts_of v store (k # ks) =
     and_then (evidence_count (map_of v k) store) (\<lambda>n. and_then (counts_of v store ks) (\<lambda>ns. Inr ((k, n) # ns)))"

definition total_of :: "(string \<times> int) list \<Rightarrow> int" where
  "total_of ns = sum_list (map snd ns)"

definition count_fields :: "(string \<times> int) list \<Rightarrow> evidence" where
  "count_fields ns = map (\<lambda>e. (fst e, JNum (snd e))) ns"

definition normalize_analytical_attestation :: "evidence \<Rightarrow> deletion_claim \<Rightarrow> (thrown, evidence) result" where
  "normalize_analytical_attestation v c =
     (let bad = ''analytical_deletion_attestation_invalid'' in
      and_then (demand (has_exact_keys v analytical_attestation_keys \<and> has_text (map_of v ''measurement'') ''post_purge_row_counts_v1'' \<and>
        has_text (map_of v ''scope'') (scope_text (dc_scope c))) bad) (\<lambda>_.
      case map_of v ''residuals'' of
        Some (JObj rs) \<Rightarrow>
          and_then (demand (has_exact_keys rs analytical_residual_keys) bad) (\<lambda>_.
          and_then (counts_of rs ''analytical'' analytical_residual_keys) (\<lambda>ns.
          and_then (evidence_count (map_of v ''remainingRows'') ''analytical'') (\<lambda>remaining.
          and_then (demand (remaining = total_of ns) bad) (\<lambda>_.
          and_then (demand (is_true (map_of v ''verified'') \<and> remaining = 0) ''analytical_deletion_not_verified'') (\<lambda>_.
            Inr [(''verified'', JBool True), (''scope'', JStr (scope_text (dc_scope c))), (''measurement'', JStr ''post_purge_row_counts_v1''),
                 (''remainingRows'', JNum remaining), (''residuals'', JObj (count_fields ns))])))))
      | _ \<Rightarrow> invalid bad))"

text \<open>A template: \<open>0\<close> stands for a digit, any other character for itself.\<close>

definition shaped :: "string \<Rightarrow> string \<Rightarrow> bool" where
  "shaped t s \<longleftrightarrow> list_all2 (\<lambda>a c. if a = CHR ''0'' then is_digit c else c = a) t s"

definition shaped_text :: "string \<Rightarrow> json option \<Rightarrow> bool" where
  "shaped_text t v = (case v of Some (JStr s) \<Rightarrow> shaped t s | _ \<Rightarrow> False)"

definition mart_bounds :: "int \<Rightarrow> json option \<Rightarrow> json option \<Rightarrow> bool" where
  "mart_bounds chunks a b =
     (if chunks = 0 then a = Some JNull \<and> b = Some JNull else shaped_text ''0000-00-00'' a \<and> shaped_text ''0000-00-00'' b)"

definition normalize_analytical_purge :: "evidence \<Rightarrow> deletion_claim \<Rightarrow> (thrown, evidence) result" where
  "normalize_analytical_purge v c =
     (let bad = ''analytical_deletion_progress_invalid''; num = (\<lambda>k. evidence_count (map_of v k) ''analytical'') in
      case dc_scope c of
        Tenant_scope \<Rightarrow>
          and_then (demand (has_exact_keys v [''verified'', ''scope'', ''rowsRemoved'', ''remainingRows'']) bad) (\<lambda>_.
          and_then (num ''rowsRemoved'') (\<lambda>removed.
          and_then (num ''remainingRows'') (\<lambda>remaining.
          and_then (demand (is_true (map_of v ''verified'') \<and> has_text (map_of v ''scope'') ''tenant'' \<and> remaining = 0) bad) (\<lambda>_.
            Inr [(''verified'', JBool True), (''scope'', JStr ''tenant''), (''rowsRemoved'', JNum removed)]))))
      | Connection_scope \<Rightarrow>
          and_then (demand (has_exact_keys v [''verified'', ''scope'', ''rowsRemoved'', ''canonicalDependencyRowsAdded'', ''canonicalResidual'',
            ''reconciliationRowsRemoved'', ''marts'']) bad) (\<lambda>_.
          and_then (num ''rowsRemoved'') (\<lambda>removed.
          and_then (num ''canonicalDependencyRowsAdded'') (\<lambda>_.
          and_then (num ''canonicalResidual'') (\<lambda>residual.
          and_then (num ''reconciliationRowsRemoved'') (\<lambda>_.
          case map_of v ''marts'' of
            Some (JObj ms) \<Rightarrow>
              and_then (demand (has_exact_keys ms [''refreshed'', ''chunks'', ''from'', ''to'']) bad) (\<lambda>_.
              and_then (evidence_count (map_of ms ''chunks'') ''analytical'') (\<lambda>chunks.
              and_then (demand (is_true (map_of v ''verified'') \<and> has_text (map_of v ''scope'') ''connection'' \<and> residual = 0 \<and>
                is_true (map_of ms ''refreshed'') \<and> mart_bounds chunks (map_of ms ''from'') (map_of ms ''to'')) bad) (\<lambda>_.
                Inr [(''verified'', JBool True), (''scope'', JStr ''connection''), (''rowsRemoved'', JNum removed)])))
          | _ \<Rightarrow> invalid bad))))))"

section \<open>The other stores\<close>

definition normalize_raw_verification :: "evidence \<Rightarrow> (thrown, evidence) result" where
  "normalize_raw_verification v =
     and_then (demand (has_exact_keys v [''verified'', ''remainingObjects'']) ''raw_storage_deletion_attestation_invalid'') (\<lambda>_.
     and_then (evidence_count (map_of v ''remainingObjects'') ''raw_storage'') (\<lambda>n.
     and_then (demand (is_true (map_of v ''verified'') \<and> n = 0) ''raw_storage_deletion_not_verified'') (\<lambda>_.
       Inr [(''verified'', JBool True), (''remainingObjects'', JNum n)])))"

definition normalize_raw_purge :: "evidence \<Rightarrow> deletion_claim \<Rightarrow> (thrown, evidence) result" where
  "normalize_raw_purge v c =
     (let bad = ''raw_storage_deletion_progress_invalid'' in
      and_then (demand (has_exact_keys v [''verified'', ''prefix'', ''objectsRemoved'']) bad) (\<lambda>_.
      and_then (evidence_count (map_of v ''objectsRemoved'') ''raw_storage'') (\<lambda>n.
      and_then (demand (is_true (map_of v ''verified'') \<and> has_text (map_of v ''prefix'') (prefix_of_scope (dc_tenant c) (dc_connection c))) bad) (\<lambda>_.
        Inr [(''verified'', JBool True), (''objectsRemoved'', JNum n)]))))"

text \<open>Three counts that must all be zero: the credential vault and the control plane.\<close>

definition zero_counts :: "string \<Rightarrow> string list \<Rightarrow> evidence \<Rightarrow> (thrown, evidence) result" where
  "zero_counts store ks v =
     and_then (demand (has_exact_keys v (''verified'' # ks)) (store @ ''_deletion_attestation_invalid'')) (\<lambda>_.
     and_then (counts_of v store ks) (\<lambda>ns.
     and_then (demand (is_true (map_of v ''verified'') \<and> total_of ns = 0) (store @ ''_deletion_not_verified'')) (\<lambda>_.
       Inr ((''verified'', JBool True) # count_fields ns))))"

definition normalize_credential_verification :: "evidence \<Rightarrow> (thrown, evidence) result" where
  "normalize_credential_verification = zero_counts ''credential_vault'' [''tokenReferences'', ''credentialEnvelopes'', ''sessionEnvelopes'']"

definition normalize_control_verification :: "evidence \<Rightarrow> (thrown, evidence) result" where
  "normalize_control_verification =
     zero_counts ''control_plane'' [''remainingTenantOrConnectionRows'', ''remainingDerivedArtifacts'', ''remainingQueueMessages'']"

definition normalize_control_purge :: "evidence \<Rightarrow> deletion_claim \<Rightarrow> (thrown, evidence) result" where
  "normalize_control_purge v c =
     (let bad = ''control_plane_deletion_progress_invalid'';
          completion = (case dc_scope c of Tenant_scope \<Rightarrow> ''tenantAnchorPendingProof'' | Connection_scope \<Rightarrow> ''connectionTombstoned'') in
      and_then (demand (has_exact_keys v [''scope'', ''rowsRemoved'', completion]) bad) (\<lambda>_.
      and_then (evidence_count (map_of v ''rowsRemoved'') ''control_plane'') (\<lambda>n.
      and_then (demand (has_text (map_of v ''scope'') (scope_text (dc_scope c)) \<and> is_true (map_of v completion)) bad) (\<lambda>_.
        Inr [(''verified'', JBool True), (''scope'', JStr (scope_text (dc_scope c))), (''rowsRemoved'', JNum n)]))))"

section \<open>Failures\<close>

text \<open>\<open>deletionFailureEvidence\<close>: the code and its class; the correlation id and the time come with them. A
  code is never the name of a property that every object inherits.\<close>

definition connector_failure_code :: "connector_error_code \<Rightarrow> string" where
  "connector_failure_code c = ''connector_'' @ connector_code_text c"

definition database_failure_codes :: "(string \<times> string) list" where
  "database_failure_codes =
     [(''40001'', ''database_serialization_conflict''), (''40P01'', ''database_deadlock''), (''42501'', ''database_permission_denied''),
      (''55000'', ''deletion_fence_conflict''), (''57P01'', ''database_unavailable''), (''08000'', ''database_unavailable''),
      (''08003'', ''database_unavailable''), (''08006'', ''database_unavailable''), (''23503'', ''database_integrity_violation''),
      (''23505'', ''database_integrity_violation'')]"

definition named_failure_codes :: "(string \<times> string \<times> string) list" where
  "named_failure_codes =
     [(''AbortError'', ''operation_aborted'', ''timeout''), (''TimeoutError'', ''operation_timeout'', ''timeout''),
      (''TypeError'', ''internal_type_error'', ''internal''), (''SyntaxError'', ''internal_syntax_error'', ''internal'')]"

definition UNEXPECTED :: "string \<times> string" where
  "UNEXPECTED = (''unexpected_deletion_failure'', ''internal'')"

definition deletion_failure :: "thrown \<Rightarrow> string \<times> string" where
  "deletion_failure e =
     (case e of
        Thrown_connector ce _ \<Rightarrow> (connector_failure_code (err_code ce), ''connector'')
      | Thrown_object c n _ \<Rightarrow>
          (case (case c of None \<Rightarrow> None | Some k \<Rightarrow> map_of database_failure_codes k) of
             Some x \<Rightarrow> (x, ''database'')
           | None \<Rightarrow> (case (case n of None \<Rightarrow> None | Some k \<Rightarrow> map_of named_failure_codes k) of
               Some x \<Rightarrow> x
             | None \<Rightarrow> UNEXPECTED))
      | Thrown_value \<Rightarrow> UNEXPECTED)"

definition all_connector_codes :: "connector_error_code list" where
  "all_connector_codes =
     [AUTHENTICATION_REQUIRED, CAPABILITY_UNAVAILABLE, CONFIGURATION_INVALID, CREDENTIAL_CONFLICT, CURSOR_INVALID, OAUTH_EXCHANGE_FAILED,
      RATE_LIMITED, REMOTE_RESPONSE_INVALID, REMOTE_UNAVAILABLE, WEBHOOK_SIGNATURE_INVALID]"

definition remote_failure_classes :: "(string \<times> string) list" where
  "remote_failure_classes =
     map (\<lambda>c. (connector_failure_code c, ''connector'')) all_connector_codes @
     map (\<lambda>e. (snd e, ''database'')) database_failure_codes @ map snd named_failure_codes @ [UNEXPECTED]"

section \<open>Remote revocation\<close>

definition remote_keys :: "string list" where
  "remote_keys = [''attemptedAt'', ''priorStatus'', ''targetCount'', ''targets'', ''bestEffort'']"

definition forced_keys :: "string list" where
  "forced_keys = remote_keys @ [''forcedLocalDestruction'', ''reason'']"

definition target_keys :: "string list" where
  "target_keys = [''provider'', ''connectionGeneration'', ''status'']"

definition failed_target_keys :: "string list" where
  "failed_target_keys = target_keys @ [''errorCode'', ''errorClass'', ''correlationId'']"

definition text_in :: "json option \<Rightarrow> string list \<Rightarrow> bool" where
  "text_in v ss = (case v of Some (JStr s) \<Rightarrow> s \<in> set ss | _ \<Rightarrow> False)"

definition GRACE_EXPIRED :: string where
  "GRACE_EXPIRED = ''remote_revocation_grace_expired''"

definition bad_remote :: string where
  "bad_remote = ''remote_revocation_attestation_invalid''"

definition instant_text :: "(string \<Rightarrow> int option) \<Rightarrow> json option \<Rightarrow> bool" where
  "instant_text date_parse v =
     (case v of
        Some (JStr s) \<Rightarrow> shaped ''0000-00-00T00:00:00.000Z'' s \<and> (case date_parse s of None \<Rightarrow> False | Some t \<Rightarrow> iso_string t = s)
      | _ \<Rightarrow> False)"

definition the_text :: "json option \<Rightarrow> json" where
  "the_text v = (case v of Some x \<Rightarrow> x | None \<Rightarrow> JNull)"

definition normalize_target :: "json \<Rightarrow> (thrown, json) result" where
  "normalize_target v =
     (case v of
        JObj t \<Rightarrow>
          and_then (evidence_count (map_of t ''connectionGeneration'') ''remote_revocation'') (\<lambda>g.
          and_then (demand (text_in (map_of t ''status'') [''succeeded'', ''unsupported'', ''failed''] \<and>
            text_in (map_of t ''provider'') [''lightspeed-r'', ''xero'', ''deputy''] \<and> 1 \<le> g) bad_remote) (\<lambda>_.
          let common = [(''provider'', the_text (map_of t ''provider'')), (''connectionGeneration'', JNum g), (''status'', the_text (map_of t ''status''))] in
          if \<not> has_text (map_of t ''status'') ''failed'' then
            and_then (demand (has_exact_keys t target_keys) bad_remote) (\<lambda>_. Inr (JObj common))
          else
            and_then (demand (has_exact_keys t failed_target_keys \<and>
              (case (map_of t ''errorCode'', map_of t ''errorClass'', map_of t ''correlationId'') of
                 (Some (JStr e), Some (JStr k), Some (JStr i)) \<Rightarrow> map_of (rev remote_failure_classes) e = Some k \<and> is_ulid i
               | _ \<Rightarrow> False)) bad_remote) (\<lambda>_.
              Inr (JObj (common @ [(''errorCode'', the_text (map_of t ''errorCode'')), (''errorClass'', the_text (map_of t ''errorClass'')),
                (''correlationId'', the_text (map_of t ''correlationId''))])))))
      | _ \<Rightarrow> invalid bad_remote)"

definition normalize_remote_revocation :: "(string \<Rightarrow> int option) \<Rightarrow> evidence \<Rightarrow> (thrown, evidence) result" where
  "normalize_remote_revocation date_parse v =
     (let forced = has_exact_keys v forced_keys in
      and_then (demand (forced \<or> has_exact_keys v remote_keys) bad_remote) (\<lambda>_.
      and_then (evidence_count (map_of v ''targetCount'') ''remote_revocation'') (\<lambda>n.
      case map_of v ''targets'' of
        Some (JArr ts) \<Rightarrow>
          and_then (demand (instant_text date_parse (map_of v ''attemptedAt'') \<and>
            text_in (map_of v ''priorStatus'') [''pending'', ''succeeded'', ''unsupported'', ''failed'', ''not_applicable''] \<and>
            n = int (length ts) \<and> is_true (map_of v ''bestEffort'') \<and>
            (forced \<longrightarrow> is_true (map_of v ''forcedLocalDestruction'') \<and> has_text (map_of v ''reason'') GRACE_EXPIRED \<and>
               has_text (map_of v ''priorStatus'') ''failed'' \<and> n = 0)) bad_remote) (\<lambda>_.
          and_then (map_r normalize_target ts) (\<lambda>us.
            Inr ([(''attemptedAt'', the_text (map_of v ''attemptedAt'')), (''priorStatus'', the_text (map_of v ''priorStatus'')),
                  (''targetCount'', JNum n), (''targets'', JArr us), (''bestEffort'', JBool True)] @
                 (if forced then [(''forcedLocalDestruction'', JBool True), (''reason'', JStr GRACE_EXPIRED)] else []))))
      | _ \<Rightarrow> invalid bad_remote)))"

section \<open>What is accepted\<close>

lemma demand_ok [simp]: "demand b m = Inr u \<longleftrightarrow> b" "demand b m = Inl e \<longleftrightarrow> \<not> b \<and> e = plain_error m"
  by (auto simp: demand_def invalid_def)

lemma invalid_not_ok [simp]: "invalid m \<noteq> Inr x"
  by (simp add: invalid_def)

lemma evidence_count_ok: "evidence_count v store = Inr n \<longleftrightarrow> v = Some (JNum n) \<and> 0 \<le> n \<and> n \<le> 2 ^ 53 - 1"
  by (auto simp: evidence_count_def split: option.splits json.splits)

lemma counts_of_ok:
  "counts_of v store ks = Inr ns \<longleftrightarrow> map fst ns = ks \<and> (\<forall>e\<in>set ns. map_of v (fst e) = Some (JNum (snd e)) \<and> 0 \<le> snd e \<and> snd e \<le> 2 ^ 53 - 1)"
  by (induction ks arbitrary: ns) (auto simp: and_then_Inr_iff evidence_count_ok Cons_eq_map_conv)

lemma total_zero: "\<forall>e\<in>set ns. 0 \<le> snd e \<Longrightarrow> total_of ns = 0 \<longleftrightarrow> (\<forall>e\<in>set ns. snd e = 0)"
proof (induction ns)
  case (Cons e ns)
  have "0 \<le> total_of ns" using Cons.prems unfolding total_of_def by (intro sum_list_nonneg) auto
  with Cons show ?case by (auto simp: total_of_def)
qed (simp add: total_of_def)

definition all_zero :: "string list \<Rightarrow> evidence \<Rightarrow> bool" where
  "all_zero ks v \<longleftrightarrow> list_all (\<lambda>k. map_of v k = Some (JNum 0)) ks"

definition zero_fields :: "string list \<Rightarrow> evidence" where
  "zero_fields ks = map (\<lambda>k. (k, JNum 0)) ks"

lemma counts_zeroD:
  assumes "counts_of v store ks = Inr ns" "total_of ns = 0"
  shows "all_zero ks v" "count_fields ns = zero_fields ks"
proof -
  have "\<forall>e\<in>set ns. map_of v (fst e) = Some (JNum 0) \<and> snd e = 0" "map fst ns = ks" using assms total_zero by (auto simp: counts_of_ok)
  then show "all_zero ks v" "count_fields ns = zero_fields ks"
    by (force simp: all_zero_def zero_fields_def count_fields_def list_all_iff)+
qed

lemma counts_zeroI:
  assumes "all_zero ks v"
  shows "\<exists>ns. counts_of v store ks = Inr ns \<and> total_of ns = 0 \<and> count_fields ns = zero_fields ks"
proof -
  have "counts_of v store ks = Inr (map (\<lambda>k. (k, 0)) ks)" "total_of (map (\<lambda>k. (k, 0)) ks) = 0" "count_fields (map (\<lambda>k. (k, 0)) ks) = zero_fields ks"
    using assms by (auto simp: counts_of_ok all_zero_def list_all_iff total_of_def zero_fields_def count_fields_def comp_def)
  then show ?thesis by blast
qed

lemma counts_zero: "(\<exists>ns. counts_of v store ks = Inr ns \<and> total_of ns = 0 \<and> x = f (count_fields ns)) \<longleftrightarrow> all_zero ks v \<and> x = f (zero_fields ks)"
  by (metis counts_zeroD counts_zeroI)

lemma zero_counts_ok:
  "zero_counts store ks v = Inr w \<longleftrightarrow>
     has_exact_keys v (''verified'' # ks) \<and> is_true (map_of v ''verified'') \<and> all_zero ks v \<and> w = (''verified'', JBool True) # zero_fields ks"
  using counts_zero [of v store ks w "\<lambda>x. (''verified'', JBool True) # x"] by (auto simp: zero_counts_def and_then_Inr_iff)

text \<open>C12: the verification of a store is accepted exactly when the object has the
  keys of its contract and no other, says it is verified, for this scope, and every count in it is zero;
  what enters the proof is then the one all-zero attestation of that store, whatever else was sent.\<close>

theorem verification_means_empty:
  "(normalize_analytical_attestation v c = Inr w \<longleftrightarrow>
      has_exact_keys v analytical_attestation_keys \<and> has_text (map_of v ''measurement'') ''post_purge_row_counts_v1'' \<and>
      has_text (map_of v ''scope'') (scope_text (dc_scope c)) \<and> is_true (map_of v ''verified'') \<and> map_of v ''remainingRows'' = Some (JNum 0) \<and>
      (\<exists>rs. map_of v ''residuals'' = Some (JObj rs) \<and> has_exact_keys rs analytical_residual_keys \<and> all_zero analytical_residual_keys rs) \<and>
      w = [(''verified'', JBool True), (''scope'', JStr (scope_text (dc_scope c))), (''measurement'', JStr ''post_purge_row_counts_v1''),
           (''remainingRows'', JNum 0), (''residuals'', JObj (zero_fields analytical_residual_keys))]) \<and>
   (normalize_raw_verification v = Inr w \<longleftrightarrow>
      has_exact_keys v [''verified'', ''remainingObjects''] \<and> is_true (map_of v ''verified'') \<and> map_of v ''remainingObjects'' = Some (JNum 0) \<and>
      w = [(''verified'', JBool True), (''remainingObjects'', JNum 0)]) \<and>
   (normalize_credential_verification v = Inr w \<longleftrightarrow>
      (let ks = [''tokenReferences'', ''credentialEnvelopes'', ''sessionEnvelopes''] in
       has_exact_keys v (''verified'' # ks) \<and> is_true (map_of v ''verified'') \<and> all_zero ks v \<and> w = (''verified'', JBool True) # zero_fields ks)) \<and>
   (normalize_control_verification v = Inr w \<longleftrightarrow>
      (let ks = [''remainingTenantOrConnectionRows'', ''remainingDerivedArtifacts'', ''remainingQueueMessages''] in
       has_exact_keys v (''verified'' # ks) \<and> is_true (map_of v ''verified'') \<and> all_zero ks v \<and> w = (''verified'', JBool True) # zero_fields ks))"
proof (intro conjI)
  show "normalize_analytical_attestation v c = Inr w \<longleftrightarrow>
      has_exact_keys v analytical_attestation_keys \<and> has_text (map_of v ''measurement'') ''post_purge_row_counts_v1'' \<and>
      has_text (map_of v ''scope'') (scope_text (dc_scope c)) \<and> is_true (map_of v ''verified'') \<and> map_of v ''remainingRows'' = Some (JNum 0) \<and>
      (\<exists>rs. map_of v ''residuals'' = Some (JObj rs) \<and> has_exact_keys rs analytical_residual_keys \<and> all_zero analytical_residual_keys rs) \<and>
      w = [(''verified'', JBool True), (''scope'', JStr (scope_text (dc_scope c))), (''measurement'', JStr ''post_purge_row_counts_v1''),
           (''remainingRows'', JNum 0), (''residuals'', JObj (zero_fields analytical_residual_keys))]"
  proof (cases "\<exists>rs. map_of v ''residuals'' = Some (JObj rs)")
    case True
    then obtain rs where rs: "map_of v ''residuals'' = Some (JObj rs)" by blast
    show ?thesis (is "?l = ?r")
    proof
      assume ?l
      then obtain ns where ns: "counts_of rs ''analytical'' analytical_residual_keys = Inr ns" "total_of ns = 0"
          and facts: "has_exact_keys v analytical_attestation_keys" "has_text (map_of v ''measurement'') ''post_purge_row_counts_v1''"
            "has_text (map_of v ''scope'') (scope_text (dc_scope c))" "is_true (map_of v ''verified'')"
            "map_of v ''remainingRows'' = Some (JNum 0)" "has_exact_keys rs analytical_residual_keys"
          and w: "w = [(''verified'', JBool True), (''scope'', JStr (scope_text (dc_scope c))), (''measurement'', JStr ''post_purge_row_counts_v1''),
            (''remainingRows'', JNum 0), (''residuals'', JObj (count_fields ns))]"
        by (auto simp: normalize_analytical_attestation_def Let_def rs and_then_Inr_iff evidence_count_ok)
      from counts_zeroD [OF ns] facts w rs show ?r by simp
    next
      assume r: ?r
      with rs have "all_zero analytical_residual_keys rs" by simp
      from counts_zeroI [OF this, of "''analytical''"] obtain ns where
          "counts_of rs ''analytical'' analytical_residual_keys = Inr ns" "total_of ns = 0" "count_fields ns = zero_fields analytical_residual_keys"
        by blast
      with r rs show ?l by (simp add: normalize_analytical_attestation_def Let_def demand_def evidence_count_def)
    qed
  next
    case False
    then show ?thesis by (auto simp: normalize_analytical_attestation_def Let_def and_then_Inr_iff split: option.splits json.splits)
  qed
qed (auto simp: normalize_raw_verification_def normalize_credential_verification_def normalize_control_verification_def and_then_Inr_iff
    evidence_count_ok zero_counts_ok Let_def)

end
