(* ===== verification/Deletion_Processor.thy ===== *)
theory Deletion_Processor
  imports Deletion_Evidence
begin

text \<open>
  One attempt at a deletion: \<open>DeletionProcessor.process\<close> and \<open>ProductionCredentialRevoker.revoke\<close> of
  \<open>services/deletion-worker/src/processor.ts\<close>. The control plane, the analytical database, the raw
  storage and the vendors are the environment; every call to them is recorded with its success.
  The calls that \<open>Promise.all\<close> starts together are recorded in the order they are started.
\<close>

section \<open>Calls\<close>

datatype revocation_connector = Lightspeed_r | Xero_target | Deputy_target

record revocation_target =
  rt_tenant :: string
  rt_connection :: string
  rt_generation :: int
  rt_connector :: revocation_connector
  rt_credential :: string

record revocation_context =
  rx_status :: string
  rx_progress :: evidence
  rx_targets :: "revocation_target list"

record deletion_proof =
  pr_id :: string
  pr_tenant :: string
  pr_connection :: "string option"
  pr_remote :: evidence
  pr_stores :: evidence
  pr_digest :: string
  pr_version :: string

record failure_evidence =
  fe_code :: string
  fe_class :: string
  fe_correlation :: string
  fe_failed_at :: string

datatype deletion_event =
    Ev_extend | Ev_context | Ev_revoke revocation_target | Ev_destroy evidence | Ev_credentials
  | Ev_progress string evidence | Ev_quiescent | Ev_raw_purge | Ev_capability deletion_operation
  | Ev_analytical_purge string | Ev_control_purge | Ev_mark_verifying
  | Ev_raw_verify | Ev_analytical_verify string | Ev_control_verify
  | Ev_complete deletion_proof | Ev_retry failure_evidence int

text \<open>The replies, as functions of the history. \<open>dw_act\<close> answers the calls that return nothing, \<open>dw_ask\<close>
  those that return evidence; \<open>dw_pick\<close> says which of several rejections \<open>Promise.all\<close> sees first.\<close>

record deletion_world =
  dw_act :: "deletion_event \<Rightarrow> deletion_event history \<Rightarrow> (thrown, unit) result"
  dw_ask :: "deletion_event \<Rightarrow> deletion_event history \<Rightarrow> (thrown, evidence) result"
  dw_context :: "deletion_event history \<Rightarrow> (thrown, revocation_context) result"
  dw_capability :: "deletion_operation \<Rightarrow> deletion_event history \<Rightarrow> (thrown, string) result"
  dw_ulid :: "deletion_event history \<Rightarrow> string"
  dw_now :: "deletion_event history \<Rightarrow> int"
  dw_pick :: "deletion_event history \<Rightarrow> nat"
  dw_date :: "string \<Rightarrow> int option"
  dw_collate :: "string \<Rightarrow> rat"
  dw_sha256 :: "string \<Rightarrow> string"
  dw_hmac :: "string \<Rightarrow> string"
  dw_version :: string

type_synonym 'a deletion = "(unit, deletion_event, 'a) proc"

definition do_call :: "deletion_world \<Rightarrow> deletion_event \<Rightarrow> unit deletion" where
  "do_call w ev = perform (dw_act w ev) ev"

definition ask_for :: "deletion_world \<Rightarrow> deletion_event \<Rightarrow> evidence deletion" where
  "ask_for w ev = perform (dw_ask w ev) ev"

section \<open>Revoking credentials\<close>

fun provider_text :: "revocation_connector \<Rightarrow> string" where
  "provider_text Lightspeed_r = ''lightspeed-r''"
| "provider_text Xero_target = ''xero''"
| "provider_text Deputy_target = ''deputy''"

definition failure_of :: "deletion_world \<Rightarrow> deletion_event history \<Rightarrow> thrown \<Rightarrow> failure_evidence" where
  "failure_of w h e =
     \<lparr>fe_code = fst (deletion_failure e), fe_class = snd (deletion_failure e), fe_correlation = dw_ulid w h, fe_failed_at = iso_string (dw_now w h)\<rparr>"

definition target_entry :: "deletion_world \<Rightarrow> deletion_event history \<Rightarrow> revocation_target \<Rightarrow> (thrown, unit) result \<Rightarrow> json" where
  "target_entry w h t r =
     JObj ([(''provider'', JStr (provider_text (rt_connector t))), (''connectionGeneration'', JNum (rt_generation t))] @
       (case r of
          Inr _ \<Rightarrow> [(''status'', JStr (if rt_connector t = Deputy_target then ''unsupported'' else ''succeeded''))]
        | Inl e \<Rightarrow> let f = failure_of w h e in
            [(''status'', JStr ''failed''), (''errorCode'', JStr (fe_code f)), (''errorClass'', JStr (fe_class f)),
             (''correlationId'', JStr (fe_correlation f))]))"

fun revoke_targets :: "deletion_world \<Rightarrow> revocation_target list \<Rightarrow> json list deletion" where
  "revoke_targets w [] = ret []"
| "revoke_targets w (t # ts) =
     bind (try_p (do_call w (Ev_revoke t))) (\<lambda>r.
     bind get_history (\<lambda>h.
     bind (revoke_targets w ts) (\<lambda>es. ret (target_entry w h t r # es))))"

definition forced_destruction :: "json \<Rightarrow> bool" where
  "forced_destruction v =
     (case v of
        JObj m \<Rightarrow> has_exact_keys m [''forcedLocalDestruction'', ''reason''] \<and> is_true (map_of m ''forcedLocalDestruction'') \<and>
          has_text (map_of m ''reason'') GRACE_EXPIRED
      | _ \<Rightarrow> False)"

definition completed_at :: "evidence \<Rightarrow> json option" where
  "completed_at progress = (case map_of progress ''credential_vault'' of Some (JObj m) \<Rightarrow> map_of m ''completedAt'' | _ \<Rightarrow> None)"

definition prior_revocation :: "(string \<Rightarrow> int option) \<Rightarrow> evidence \<Rightarrow> json \<Rightarrow> (thrown, evidence) result" where
  "prior_revocation date_parse progress prior =
     (if forced_destruction prior then
        (case completed_at progress of
           Some (JStr s) \<Rightarrow>
             (case date_parse s of
                None \<Rightarrow> invalid ''forced_remote_revocation_attestation_invalid''
              | Some t \<Rightarrow> normalize_remote_revocation date_parse
                  [(''attemptedAt'', JStr (iso_string t)), (''priorStatus'', JStr ''failed''), (''targetCount'', JNum 0), (''targets'', JArr []),
                   (''bestEffort'', JBool True), (''forcedLocalDestruction'', JBool True), (''reason'', JStr GRACE_EXPIRED)])
         | _ \<Rightarrow> invalid ''forced_remote_revocation_attestation_invalid'')
      else (case prior of
          JObj m \<Rightarrow> normalize_remote_revocation date_parse m
        | _ \<Rightarrow> invalid bad_remote))"

definition revocation_record :: "deletion_world \<Rightarrow> deletion_event history \<Rightarrow> string \<Rightarrow> json list \<Rightarrow> evidence" where
  "revocation_record w h status es =
     [(''attemptedAt'', JStr (iso_string (dw_now w h))), (''priorStatus'', JStr status), (''targetCount'', JNum (int (length es))),
      (''targets'', JArr es), (''bestEffort'', JBool True)]"

definition revoke_remote :: "deletion_world \<Rightarrow> evidence deletion" where
  "revoke_remote w =
     bind (perform (dw_context w) Ev_context) (\<lambda>cx.
     case (rx_targets cx, map_of (rx_progress cx) ''remote_revocation'') of
       ([], Some prior) \<Rightarrow> lift_result (prior_revocation (dw_date w) (rx_progress cx) prior)
     | (ts, _) \<Rightarrow>
         bind (revoke_targets w ts) (\<lambda>es.
         bind get_history (\<lambda>h. ret (revocation_record w h (rx_status cx) es))))"

section \<open>The stages\<close>

definition credential_stage :: "deletion_world \<Rightarrow> evidence deletion" where
  "credential_stage w =
     bind (do_call w Ev_extend) (\<lambda>_.
     bind (revoke_remote w) (\<lambda>rv.
     bind (lift_result (normalize_remote_revocation (dw_date w) rv)) (\<lambda>remote.
     bind (do_call w (Ev_destroy remote)) (\<lambda>_.
     bind (ask_for w Ev_credentials) (\<lambda>cv.
     bind (lift_result (normalize_credential_verification cv)) (\<lambda>vault.
     bind (do_call w (Ev_progress ''remote_revocation'' remote)) (\<lambda>_.
     bind (do_call w (Ev_progress ''credential_vault'' vault)) (\<lambda>_. ret remote))))))))"

definition raw_stage :: "deletion_world \<Rightarrow> deletion_claim \<Rightarrow> unit deletion" where
  "raw_stage w c =
     bind (do_call w Ev_extend) (\<lambda>_.
     bind (ask_for w Ev_quiescent) (\<lambda>q.
     bind (lift_result (demand (is_true (map_of q ''verified'')) ''sync_write_quiescence_deletion_not_verified'')) (\<lambda>_.
     bind (ask_for w Ev_raw_purge) (\<lambda>v.
     bind (lift_result (normalize_raw_purge v c)) (\<lambda>p. do_call w (Ev_progress ''raw_storage'' p))))))"

definition analytical_stage :: "deletion_world \<Rightarrow> deletion_claim \<Rightarrow> unit deletion" where
  "analytical_stage w c =
     bind (do_call w Ev_extend) (\<lambda>_.
     bind (perform (dw_capability w Purge) (Ev_capability Purge)) (\<lambda>capability.
     bind (ask_for w (Ev_analytical_purge capability)) (\<lambda>v.
     bind (lift_result (normalize_analytical_purge v c)) (\<lambda>p. do_call w (Ev_progress ''analytical'' p)))))"

definition control_stage :: "deletion_world \<Rightarrow> deletion_claim \<Rightarrow> unit deletion" where
  "control_stage w c =
     bind (do_call w Ev_extend) (\<lambda>_.
     bind (ask_for w Ev_control_purge) (\<lambda>v.
     bind (lift_result (normalize_control_purge v c)) (\<lambda>p. do_call w (Ev_progress ''control_plane'' p))))"

fun rejections :: "(thrown, 'a) result list \<Rightarrow> thrown list" where
  "rejections [] = []"
| "rejections (Inl e # rs) = e # rejections rs"
| "rejections (Inr x # rs) = rejections rs"

text \<open>\<open>Promise.all\<close>: the results in order, or one of the rejections.\<close>

definition all_or_first :: "nat \<Rightarrow> (thrown, 'a) result list \<Rightarrow> (thrown, 'a list) result" where
  "all_or_first n rs =
     (let es = rejections rs in if es = [] then map_r (\<lambda>r. r) rs else Inl (es ! (n mod length es)))"

definition verify_stores :: "deletion_world \<Rightarrow> string \<Rightarrow> evidence list deletion" where
  "verify_stores w capability =
     bind (try_p (ask_for w Ev_raw_verify)) (\<lambda>a.
     bind (try_p (ask_for w (Ev_analytical_verify capability))) (\<lambda>b.
     bind (try_p (ask_for w Ev_control_verify)) (\<lambda>c.
     bind (try_p (ask_for w Ev_credentials)) (\<lambda>d.
     bind get_history (\<lambda>h. lift_result (all_or_first (dw_pick w h) [a, b, c, d]))))))"

definition store_verification :: "deletion_claim \<Rightarrow> evidence list \<Rightarrow> (thrown, evidence) result" where
  "store_verification c vs =
     (case vs of
        [raw, analytical, control, vault] \<Rightarrow>
          and_then (normalize_raw_verification raw) (\<lambda>r.
          and_then (normalize_analytical_attestation analytical c) (\<lambda>a.
          and_then (normalize_control_verification control) (\<lambda>p.
          and_then (normalize_credential_verification vault) (\<lambda>v.
            Inr [(''credential_vault'', JObj v), (''raw_storage'', JObj r), (''analytical'', JObj a), (''control_plane'', JObj p)]))))
      | _ \<Rightarrow> invalid ''verifications_missing'')"

definition verification_stage :: "deletion_world \<Rightarrow> deletion_claim \<Rightarrow> evidence deletion" where
  "verification_stage w c =
     bind (do_call w Ev_extend) (\<lambda>_.
     bind (do_call w Ev_mark_verifying) (\<lambda>_.
     bind (perform (dw_capability w Verify) (Ev_capability Verify)) (\<lambda>capability.
     bind (verify_stores w capability) (\<lambda>vs.
     bind (lift_result (store_verification c vs)) (\<lambda>stores.
     bind (do_call w (Ev_progress ''verification'' [(''verified'', JBool True), (''storesVerified'', JNum (int (length stores)))])) (\<lambda>_. ret stores))))))"

text \<open>\<open>stable\<close>: the keys of every object in the order of \<open>localeCompare\<close>, a rank given by \<open>dw_collate\<close>.\<close>

definition stable_text :: "deletion_world \<Rightarrow> json \<Rightarrow> string" where
  "stable_text w v = stable_stringify (dw_collate w) v"

definition reference_hash :: "deletion_world \<Rightarrow> string \<Rightarrow> string \<Rightarrow> string" where
  "reference_hash w kind v = dw_hmac w (''albert-deletion-v1:'' @ kind @ '':'' @ v)"

definition proof_text :: "deletion_world \<Rightarrow> deletion_claim \<Rightarrow> string \<Rightarrow> evidence \<Rightarrow> evidence \<Rightarrow> json" where
  "proof_text w c i remote stores =
     JObj [(''version'', JStr ''albert-deletion-proof-v1''), (''proofId'', JStr i), (''deletionRequestId'', JStr (dc_request c)),
       (''scope'', JStr (scope_text (dc_scope c))), (''tenantReferenceHash'', JStr (reference_hash w ''tenant'' (dc_tenant c))),
       (''connectionReferenceHash'', (case dc_connection c of None \<Rightarrow> JNull | Some x \<Rightarrow> JStr (reference_hash w ''connection'' x))),
       (''remoteRevocation'', JObj remote), (''storeVerification'', JObj stores), (''serviceVersion'', JStr (dw_version w))]"

definition deletion_proof_of :: "deletion_world \<Rightarrow> deletion_claim \<Rightarrow> string \<Rightarrow> evidence \<Rightarrow> evidence \<Rightarrow> deletion_proof" where
  "deletion_proof_of w c i remote stores =
     \<lparr>pr_id = i, pr_tenant = reference_hash w ''tenant'' (dc_tenant c),
      pr_connection = map_option (reference_hash w ''connection'') (dc_connection c), pr_remote = remote, pr_stores = stores,
      pr_digest = dw_sha256 w (stable_text w (proof_text w c i remote stores)), pr_version = dw_version w\<rparr>"

definition delete_claimed :: "deletion_world \<Rightarrow> deletion_claim \<Rightarrow> unit deletion" where
  "delete_claimed w c =
     bind (credential_stage w) (\<lambda>remote.
     bind (raw_stage w c) (\<lambda>_.
     bind (analytical_stage w c) (\<lambda>_.
     bind (control_stage w c) (\<lambda>_.
     bind (verification_stage w c) (\<lambda>stores.
     bind get_history (\<lambda>h. do_call w (Ev_complete (deletion_proof_of w c (dw_ulid w h) remote stores))))))))"

datatype deletion_outcome = Deletion_completed | Deletion_retry failure_evidence int

definition retry_delay :: "nat \<Rightarrow> int" where
  "retry_delay reads = min 900 (max 10 (2 ^ min reads 9 * 5))"

definition process_deletion :: "deletion_world \<Rightarrow> deletion_claim \<Rightarrow> deletion_outcome deletion" where
  "process_deletion w c =
     bind (try_p (bind (delete_claimed w c) (\<lambda>_. ret Deletion_completed))) (\<lambda>r.
     case r of
       Inr x \<Rightarrow> ret x
     | Inl e \<Rightarrow>
         bind get_history (\<lambda>h.
         bind (do_call w (Ev_retry (failure_of w h e) (retry_delay (dc_reads c)))) (\<lambda>_.
           ret (Deletion_retry (failure_of w h e) (retry_delay (dc_reads c))))))"

end
