(* ===== verification/Deletion_Safety.thy ===== *)
theory Deletion_Safety
  imports Deletion_Processor
begin

text \<open>
  What an attempt at a deletion promises, whatever the environment answers. The protocol of a deletion
  is a small machine over the calls: each destructive call needs the lease to have been extended since
  the last stage, the stores are purged in a fixed order behind the destroyed credentials and the
  quiescent connection, they are verified after all purges, and the job is settled once. The attempt
  simulates the machine, and the proof it files has the empty attestation of every store.
\<close>

section \<open>The protocol\<close>

datatype stage = Claimed | Destroyed | Vault_empty | Quiet | Raw_gone | Analytical_gone | Control_gone | Verifying | Verified | Proved | Rescheduled

type_synonym protocol = "stage \<times> bool"

definition settled_stage :: "stage \<Rightarrow> bool" where
  "settled_stage s \<longleftrightarrow> s = Proved \<or> s = Rescheduled"

fun advance :: "stage \<Rightarrow> string \<Rightarrow> stage option" where
  "advance Destroyed k = (if k = ''remote_revocation'' then Some Destroyed else if k = ''credential_vault'' then Some Vault_empty else None)"
| "advance Quiet k = (if k = ''raw_storage'' then Some Raw_gone else None)"
| "advance Raw_gone k = (if k = ''analytical'' then Some Analytical_gone else None)"
| "advance Analytical_gone k = (if k = ''control_plane'' then Some Control_gone else None)"
| "advance Verifying k = (if k = ''verification'' then Some Verified else None)"
| "advance _ k = None"

text \<open>A call the protocol allows, and the state it leads to when it succeeds. The flag says that the lease
  was extended in this stage.\<close>

definition only_in :: "bool \<Rightarrow> protocol \<Rightarrow> protocol option" where
  "only_in b p = (if b then Some p else None)"

fun protocol_step :: "protocol \<Rightarrow> deletion_event \<Rightarrow> protocol option" where
  "protocol_step (s, b) Ev_extend = only_in (\<not> settled_stage s) (s, True)"
| "protocol_step (s, b) Ev_context = only_in (s = Claimed \<and> b) (s, b)"
| "protocol_step (s, b) (Ev_revoke t) = only_in (s = Claimed \<and> b) (s, b)"
| "protocol_step (s, b) (Ev_destroy e) = only_in (s = Claimed \<and> b) (Destroyed, b)"
| "protocol_step (s, b) Ev_credentials = only_in (s = Destroyed \<or> s = Verifying) (s, b)"
| "protocol_step (s, b) (Ev_progress k e) = map_option (\<lambda>s'. (s', s' = s \<and> b)) (advance s k)"
| "protocol_step (s, b) Ev_quiescent = only_in (s = Vault_empty \<and> b) (Quiet, b)"
| "protocol_step (s, b) Ev_raw_purge = only_in (s = Quiet \<and> b) (s, b)"
| "protocol_step (s, b) (Ev_capability d) = only_in (b \<and> (if d = Purge then s = Raw_gone else s = Verifying)) (s, b)"
| "protocol_step (s, b) (Ev_analytical_purge c) = only_in (s = Raw_gone \<and> b) (s, b)"
| "protocol_step (s, b) Ev_control_purge = only_in (s = Analytical_gone \<and> b) (s, b)"
| "protocol_step (s, b) Ev_mark_verifying = only_in (s = Control_gone \<and> b) (Verifying, b)"
| "protocol_step (s, b) Ev_raw_verify = only_in (s = Verifying) (s, b)"
| "protocol_step (s, b) (Ev_analytical_verify c) = only_in (s = Verifying) (s, b)"
| "protocol_step (s, b) Ev_control_verify = only_in (s = Verifying) (s, b)"
| "protocol_step (s, b) (Ev_complete p) = only_in (s = Verified) (Proved, b)"
| "protocol_step (s, b) (Ev_retry f d) = only_in (\<not> settled_stage s) (Rescheduled, b)"

text \<open>A failed call must have been allowed too: it may have taken effect.\<close>

fun run_protocol :: "protocol \<Rightarrow> deletion_event history \<Rightarrow> protocol option" where
  "run_protocol p [] = Some p"
| "run_protocol p (c # d) =
     (case protocol_step p (fst c) of None \<Rightarrow> None | Some q \<Rightarrow> run_protocol (if snd c then q else p) d)"

lemma run_protocol_append: "run_protocol p (d @ d') = (case run_protocol p d of None \<Rightarrow> None | Some q \<Rightarrow> run_protocol q d')"
  by (induction p d rule: run_protocol.induct) (auto split: option.split)

section \<open>Simulation\<close>

text \<open>\<open>follows P Q m\<close>: from a state in \<open>P\<close> the calls of \<open>m\<close> are a run of the protocol; a result leaves a
  state in \<open>Q\<close>, an exception one in which the job is not settled.\<close>

definition follows :: "(protocol \<Rightarrow> bool) \<Rightarrow> ('a \<Rightarrow> protocol \<Rightarrow> bool) \<Rightarrow> 'a deletion \<Rightarrow> bool" where
  "follows P Q m \<longleftrightarrow> (\<forall>l h p. P p \<longrightarrow> (\<exists>q. run_protocol p (snd (snd (m l h))) = Some q \<and>
     (case fst (m l h) of Inl _ \<Rightarrow> \<not> settled_stage (fst q) | Inr x \<Rightarrow> Q x q)))"

lemma follows_bind:
  assumes "follows P Q m" "\<And>x. follows (Q x) R (f x)"
  shows "follows P R (bind m f)"
  unfolding follows_def
proof (intro allI impI)
  fix l h p assume "P p"
  then obtain q where q: "run_protocol p (snd (snd (m l h))) = Some q"
      "case fst (m l h) of Inl _ \<Rightarrow> \<not> settled_stage (fst q) | Inr x \<Rightarrow> Q x q"
    using assms(1) unfolding follows_def by blast
  show "\<exists>q. run_protocol p (snd (snd (bind m f l h))) = Some q \<and>
      (case fst (bind m f l h) of Inl _ \<Rightarrow> \<not> settled_stage (fst q) | Inr x \<Rightarrow> R x q)"
  proof (cases "fst (m l h)")
    case (Inl e)
    with q show ?thesis by (simp add: bind_calls bind_outcome)
  next
    case (Inr x)
    then have "Q x q" using q(2) by simp
    then obtain q' where "run_protocol q (snd (snd (f x (fst (snd (m l h))) (h @ snd (snd (m l h)))))) = Some q'"
        "case fst (f x (fst (snd (m l h))) (h @ snd (snd (m l h)))) of Inl _ \<Rightarrow> \<not> settled_stage (fst q') | Inr y \<Rightarrow> R y q'"
      using assms(2) [of x] unfolding follows_def by blast
    with q(1) Inr show ?thesis by (simp add: bind_calls bind_outcome run_protocol_append)
  qed
qed

lemma follows_perform:
  assumes "\<And>p. P p \<Longrightarrow> \<exists>q. protocol_step p ev = Some q \<and> \<not> settled_stage (fst p) \<and> (\<forall>x. Q x q)"
  shows "follows P Q (perform f ev)"
  using assms unfolding follows_def perform_calls by (fastforce split: sum.splits)

lemma follows_lift: "(\<And>p. P p \<Longrightarrow> \<not> settled_stage (fst p)) \<Longrightarrow> (\<And>x p. P p \<Longrightarrow> Q x p) \<Longrightarrow> follows P Q (lift_result r)"
  by (cases r) (auto simp: follows_def lift_result_def ret_def raise_def)

lemma follows_ret: "(\<And>p. P p \<Longrightarrow> Q x p) \<Longrightarrow> follows P Q (ret x)"
  by (simp add: follows_def ret_def)

lemma follows_history: "(\<And>x p. P p \<Longrightarrow> Q x p) \<Longrightarrow> follows P Q get_history"
  by (simp add: follows_def get_history_def)

lemma follows_try:
  assumes "follows P Q m" "\<And>x p. Q x p \<Longrightarrow> R (Inr x) p" "\<And>e p. \<not> settled_stage (fst p) \<Longrightarrow> R (Inl e) p"
  shows "follows P R (try_p m)"
  unfolding follows_def try_calls sum.case
proof (intro allI impI)
  fix l h p assume "P p"
  then obtain q where q: "run_protocol p (snd (snd (m l h))) = Some q"
      "case fst (m l h) of Inl _ \<Rightarrow> \<not> settled_stage (fst q) | Inr x \<Rightarrow> Q x q"
    using assms(1) unfolding follows_def by blast
  then have "R (fst (m l h)) q" using assms(2,3) by (cases "fst (m l h)") simp_all
  with q(1) show "\<exists>q. run_protocol p (snd (snd (m l h))) = Some q \<and> R (fst (m l h)) q" by blast
qed

text \<open>Inside a stage the state is known.\<close>

lemma follows_call:
  "protocol_step p ev = Some q \<Longrightarrow> \<not> settled_stage (fst p) \<Longrightarrow> follows (\<lambda>r. r = p) (\<lambda>_ r. r = q) (perform f ev)"
  by (rule follows_perform) auto

lemma follows_quietly:
  "protocol_step p ev = Some p \<Longrightarrow> follows (\<lambda>r. r = p) (\<lambda>_ r. r = p) (try_p (perform f ev))"
  by (auto simp: follows_def perform_calls split: sum.splits)

lemma follows_pure:
  "follows (\<lambda>r. r = p) (\<lambda>_ r. r = p) get_history" "follows (\<lambda>r. r = p) (\<lambda>_ r. r = p) (ret x)"
  by (simp_all add: follows_history follows_ret)

lemma follows_checked: "\<not> settled_stage (fst p) \<Longrightarrow> follows (\<lambda>r. r = p) (\<lambda>_ r. r = p) (lift_result y)"
  by (rule follows_lift) auto

lemma step_call:
  "protocol_step p ev = Some q \<Longrightarrow> \<not> settled_stage (fst p) \<Longrightarrow> (\<And>x. follows (\<lambda>r. r = q) R (f x)) \<Longrightarrow> follows (\<lambda>r. r = p) R (bind (perform g ev) f)"
  by (rule follows_bind [OF follows_call])

lemma step_quietly:
  "protocol_step p ev = Some p \<Longrightarrow> (\<And>x. follows (\<lambda>r. r = p) R (f x)) \<Longrightarrow> follows (\<lambda>r. r = p) R (bind (try_p (perform g ev)) f)"
  by (rule follows_bind [OF follows_quietly])

lemma step_checked: "\<not> settled_stage (fst p) \<Longrightarrow> (\<And>x. follows (\<lambda>r. r = p) R (f x)) \<Longrightarrow> follows (\<lambda>r. r = p) R (bind (lift_result y) f)"
  by (rule follows_bind [OF follows_checked])

lemma step_history: "(\<And>x. follows (\<lambda>r. r = p) R (f x)) \<Longrightarrow> follows (\<lambda>r. r = p) R (bind get_history f)"
  by (rule follows_bind [OF follows_pure(1)])

lemmas stage_calls = do_call_def ask_for_def
lemmas allowed = only_in_def settled_stage_def

lemma follows_revoke_targets: "follows (\<lambda>r. r = (Claimed, True)) (\<lambda>_ r. r = (Claimed, True)) (revoke_targets w ts)"
proof (induction ts)
  case (Cons t ts)
  show ?case
    unfolding revoke_targets.simps do_call_def
    by (rule step_quietly, simp add: only_in_def, rule step_history, rule follows_bind [OF Cons.IH], rule follows_pure(2))
qed (simp add: follows_pure)

lemma follows_revoke: "follows (\<lambda>r. r = (Claimed, True)) (\<lambda>_ r. r = (Claimed, True)) (revoke_remote w)"
proof -
  have asked: "follows (\<lambda>r. r = (Claimed, True)) (\<lambda>_ r. r = (Claimed, True))
      (bind (revoke_targets w ts) (\<lambda>es. bind get_history (\<lambda>h. ret (revocation_record w h x es))))" for ts x
    by (rule follows_bind [OF follows_revoke_targets], rule step_history, rule follows_pure(2))
  show ?thesis
    unfolding revoke_remote_def
  proof (rule step_call)
    fix cx
    show "follows (\<lambda>r. r = (Claimed, True)) (\<lambda>_ r. r = (Claimed, True))
       (case (rx_targets cx, map_of (rx_progress cx) ''remote_revocation'') of
          ([], Some prior) \<Rightarrow> lift_result (prior_revocation (dw_date w) (rx_progress cx) prior)
        | (ts, _) \<Rightarrow> bind (revoke_targets w ts) (\<lambda>es. bind get_history (\<lambda>h. ret (revocation_record w h (rx_status cx) es))))"
      by (cases "rx_targets cx"; cases "map_of (rx_progress cx) ''remote_revocation''")
        (simp_all only: prod.case list.case option.case asked, rule follows_checked, simp add: allowed)
  qed (simp_all add: allowed)
qed

lemma follows_credentials: "follows (\<lambda>r. r = (Claimed, False)) (\<lambda>_ r. r = (Vault_empty, False)) (credential_stage w)"
  unfolding credential_stage_def stage_calls
  by (rule step_call, simp add: allowed, simp add: allowed, rule follows_bind [OF follows_revoke],
      ((rule step_call, simp add: allowed, simp add: allowed) | (rule step_checked, simp add: allowed))+, rule follows_pure(2))

lemma follows_raw: "follows (\<lambda>r. r = (Vault_empty, False)) (\<lambda>_ r. r = (Raw_gone, False)) (raw_stage w c)"
  unfolding raw_stage_def stage_calls
  by (((rule step_call, simp add: allowed, simp add: allowed) | (rule step_checked, simp add: allowed))+, rule follows_call) (simp_all add: allowed)

lemma follows_analytical: "follows (\<lambda>r. r = (Raw_gone, False)) (\<lambda>_ r. r = (Analytical_gone, False)) (analytical_stage w c)"
  unfolding analytical_stage_def stage_calls
  by (((rule step_call, simp add: allowed, simp add: allowed) | (rule step_checked, simp add: allowed))+, rule follows_call) (simp_all add: allowed)

lemma follows_control: "follows (\<lambda>r. r = (Analytical_gone, False)) (\<lambda>_ r. r = (Control_gone, False)) (control_stage w c)"
  unfolding control_stage_def stage_calls
  by (((rule step_call, simp add: allowed, simp add: allowed) | (rule step_checked, simp add: allowed))+, rule follows_call) (simp_all add: allowed)

lemma follows_verify_stores: "follows (\<lambda>r. r = (Verifying, True)) (\<lambda>_ r. r = (Verifying, True)) (verify_stores w k)"
  unfolding verify_stores_def stage_calls
  by ((rule step_quietly, simp add: allowed)+, rule step_history, rule follows_checked, simp add: allowed)

lemma follows_verification: "follows (\<lambda>r. r = (Control_gone, False)) (\<lambda>_ r. r = (Verified, False)) (verification_stage w c)"
  unfolding verification_stage_def stage_calls
  by ((rule step_call, simp add: allowed, simp add: allowed)+, rule follows_bind [OF follows_verify_stores],
      ((rule step_call, simp add: allowed, simp add: allowed) | (rule step_checked, simp add: allowed))+, rule follows_pure(2))

lemma follows_delete: "follows (\<lambda>r. r = (Claimed, False)) (\<lambda>_ r. r = (Proved, False)) (delete_claimed w c)"
  unfolding delete_claimed_def
  by (rule follows_bind [OF follows_credentials], rule follows_bind [OF follows_raw], rule follows_bind [OF follows_analytical],
      rule follows_bind [OF follows_control], rule follows_bind [OF follows_verification], rule step_history, unfold do_call_def, rule follows_call)
    (simp_all add: allowed)

section \<open>An attempt refines the protocol\<close>

definition outcome_stage :: "(thrown, deletion_outcome) result \<Rightarrow> stage \<Rightarrow> bool" where
  "outcome_stage r s \<longleftrightarrow>
     (case r of Inl _ \<Rightarrow> \<not> settled_stage s | Inr Deletion_completed \<Rightarrow> s = Proved | Inr (Deletion_retry f d) \<Rightarrow> s = Rescheduled)"

lemma follows_process: "follows (\<lambda>r. r = (Claimed, False)) (\<lambda>x q. outcome_stage (Inr x) (fst q)) (process_deletion w c)"
  unfolding process_deletion_def
proof (rule follows_bind)
  let ?R = "\<lambda>r q. case r of Inr x \<Rightarrow> x = Deletion_completed \<and> fst q = Proved | Inl _ \<Rightarrow> \<not> settled_stage (fst q)"
  show "follows (\<lambda>r. r = (Claimed, False)) ?R (try_p (bind (delete_claimed w c) (\<lambda>_. ret Deletion_completed)))"
    by (rule follows_try [where Q = "\<lambda>x q. x = Deletion_completed \<and> q = (Proved, False)"], rule follows_bind [OF follows_delete], rule follows_ret) simp_all
  fix r :: "(thrown, deletion_outcome) result"
  show "follows (?R r) (\<lambda>x q. outcome_stage (Inr x) (fst q))
      (case r of Inr x \<Rightarrow> ret x | Inl e \<Rightarrow> bind get_history (\<lambda>h. bind (do_call w (Ev_retry (failure_of w h e) (retry_delay (dc_reads c)))) (\<lambda>_.
         ret (Deletion_retry (failure_of w h e) (retry_delay (dc_reads c))))))"
  proof (cases r)
    case (Inr x)
    show ?thesis unfolding Inr sum.case by (rule follows_ret) (auto simp: outcome_stage_def)
  next
    case (Inl e)
    show ?thesis
      unfolding Inl sum.case do_call_def
      by (rule follows_bind [OF follows_history [where Q = "\<lambda>_ q. \<not> settled_stage (fst q)"]], assumption,
          rule follows_bind [OF follows_perform [where Q = "\<lambda>_ q. fst q = Rescheduled"]])
        (auto simp: only_in_def intro: follows_ret simp: outcome_stage_def)
  qed
qed

text \<open>C10: whatever the stores, the vendors and the control plane answer, the calls of one
  attempt are a run of the deletion protocol, the failed ones included: the lease is extended in every
  stage before anything is destroyed, the raw objects go only after the credentials and quiescence are
  certain, each store only after the one before it was recorded, verification follows all purges, and
  nothing follows the settling of the job. The job is proved exactly when the attempt reports
  completion, and rescheduled exactly when it reports a retry.\<close>

theorem deletion_follows_protocol:
  "\<exists>s b. run_protocol (Claimed, False) (snd (snd (process_deletion w c l h))) = Some (s, b) \<and>
     outcome_stage (fst (process_deletion w c l h)) s"
proof -
  obtain q where "run_protocol (Claimed, False) (snd (snd (process_deletion w c l h))) = Some q"
      "case fst (process_deletion w c l h) of Inl _ \<Rightarrow> \<not> settled_stage (fst q) | Inr x \<Rightarrow> outcome_stage (Inr x) (fst q)"
    using follows_process [of w c] unfolding follows_def by blast
  then show ?thesis by (cases q; cases "fst (process_deletion w c l h)") (auto simp: outcome_stage_def)
qed

section \<open>The job is settled once\<close>

definition settling :: "deletion_event \<Rightarrow> bool" where
  "settling ev = (case ev of Ev_complete _ \<Rightarrow> True | Ev_retry _ _ \<Rightarrow> True | _ \<Rightarrow> False)"

definition settled_with :: "deletion_outcome \<Rightarrow> deletion_event \<Rightarrow> bool" where
  "settled_with x ev =
     (case x of
        Deletion_completed \<Rightarrow> (\<exists>p. ev = Ev_complete p)
      | Deletion_retry f d \<Rightarrow> ev = Ev_retry f d \<and> 10 \<le> d \<and> d \<le> 900 \<and> (fe_code f, fe_class f) \<in> set remote_failure_classes)"

lemma not_settling [simp]:
  "\<not> settling Ev_extend" "\<not> settling Ev_context" "\<not> settling (Ev_revoke t)" "\<not> settling (Ev_destroy e)" "\<not> settling Ev_credentials"
  "\<not> settling (Ev_progress k e)" "\<not> settling Ev_quiescent" "\<not> settling Ev_raw_purge" "\<not> settling (Ev_capability d)"
  "\<not> settling (Ev_analytical_purge k)" "\<not> settling Ev_control_purge" "\<not> settling Ev_mark_verifying" "\<not> settling Ev_raw_verify"
  "\<not> settling (Ev_analytical_verify k)" "\<not> settling Ev_control_verify" "settling (Ev_complete p)" "settling (Ev_retry f n)"
  by (simp_all add: settling_def)

lemma failure_code_listed: "deletion_failure e \<in> set remote_failure_classes"
proof (cases e)
  case (Thrown_connector ce a)
  have "err_code ce \<in> set all_connector_codes" by (cases "err_code ce") (simp_all add: all_connector_codes_def)
  with Thrown_connector show ?thesis by (auto simp: deletion_failure_def remote_failure_classes_def)
next
  case (Thrown_object c n m)
  have "(x, ''database'') \<in> set remote_failure_classes" if "map_of database_failure_codes k = Some x" for k x
    using map_of_SomeD [OF that] by (force simp: remote_failure_classes_def)
  moreover have "x \<in> set remote_failure_classes" if "map_of named_failure_codes k = Some x" for k x
    using map_of_SomeD [OF that] by (force simp: remote_failure_classes_def)
  moreover have "UNEXPECTED \<in> set remote_failure_classes" by (simp add: remote_failure_classes_def)
  ultimately show ?thesis unfolding deletion_failure_def Thrown_object by (simp split: option.split)
qed (simp add: deletion_failure_def remote_failure_classes_def)

lemma confined_targets: "confined (\<lambda>ev. \<not> settling ev) (revoke_targets w ts)"
  by (induction ts) (auto simp: do_call_def intro!: confined_intros)

lemma confined_revoke: "confined (\<lambda>ev. \<not> settling ev) (revoke_remote w)"
  unfolding revoke_remote_def
  by (rule confined_bind, rule confined_perform, simp)
    (auto simp: do_call_def split: list.split option.split intro!: confined_intros confined_targets)

lemmas stage_defs = credential_stage_def raw_stage_def analytical_stage_def control_stage_def verification_stage_def verify_stores_def
  do_call_def ask_for_def

lemma confined_stages:
  "confined (\<lambda>ev. \<not> settling ev) (credential_stage w)" "confined (\<lambda>ev. \<not> settling ev) (raw_stage w c)"
  "confined (\<lambda>ev. \<not> settling ev) (analytical_stage w c)" "confined (\<lambda>ev. \<not> settling ev) (control_stage w c)"
  "confined (\<lambda>ev. \<not> settling ev) (verification_stage w c)"
  unfolding stage_defs by (intro confined_intros confined_revoke; simp)+

lemma settles_delete: "settles settling settled_with (bind (delete_claimed w c) (\<lambda>_. ret Deletion_completed))"
proof -
  have assoc: "bind (bind m f) g = bind m (\<lambda>x. bind (f x) g)" for m :: "'x deletion" and f :: "'x \<Rightarrow> 'y deletion" and g :: "'y \<Rightarrow> 'z deletion"
    by (intro ext) (simp add: bind_def split: prod.split sum.split)
  show ?thesis
    unfolding delete_claimed_def assoc do_call_def
    by (intro settles_bind confined_stages confined_locals settles_last) (simp_all add: settled_with_def)
qed

lemma delay_bounds: "10 \<le> retry_delay n \<and> retry_delay n \<le> 900"
  by (simp add: retry_delay_def)

text \<open>C11: an attempt that returns has made exactly one successful settling call, the
  completion or the retry it reports; one that throws has made none. A retry is scheduled between ten
  seconds and fifteen minutes later, and its evidence is one of the declared codes with its class,
  never the text of an exception.\<close>

theorem deletion_settled_once:
  "case fst (process_deletion w c l h) of
     Inl _ \<Rightarrow> settled settling (snd (snd (process_deletion w c l h))) = []
   | Inr x \<Rightarrow> \<exists>ev. settled settling (snd (snd (process_deletion w c l h))) = [ev] \<and> settled_with x ev"
proof -
  have retry: "settles settling settled_with (bind get_history (\<lambda>h. bind (do_call w (Ev_retry (failure_of w h e) (retry_delay (dc_reads c)))) (\<lambda>_.
      ret (Deletion_retry (failure_of w h e) (retry_delay (dc_reads c))))))" for e
    unfolding do_call_def
    by (intro settles_bind confined_locals settles_last)
      (simp_all add: settled_with_def delay_bounds failure_of_def failure_code_listed)
  have "settles settling settled_with (process_deletion w c)"
    unfolding process_deletion_def by (rule settles_catch [OF settles_delete retry])
  then show ?thesis by (auto simp: settles_def settled_as_def dest: spec split: sum.splits)
qed

section \<open>What a proof says\<close>

text \<open>\<open>gives Q m\<close>: a result of \<open>m\<close>, whatever the environment answers, satisfies \<open>Q\<close>.\<close>

definition gives :: "('a \<Rightarrow> bool) \<Rightarrow> 'a deletion \<Rightarrow> bool" where
  "gives Q m \<longleftrightarrow> (\<forall>l h x. fst (m l h) = Inr x \<longrightarrow> Q x)"

lemma gives_bind: "(\<And>x. gives Q (f x)) \<Longrightarrow> gives Q (bind m f)"
  by (auto simp: gives_def bind_outcome split: sum.splits)

lemma gives_checked: "(\<And>x. r = Inr x \<Longrightarrow> gives Q (f x)) \<Longrightarrow> gives Q (bind (lift_result r) f)"
  by (cases r) (auto simp: gives_def bind_outcome lift_result_def ret_def raise_def)

lemma gives_ret: "Q x \<Longrightarrow> gives Q (ret x)"
  by (simp add: gives_def ret_def)

lemma confined_checked: "(\<And>x. r = Inr x \<Longrightarrow> confined A (f x)) \<Longrightarrow> confined A (bind (lift_result r) f)"
  by (cases r) (auto simp: confined_def bind_calls lift_result_def ret_def raise_def)

lemma confined_given: "confined A m \<Longrightarrow> gives Q m \<Longrightarrow> (\<And>x. Q x \<Longrightarrow> confined A (f x)) \<Longrightarrow> confined A (bind m f)"
  unfolding confined_def gives_def bind_calls by (fastforce split: sum.splits)

definition empty_stores :: "deletion_claim \<Rightarrow> evidence" where
  "empty_stores c =
     [(''credential_vault'', JObj ((''verified'', JBool True) # zero_fields [''tokenReferences'', ''credentialEnvelopes'', ''sessionEnvelopes''])),
      (''raw_storage'', JObj [(''verified'', JBool True), (''remainingObjects'', JNum 0)]),
      (''analytical'', JObj [(''verified'', JBool True), (''scope'', JStr (scope_text (dc_scope c))), (''measurement'', JStr ''post_purge_row_counts_v1''),
         (''remainingRows'', JNum 0), (''residuals'', JObj (zero_fields analytical_residual_keys))]),
      (''control_plane'', JObj ((''verified'', JBool True) #
         zero_fields [''remainingTenantOrConnectionRows'', ''remainingDerivedArtifacts'', ''remainingQueueMessages'']))]"

lemma attested_empty:
  "normalize_analytical_attestation v c = Inr w \<Longrightarrow>
     w = [(''verified'', JBool True), (''scope'', JStr (scope_text (dc_scope c))), (''measurement'', JStr ''post_purge_row_counts_v1''),
       (''remainingRows'', JNum 0), (''residuals'', JObj (zero_fields analytical_residual_keys))]"
  by (auto simp: normalize_analytical_attestation_def Let_def and_then_Inr_iff split: option.splits json.splits dest!: counts_zeroD(2))

lemma verified_empty: "store_verification c vs = Inr stores \<Longrightarrow> stores = empty_stores c"
  by (auto simp: store_verification_def empty_stores_def and_then_Inr_iff normalize_raw_verification_def normalize_credential_verification_def
      normalize_control_verification_def zero_counts_ok evidence_count_ok dest: attested_empty split: list.splits)

definition sound_evidence :: "deletion_world \<Rightarrow> deletion_claim \<Rightarrow> deletion_event \<Rightarrow> bool" where
  "sound_evidence w c ev =
     (case ev of
        Ev_destroy remote \<Rightarrow> \<exists>v. normalize_remote_revocation (dw_date w) v = Inr remote
      | Ev_complete p \<Rightarrow> \<exists>v i remote. normalize_remote_revocation (dw_date w) v = Inr remote \<and> p = deletion_proof_of w c i remote (empty_stores c)
      | _ \<Rightarrow> True)"

lemma gives_stores: "gives (\<lambda>stores. stores = empty_stores c) (verification_stage w c)"
  unfolding verification_stage_def by (intro gives_bind gives_checked gives_ret) (rule verified_empty)

lemma gives_remote: "gives (\<lambda>remote. \<exists>v. normalize_remote_revocation (dw_date w) v = Inr remote) (credential_stage w)"
  unfolding credential_stage_def
  by (rule gives_bind, rule gives_bind, rule gives_checked, intro gives_bind gives_ret exI, assumption)

lemma sound_trivial:
  "sound_evidence w c Ev_extend" "sound_evidence w c Ev_context" "sound_evidence w c (Ev_revoke t)" "sound_evidence w c Ev_credentials"
  "sound_evidence w c (Ev_progress k e)" "sound_evidence w c Ev_quiescent" "sound_evidence w c Ev_raw_purge" "sound_evidence w c (Ev_capability d)"
  "sound_evidence w c (Ev_analytical_purge k)" "sound_evidence w c Ev_control_purge" "sound_evidence w c Ev_mark_verifying"
  "sound_evidence w c Ev_raw_verify" "sound_evidence w c (Ev_analytical_verify k)" "sound_evidence w c Ev_control_verify"
  "sound_evidence w c (Ev_retry f n)"
  by (simp_all add: sound_evidence_def)

lemma sound_targets: "confined (sound_evidence w c) (revoke_targets w ts)"
  by (induction ts) (auto simp: do_call_def sound_trivial intro!: confined_intros)

lemma sound_revoke: "confined (sound_evidence w c) (revoke_remote w)"
  unfolding revoke_remote_def
  by (rule confined_bind, rule confined_perform, rule sound_trivial)
    (auto simp: do_call_def sound_trivial split: list.split option.split intro!: confined_intros sound_targets)

lemma sound_credentials: "confined (sound_evidence w c) (credential_stage w)"
  unfolding credential_stage_def do_call_def ask_for_def
  by (rule confined_bind, rule confined_perform, rule sound_trivial, rule confined_bind [OF sound_revoke], rule confined_checked,
      intro confined_intros) (auto simp: sound_trivial, auto simp: sound_evidence_def)

lemma sound_stages:
  "confined (sound_evidence w c) (raw_stage w d)" "confined (sound_evidence w c) (analytical_stage w d)"
  "confined (sound_evidence w c) (control_stage w d)" "confined (sound_evidence w c) (verification_stage w d)"
  unfolding stage_defs by (intro confined_intros; simp add: sound_trivial)+

lemma sound_delete: "confined (sound_evidence w c) (delete_claimed w c)"
  unfolding delete_claimed_def do_call_def
  by (rule confined_given [OF sound_credentials gives_remote], rule confined_bind [OF sound_stages(1)], rule confined_bind [OF sound_stages(2)],
      rule confined_bind [OF sound_stages(3)], rule confined_given [OF sound_stages(4) gives_stores], intro confined_intros)
    (auto simp: sound_evidence_def)

text \<open>C9: credentials are destroyed only with remote evidence that was normalised, and every
  proof that is filed, also one whose filing failed, is the proof of this claim over normalised remote
  evidence and over exactly one store verification: no token, envelope, object, analytical row, control
  row, artifact or queue message of the scope is left. Nothing else can be digested and filed.\<close>

theorem deletion_proof_is_empty: "list_all (\<lambda>e. sound_evidence w c (fst e)) (snd (snd (process_deletion w c l h)))"
proof -
  have "confined (sound_evidence w c) (process_deletion w c)"
    unfolding process_deletion_def do_call_def
    by (intro confined_intros sound_delete) (simp_all add: sound_trivial)
  then show ?thesis by (simp add: confined_def list_all_iff)
qed

end
