(* ===== verification/Raw_Session.thy ===== *)
theory Raw_Session
  imports Deletion_Evidence
begin

text \<open>
  The leased storage sessions of \<open>services/deletion-worker/src/raw-storage.ts\<close>: the credential provider
  of the store asks \<open>authorizeSession\<close> for a grant whenever it opens a session, and
  \<open>LeaseBoundRawStoragePurger.withSession\<close> closes the client and revokes every grant, whatever the work
  did. The local state is the list \<open>grants\<close>; the work is any procedure over storage calls and
  authorisations.
\<close>

section \<open>Grants\<close>

record machine_identity =
  mi_subject :: string
  mi_session :: string
  mi_token_expires :: int

record deletion_grant =
  dg_id :: string
  dg_tenant :: string
  dg_scope :: deletion_scope
  dg_connection :: "string option"
  dg_operation :: deletion_operation
  dg_expires :: string

datatype 'c session_event =
  Ev_storage 'c | Ev_issue deletion_operation machine_identity | Ev_close | Ev_revoke_grant string

type_synonym ('c, 'a) session = "(string list, 'c session_event, 'a) proc"

record 'c session_world =
  sw_issue :: "deletion_operation \<Rightarrow> machine_identity \<Rightarrow> 'c session_event history \<Rightarrow> (thrown, deletion_grant) result"
  sw_close :: "'c session_event history \<Rightarrow> (thrown, unit) result"
  sw_revoke :: "string \<Rightarrow> 'c session_event history \<Rightarrow> (thrown, unit) result"
  sw_date :: "string \<Rightarrow> int option"

definition check_grant :: "(string \<Rightarrow> int option) \<Rightarrow> deletion_claim \<Rightarrow> deletion_operation \<Rightarrow> machine_identity \<Rightarrow> deletion_grant \<Rightarrow> (thrown, int) result" where
  "check_grant date_parse c p i g =
     (if dg_tenant g \<noteq> dc_tenant c \<or> dg_scope g \<noteq> dc_scope c \<or> dg_connection g \<noteq> dc_connection c \<or> dg_operation g \<noteq> p \<or> \<not> is_ulid (dg_id g)
      then Inl (plain_error ''raw_deletion_session_scope_mismatch'')
      else case date_parse (dg_expires g) of
        None \<Rightarrow> Inl (plain_error ''raw_deletion_session_expiry_invalid'')
      | Some t \<Rightarrow> if mi_token_expires i < t then Inl (plain_error ''raw_deletion_session_expiry_invalid'') else Inr t)"

definition note_grant :: "deletion_grant \<Rightarrow> string list \<Rightarrow> string list" where
  "note_grant g gs = (if is_ulid (dg_id g) then gs @ [dg_id g] else gs)"

definition authorize_session :: "'c session_world \<Rightarrow> deletion_claim \<Rightarrow> deletion_operation \<Rightarrow> machine_identity \<Rightarrow> ('c, int) session" where
  "authorize_session w c p i =
     bind (perform (sw_issue w p i) (Ev_issue p i)) (\<lambda>g.
     bind (modify_local (note_grant g)) (\<lambda>_. lift_result (check_grant (sw_date w) c p i g)))"

section \<open>A session\<close>

text \<open>\<open>Promise.allSettled\<close>: every revocation is tried.\<close>

fun revoke_grants :: "'c session_world \<Rightarrow> string list \<Rightarrow> ('c, bool) session" where
  "revoke_grants w [] = ret True"
| "revoke_grants w (g # gs) =
     bind (try_p (perform (sw_revoke w g) (Ev_revoke_grant g))) (\<lambda>r.
     bind (revoke_grants w gs) (\<lambda>b. ret (b \<and> (case r of Inl _ \<Rightarrow> False | Inr _ \<Rightarrow> True))))"

definition close_session :: "'c session_world \<Rightarrow> ('c, bool) session" where
  "close_session w =
     bind (try_p (perform (sw_close w) Ev_close)) (\<lambda>r.
     bind get_local (\<lambda>gs.
     bind (revoke_grants w (uniq gs)) (\<lambda>b. ret (b \<and> (case r of Inl _ \<Rightarrow> False | Inr _ \<Rightarrow> True)))))"

definition cleanup_failed :: thrown where
  "cleanup_failed = Thrown_object None (Some ''AggregateError'') (Some ''raw_deletion_session_cleanup_failed'')"

definition with_session ::
    "'c session_world \<Rightarrow> deletion_claim \<Rightarrow> deletion_operation \<Rightarrow> bool \<Rightarrow> (deletion_store \<Rightarrow> ('c, 'a) session) \<Rightarrow> ('c, 'a) session" where
  "with_session w c p governed work =
     bind (modify_local (\<lambda>_. [])) (\<lambda>_.
     bind (lift_result (new_deletion_store governed (Some \<lparr>ss_tenant = dc_tenant c, ss_connection = dc_connection c, ss_operation = p\<rparr>) True)) (\<lambda>st.
     bind (try_p (work st)) (\<lambda>r.
     bind (close_session w) (\<lambda>clean. if clean then lift_result r else raise cleanup_failed))))"

section \<open>Every grant is noted\<close>

text \<open>The well-formed ids of the grants that the control plane issued in \<open>d\<close>, after the history \<open>h\<close>.\<close>

fun issued :: "'c session_world \<Rightarrow> 'c session_event history \<Rightarrow> 'c session_event history \<Rightarrow> string list" where
  "issued w h [] = []"
| "issued w h (e # d) =
     (case e of
        (Ev_issue p i, True) \<Rightarrow> (case sw_issue w p i h of Inl _ \<Rightarrow> [] | Inr g \<Rightarrow> note_grant g [])
      | _ \<Rightarrow> []) @ issued w (h @ [e]) d"

lemma issued_append: "issued w h (d @ d') = issued w h d @ issued w (h @ d) d'"
  by (induction d arbitrary: h) simp_all

text \<open>\<open>keeps_account w m\<close>: what \<open>m\<close> adds to the grants is what was issued to it.\<close>

definition keeps_account :: "'c session_world \<Rightarrow> ('c, 'a) session \<Rightarrow> bool" where
  "keeps_account w m \<longleftrightarrow> (\<forall>l h. fst (snd (m l h)) = l @ issued w h (snd (snd (m l h))))"

named_theorems account_intros

lemma account_ret [account_intros]: "keeps_account w (ret x)"
  by (simp add: keeps_account_def ret_def)

lemma account_raise [account_intros]: "keeps_account w (raise e)"
  by (simp add: keeps_account_def raise_def)

lemma account_lift [account_intros]: "keeps_account w (lift_result r)"
  by (cases r) (simp_all add: lift_result_def account_ret account_raise)

lemma bind_local:
  "fst (snd (bind m f l h)) = (case fst (m l h) of Inl e \<Rightarrow> fst (snd (m l h))
     | Inr x \<Rightarrow> fst (snd (f x (fst (snd (m l h))) (h @ snd (snd (m l h))))))"
  by (simp add: bind_def split: prod.splits sum.splits)

lemma account_bind [account_intros]:
  assumes "keeps_account w m" "\<And>x. keeps_account w (f x)"
  shows "keeps_account w (bind m f)"
  unfolding keeps_account_def
proof (intro allI)
  fix l h
  have m: "fst (snd (m l h)) = l @ issued w h (snd (snd (m l h)))" using assms(1) by (simp add: keeps_account_def)
  have f: "fst (snd (f x k g)) = k @ issued w g (snd (snd (f x k g)))" for x k g using assms(2) [of x] by (simp add: keeps_account_def)
  show "fst (snd (bind m f l h)) = l @ issued w h (snd (snd (bind m f l h)))"
    by (cases "fst (m l h)") (simp_all add: bind_local bind_calls m f issued_append)
qed

lemma account_storage [account_intros]: "keeps_account w (perform f (Ev_storage c))"
  by (simp add: keeps_account_def perform_def split: sum.split)

lemma account_authorize [account_intros]: "keeps_account w (authorize_session w c p i)"
  unfolding keeps_account_def
proof (intro allI)
  fix l h
  show "fst (snd (authorize_session w c p i l h)) = l @ issued w h (snd (snd (authorize_session w c p i l h)))"
  proof (cases "sw_issue w p i h")
    case (Inr g)
    then show ?thesis
      by (cases "check_grant (sw_date w) c p i g")
        (simp_all add: authorize_session_def bind_def perform_def modify_local_def lift_result_def ret_def raise_def note_grant_def)
  qed (simp add: authorize_session_def bind_def perform_def)
qed

section \<open>And revoked\<close>

lemma revoke_grants_calls:
  "map fst (snd (snd (revoke_grants w gs l h))) = map Ev_revoke_grant gs \<and>
   fst (revoke_grants w gs l h) = Inr (list_all snd (snd (snd (revoke_grants w gs l h))))"
proof (induction gs arbitrary: h)
  case (Cons g gs)
  from Cons.IH [of "h @ [(Ev_revoke_grant g, True)]"] Cons.IH [of "h @ [(Ev_revoke_grant g, False)]"] show ?case
    by (cases "sw_revoke w g h") (simp_all add: bind_calls bind_outcome try_p_def perform_def)
qed (simp add: ret_def)

lemma close_session_calls:
  "map fst (snd (snd (close_session w gs h))) = Ev_close # map Ev_revoke_grant (uniq gs) \<and>
   fst (close_session w gs h) = Inr (list_all snd (snd (snd (close_session w gs h))))"
  using revoke_grants_calls [of w "uniq gs" gs "h @ [(Ev_close, True)]"]
    revoke_grants_calls [of w "uniq gs" gs "h @ [(Ev_close, False)]"]
  by (cases "sw_close w h") (simp_all add: close_session_def bind_calls bind_outcome try_p_def perform_def get_local_def)

definition session_scope_valid :: "deletion_claim \<Rightarrow> bool" where
  "session_scope_valid c \<longleftrightarrow> scope_valid (dc_tenant c) (dc_connection c)"

definition session_store :: "deletion_claim \<Rightarrow> deletion_operation \<Rightarrow> deletion_store" where
  "session_store c p =
     \<lparr>ds_scope = Some \<lparr>ss_tenant = dc_tenant c, ss_connection = dc_connection c, ss_operation = p\<rparr>,
      ds_prefix = Some (prefix_of_scope (dc_tenant c) (dc_connection c))\<rparr>"

lemma with_session_runs:
  "with_session w c p governed work l h =
     (if governed \<and> session_scope_valid c then
        bind (try_p (work (session_store c p))) (\<lambda>r. bind (close_session w) (\<lambda>clean. if clean then lift_result r else raise cleanup_failed)) [] h
      else (Inl (plain_error (if governed then ''Raw deletion session scope is invalid.''
         else ''Raw deletion requires the deletion machine principal.'')), [], []))"
  by (simp add: with_session_def new_deletion_store_def session_scope_valid_def session_store_def lift_result_def ret_def raise_def
      bind_def modify_local_def split: prod.split sum.split)


section \<open>A session at work\<close>

definition sample_identity :: machine_identity where
  "sample_identity = \<lparr>mi_subject = ''deletion'', mi_session = ''s1'', mi_token_expires = 1000\<rparr>"

definition sample_deletion_claim :: deletion_claim where
  "sample_deletion_claim =
     \<lparr>dc_message = 1, dc_reads = 1, dc_deadline = [], dc_request = ''r'', dc_tenant = ''0123456789ABCDEFGHJKMNPQRS'', dc_connection = None,
      dc_scope = Tenant_scope\<rparr>"

text \<open>The grant has the right tenant and outlives the token, so that it is refused; and revoked.\<close>

definition sample_session_world :: "string session_world" where
  "sample_session_world =
     \<lparr>sw_issue = (\<lambda>p i h. Inr \<lparr>dg_id = ''0123456789ABCDEFGHJKMNPQRT'', dg_tenant = ''0123456789ABCDEFGHJKMNPQRS'', dg_scope = Tenant_scope,
        dg_connection = None, dg_operation = p, dg_expires = ''later''\<rparr>),
      sw_close = (\<lambda>h. Inr ()), sw_revoke = (\<lambda>g h. Inr ()), sw_date = (\<lambda>s. Some 2000)\<rparr>"

definition sample_work :: "deletion_store \<Rightarrow> (string, unit) session" where
  "sample_work st =
     bind (authorize_session sample_session_world sample_deletion_claim Purge sample_identity) (\<lambda>_. perform (\<lambda>h. Inr ()) (Ev_storage ''list''))"


end
