(* ===== verification/Spec2Isabelle.thy ===== *)
theory Spec2Isabelle
  imports Exact_Decimal Quality_Checks Source_Authority Identity_Matching Tenant_Calendar Scan_Completeness Scan_Plan Page_Fetch
    Rate_Governor Http_Client Raw_Storage Walk_Progress Semantic_Blindness Semantic_Placeholders Semantic_Walks Deletion_Safety Raw_Session
begin

text \<open>
  A verification development for Albert, a multi-tenant analytics platform written in TypeScript.

  THE PROGRAM. Connectors (\<open>connectors\<close>, on top of \<open>packages/connector-sdk\<close>) fetch pages of vendor
  records. The sync workers (\<open>services/sync-workers\<close>) take jobs from a durable queue
  (\<open>packages/queue\<close>), write each page immutably to an object store (\<open>packages/storage\<close>), land it in the
  analytical database under a write fence, commit its cursor and enqueue what remains. Staged records
  become canonical facts (\<open>packages/canonical-schema\<close>): exact money, source authority, identities, quality
  checks. Questions become SQL through the semantic registry and the compiler
  (\<open>packages/semantic-registry\<close>, \<open>packages/compiler\<close>). The deletion worker
  (\<open>services/deletion-worker\<close>) removes a connection or a tenant from every store and files a proof.

  CONVENTIONS. Paths are relative to the repository. A function that throws returns
  \<open>Inl error\<close>, a \<open>thrown\<close> value where callers inspect what was thrown (\<open>Sync_Failures\<close>), an error datatype
  where they only see that it failed. A JavaScript number is an \<open>int\<close> where the code keeps it a safe integer
  and a \<open>real\<close> where it does arithmetic on fractions; \<open>bigint\<close> is \<open>int\<close>; a string is a list of code units
  below 256; an object is a record or, where its keys are data, an association list in insertion order.
  What is not the program is a parameter: \<open>Date.parse\<close>, \<open>Intl\<close>, \<open>localeCompare\<close> (a rank of strings), URL
  handling, SHA-256, HMAC, gzip, S3, the databases, the clock and the vendors. A theorem that relies on one
  of them names what it relies on as a hypothesis and has a witness in which the parameter is a concrete
  function. A service that awaits many calls is a \<open>proc\<close> (\<open>Effects\<close>): it reads the history of calls made so
  far, and the reply to each call is an arbitrary function of that history, so every theorem about a
  procedure covers every sequence of replies, failures and timings.

  THE THEORIES, and what their lemmas show.

  Foundations. \<open>Prelude\<close>: results, the fragment of the JavaScript library in use, insertion-ordered maps.
  \<open>Civil_Dates\<close>: the ECMAScript date algorithms, as a locale of day numberings with its interpretation.
  \<open>Json\<close>, \<open>Stable_Json\<close>: JSON values; the sorted rendering is injective up to the order of entries.
  \<open>Connector_Errors\<close>, \<open>Sync_Failures\<close>: \<open>connector-sdk/src/errors.ts\<close> and the failure classification of
  \<open>sync-workers/src/worker.ts\<close>. \<open>Effects\<close>: procedures, \<open>confined\<close> (which calls can be made) and \<open>settles\<close>
  (exactly one successful call of a kind).

  Canonical data (\<open>packages/canonical-schema/src\<close>). \<open>Exact_Decimal\<close>: all of \<open>decimal.ts\<close>; rounding is half
  away from zero, printing and parsing are inverse. \<open>Quality_Checks\<close>: the five checks of \<open>quality.ts\<close> against
  exact sums. \<open>Source_Authority\<close>: rule validation and resolution and canonicalisation of \<open>transform.ts\<close>;
  over validated rules the resolution is unique. \<open>Identity_Matching\<close>: evidence enrichment and suggestions.

  Vendor side. \<open>Rate_Governor\<close>, \<open>Page_Fetch\<close>, \<open>Scan_Plan\<close>, \<open>Scan_Completeness\<close>: the Lightspeed
  \<open>rate-governor.ts\<close>, \<open>fetch-core.ts\<close>, \<open>scan-plan.ts\<close>, \<open>completeness.ts\<close> and the Xero \<open>completeness.ts\<close>;
  accepted windows tile their range (locale \<open>window_tiling\<close>, interpreted for ids and for dates), plans reach every
  table, pagination advances. \<open>Http_Client\<close>: the retry loop and the concurrency limiter of
  \<open>connector-sdk/src/http.ts\<close>, the latter as a step relation with an invariant by rule induction.

  Sync (\<open>packages/queue/src/contracts.ts\<close>, \<open>services/sync-workers/src\<close>). \<open>Sync_Jobs\<close>: payload validation and
  idempotency keys. \<open>Sync_Lifecycle\<close>: the phases of a backfill. \<open>Source_Evidence\<close>: tombstones, watermarks
  and quality results of a page. \<open>Sync_Worker\<close>: \<open>SyncJobProcessor\<close>, one procedure per method.
  \<open>Worker_Safety\<close>, \<open>Walk_Progress\<close>: jobs are settled once, writes are fenced, no page is lost; \<open>Worker_Samples\<close>
  has the environment of the witnesses.

  Storage (\<open>packages/storage/src\<close>). \<open>Raw_Batch\<close>: keys, lines and hashes of \<open>raw-batch.ts\<close>. \<open>Raw_Storage\<close>:
  \<open>RawBatchWriter.write\<close> over the locales \<open>object_store\<close> and \<open>manifest_repository\<close>; the adapter of
  \<open>s3-ingestion.ts\<close> provides the first (\<open>sublocale\<close>), an in-memory S3 interprets the rest. \<open>Raw_Purge\<close>: the
  adapter of \<open>s3-deletion.ts\<close> and the purge loop, which refines its one-step specification \<open>without_prefix\<close>
  over the locale \<open>deletable_store\<close>. \<open>Raw_Session\<close>: leased sessions and the revocation of their grants.

  Questions (\<open>packages/semantic-registry/src\<close>, \<open>packages/compiler/src\<close>). \<open>Semantic_Registry\<close>: the contracts and
  \<open>buildRegistry\<close>. \<open>Tenant_Calendar\<close>: all of \<open>calendar.ts\<close>. \<open>Sql_Builder\<close>, \<open>Semantic_Render\<close>,
  \<open>Semantic_Single\<close>, \<open>Semantic_Compiler\<close>: \<open>compiler.ts\<close> from the parameter builder to composites, with the
  SQL text as strings. \<open>Semantic_Walks\<close>: the walks over dependent metrics end on accepted registries.
  \<open>Semantic_Authority\<close>: what a compiled query was allowed to read. \<open>Semantic_Blindness\<close>: its text does not
  depend on tenant or filter values. \<open>Semantic_Parameters\<close>, \<open>Semantic_Placeholders\<close>: its placeholders are the
  numbers of its values. \<open>Semantic_Samples\<close> has the registry of the witnesses.

  Deletion (\<open>services/deletion-worker/src\<close>). \<open>Deletion_Evidence\<close>: what each store must attest.
  \<open>Deletion_Processor\<close>: one attempt, and the revocation of credentials. \<open>Deletion_Safety\<close>: the attempt simulates
  the deletion protocol, a machine over the calls; a filed proof is over empty stores; it settles once.

  BOUNDS AND FUEL. Loops of the source are recursive functions that end by themselves, with these
  exceptions. The page walk of the worker is bounded by the pages per claim, as in the code. The correction
  loop of \<open>zonedWallClockToUtc\<close> makes six attempts, as in the code. \<open>attempts\<close> of the HTTP client is bounded by
  \<open>maxAttempts\<close>. Walks over dependent metrics carry the stack of metrics being
  visited; they end because the metrics not on the stack become fewer, or else the calculation smaller, and a
  metric met twice is the cycle error of the source. The purge loop is a \<open>partial_function (option)\<close> and proved to end while the keys below the prefix
  are finitely many.

  NOT MODELLED, and why. The web application (\<open>app\<close>, \<open>worker\<close>, \<open>build\<close>), because it renders and routes; the SQL
  of \<open>infra\<close> and \<open>supabase\<close> and the stores that only send it (\<open>control-plane-store.ts\<close>, \<open>analytical-store.ts\<close>,
  \<open>deletion-worker/src/store.ts\<close>), because their logic runs in the database and appears here as the replies of
  the environment; parsing with zod, whose accepted values are the arguments of the model; \<open>scripts\<close>, \<open>evals\<close>,
  tests and deployment files. Connectors other than Lightspeed and the completeness audit of Xero, the agent, conversation
  and webhook services, credential vaults and the transform worker are further components of the same kind
  and have no theory yet.
\<close>

end
